theory Spec2Isabelle
  imports Main "HOL-Library.Word"
begin

section \<open>Texts\<close>

text \<open>
  The extractor (\<^verbatim>\<open>src/dlhd_extractor.py\<close>, class \<^verbatim>\<open>DLHDExtractor\<close>) works on
  Python \<^verbatim>\<open>str\<close> values. They are modelled as \<^typ>\<open>string\<close>: a list of characters,
  each character standing for the code point of the same number. The texts that the
  extractor is given (URLs, pages, the cache file) are therefore those whose code points
  are below 256; byte strings are lists of the same type, one character per byte. A text
  with a code point of 256 or more can still arise inside the extractor, from Base64 or
  from a JSON escape: such a text is carried as a value of its own, by its UTF-8 bytes
  (see \<open>PWide\<close> below).
\<close>

definition code :: "char \<Rightarrow> nat" where
  "code c = of_char c"

definition startswith :: "string \<Rightarrow> string \<Rightarrow> bool" where
  "startswith s p = (take (length p) s = p)"

definition endswith :: "string \<Rightarrow> string \<Rightarrow> bool" where
  "endswith s p = (length p \<le> length s \<and> drop (length s - length p) s = p)"

text \<open>
  \<^verbatim>\<open>str.isspace\<close> on one character, which is also what \<^verbatim>\<open>str.strip()\<close> removes and
  what \<^verbatim>\<open>\s\<close> matches in a pattern over \<^verbatim>\<open>str\<close>: below 256 these are the code
  points 9 to 13, 28 to 32, 133 and 160.
\<close>

definition is_space :: "char \<Rightarrow> bool" where
  "is_space c = (let n = code c in (9 \<le> n \<and> n \<le> 13) \<or> (28 \<le> n \<and> n \<le> 32) \<or> n = 133 \<or> n = 160)"

text \<open>\<^verbatim>\<open>s.lstrip(chars)\<close>, \<^verbatim>\<open>s.rstrip(chars)\<close> and \<^verbatim>\<open>s.strip()\<close>.\<close>

definition lstrip_chars :: "string \<Rightarrow> string \<Rightarrow> string" where
  "lstrip_chars cs s = dropWhile (\<lambda>c. c \<in> set cs) s"

definition strip :: "string \<Rightarrow> string" where
  "strip s = rev (dropWhile is_space (rev (dropWhile is_space s)))"

section \<open>Python values\<close>

text \<open>
  The values that reach the extractor from \<^verbatim>\<open>json.loads\<close>, from the regular expressions
  and from its own dictionaries: \<^verbatim>\<open>None\<close>, booleans, integers, texts, lists,
  dictionaries with text keys, and floats. A dictionary is an association list in
  insertion order, with distinct keys; a key is kept as the UTF-8 encoding of its text,
  which for an ASCII key, as are all the keys that the extractor names, is the key itself.
  \<open>PStr\<close> is a text whose code points are below 256; \<open>PWide\<close> is a text that has a code
  point of 256 or more, given by its UTF-8 bytes (a lone surrogate, which a JSON escape
  can produce, written as the three bytes of its number). \<open>PFloat\<close> is a float, given by
  the numeral that \<^verbatim>\<open>json.loads\<close> read it from, or by \<^verbatim>\<open>NaN\<close>, \<^verbatim>\<open>Infinity\<close> or
  \<^verbatim>\<open>-Infinity\<close>; no arithmetic is done on floats.
\<close>

datatype pyval = PNone | PBool bool | PInt int | PStr string | PList "pyval list"
  | PDict "(string \<times> pyval) list" | PFloat string | PWide string

text \<open>
  The float that a numeral denotes is zero when the decimal number it writes, the digits
  \<open>m\<close> times ten to the power \<open>k\<close>, is at most \<open>2 ^ - 1075\<close>, half of the smallest
  positive float: \<^verbatim>\<open>float\<close> rounds to the nearest float, and a tie to the even one.
\<close>

definition is_digit :: "char \<Rightarrow> bool" where
  "is_digit c = (48 \<le> code c \<and> code c \<le> 57)"

definition int_of_digits :: "string \<Rightarrow> int" where
  "int_of_digits ds = foldl (\<lambda>n c. n * 10 + (int (code c) - 48)) 0 ds"

definition float_zero :: "string \<Rightarrow> bool" where
  "float_zero lit =
     (let s = (if take 1 lit = ''-'' then drop 1 lit else lit);
          ip = takeWhile is_digit s;
          r1 = dropWhile is_digit s;
          fp = (if take 1 r1 = ''.'' then takeWhile is_digit (drop 1 r1) else []);
          r2 = (if take 1 r1 = ''.'' then dropWhile is_digit (drop 1 r1) else r1);
          ex = (if take 1 (drop 1 r2) = ''-'' then - int_of_digits (drop 2 r2)
                else if take 1 (drop 1 r2) = ''+'' then int_of_digits (drop 2 r2)
                else int_of_digits (drop 1 r2));
          m = int_of_digits (ip @ fp);
          k = ex - int (length fp)
      in ip \<noteq> [] \<and> (m = 0 \<or> (k < 0 \<and> m * 2 ^ 1075 \<le> 10 ^ nat (- k))))"

text \<open>The truth value that \<^verbatim>\<open>if x:\<close> and \<^verbatim>\<open>not x\<close> test.\<close>

fun truthy :: "pyval \<Rightarrow> bool" where
  "truthy PNone = False"
| "truthy (PBool b) = b"
| "truthy (PInt i) = (i \<noteq> 0)"
| "truthy (PStr s) = (s \<noteq> [])"
| "truthy (PList xs) = (xs \<noteq> [])"
| "truthy (PDict kvs) = (kvs \<noteq> [])"
| "truthy (PFloat lit) = (\<not> float_zero lit)"
| "truthy (PWide bs) = (bs \<noteq> [])"

text \<open>Decimal numerals, as \<^verbatim>\<open>str\<close> writes an \<^verbatim>\<open>int\<close>.\<close>

fun str_nat :: "nat \<Rightarrow> string" where
  "str_nat n = (if n < 10 then [''0123456789'' ! n] else str_nat (n div 10) @ [''0123456789'' ! (n mod 10)])"

definition str_int :: "int \<Rightarrow> string" where
  "str_int i = (if i < 0 then CHR ''-'' # str_nat (nat (- i)) else str_nat (nat i))"

text \<open>\<^verbatim>\<open>sep.join(xs)\<close>.\<close>

fun join_str :: "string \<Rightarrow> string list \<Rightarrow> string" where
  "join_str sep [] = []"
| "join_str sep [x] = x"
| "join_str sep (x # y # ys) = x @ sep @ join_str sep (y # ys)"

text \<open>
  \<^verbatim>\<open>repr\<close> of a text: single quotes unless the text has a single quote and no double
  quote; the quote and the backslash are escaped, tab, newline and return are written
  \<^verbatim>\<open>\t\<close>, \<^verbatim>\<open>\n\<close>, \<^verbatim>\<open>\r\<close>, and a character that is not printable is written
  \<^verbatim>\<open>\xNN\<close>.
\<close>

definition is_printable :: "char \<Rightarrow> bool" where
  "is_printable c = (let n = code c in (32 \<le> n \<and> n < 127) \<or> (161 \<le> n \<and> n \<noteq> 173))"

definition hex_lower :: "nat \<Rightarrow> char" where
  "hex_lower n = ''0123456789abcdef'' ! (n mod 16)"

definition repr_char :: "char \<Rightarrow> char \<Rightarrow> string" where
  "repr_char q c =
     (if c = q \<or> c = CHR 0x5C then [CHR 0x5C, c]
      else if c = CHR 0x09 then [CHR 0x5C, CHR ''t'']
      else if c = CHR 0x0A then [CHR 0x5C, CHR ''n'']
      else if c = CHR 0x0D then [CHR 0x5C, CHR ''r'']
      else if is_printable c then [c]
      else [CHR 0x5C, CHR ''x'', hex_lower (code c div 16), hex_lower (code c mod 16)])"

definition repr_str :: "string \<Rightarrow> string" where
  "repr_str s =
     (let q = (if CHR 0x27 \<in> set s \<and> CHR 0x22 \<notin> set s then CHR 0x22 else CHR 0x27)
      in q # concat (map (repr_char q) s) @ [q])"

text \<open>
  \<^verbatim>\<open>repr(v)\<close> and \<^verbatim>\<open>str(v)\<close>, which is what an f-string writes for \<^verbatim>\<open>{v}\<close>. Two
  results are not texts of the model and are written by a stand-in: for a float, whose
  \<^verbatim>\<open>repr\<close> is the shortest numeral that reads back as the same float, the numeral it was
  read from; for a text beyond code point 255, its UTF-8 bytes. No result below depends
  on a stand-in.
\<close>

fun py_repr :: "pyval \<Rightarrow> string" where
  "py_repr PNone = ''None''"
| "py_repr (PBool b) = (if b then ''True'' else ''False'')"
| "py_repr (PInt i) = str_int i"
| "py_repr (PStr s) = repr_str s"
| "py_repr (PList xs) = ''['' @ join_str '', '' (map py_repr xs) @ '']''"
| "py_repr (PDict kvs) =
     ''{'' @ join_str '', '' (map (\<lambda>kv. repr_str (fst kv) @ '': '' @ py_repr (snd kv)) kvs) @ ''}''"
| "py_repr (PFloat lit) = lit"
| "py_repr (PWide bs) = repr_str bs"

fun py_str :: "pyval \<Rightarrow> string" where
  "py_str (PStr s) = s"
| "py_str (PWide bs) = bs"
| "py_str v = py_repr v"

text \<open>The name \<^verbatim>\<open>type(v).__name__\<close>, which the text of an \<^verbatim>\<open>AttributeError\<close> carries.\<close>

fun type_name :: "pyval \<Rightarrow> string" where
  "type_name PNone = ''NoneType''"
| "type_name (PBool b) = ''bool''"
| "type_name (PInt i) = ''int''"
| "type_name (PStr s) = ''str''"
| "type_name (PList xs) = ''list''"
| "type_name (PDict kvs) = ''dict''"
| "type_name (PFloat lit) = ''float''"
| "type_name (PWide bs) = ''str''"

text \<open>The bytes that stand for a text, and nothing for a value that is not a text.\<close>

fun str_bytes :: "pyval \<Rightarrow> string option" where
  "str_bytes (PStr s) = Some s"
| "str_bytes (PWide bs) = Some bs"
| "str_bytes v = None"

text \<open>\<^verbatim>\<open>d.get(k)\<close> on a dictionary: the value, or \<^verbatim>\<open>None\<close>.\<close>

definition dict_get :: "(string \<times> pyval) list \<Rightarrow> string \<Rightarrow> pyval" where
  "dict_get d k = (case map_of d k of None \<Rightarrow> PNone | Some v \<Rightarrow> v)"

section \<open>Exceptions\<close>

text \<open>
  An exception is its class and the text that \<^verbatim>\<open>str(e)\<close> gives. The classes are those
  the extractor names or can meet. Where the library chooses the text of an exception
  that the model raises itself, the text is the library's for \<^verbatim>\<open>AttributeError\<close> and
  for the \<^verbatim>\<open>TypeError\<close> of \<^verbatim>\<open>quote_plus\<close>, and the name of the class otherwise.
\<close>

datatype exn_class = ExtractorError | ClientConnectionError | ServerDisconnectedError
  | ClientPayloadError | TimeoutError | OSError | ConnectionResetError | ClientResponseError
  | ValueError | TypeError | AttributeError | JSONDecodeError | UnicodeDecodeError
  | BinasciiError | KeyError | OtherException | UnicodeEncodeError

datatype exn = Exn (cls: exn_class) (str: string)

definition attribute_error :: "pyval \<Rightarrow> string \<Rightarrow> exn" where
  "attribute_error v a =
     Exn AttributeError ([CHR 0x27] @ type_name v @ [CHR 0x27] @ '' object has no attribute ''
        @ [CHR 0x27] @ a @ [CHR 0x27])"

section \<open>UTF-8\<close>

text \<open>\<^verbatim>\<open>str.encode('utf-8')\<close> on a text of the model: one byte below 128, two bytes from there.\<close>

definition utf8_encode_char :: "char \<Rightarrow> string" where
  "utf8_encode_char c =
     (if code c < 128 then [c]
      else [char_of (192 + code c div 64), char_of (128 + code c mod 64)])"

definition utf8_encode :: "string \<Rightarrow> string" where
  "utf8_encode s = concat (map utf8_encode_char s)"

text \<open>The UTF-8 bytes of any code point, in one to four bytes.\<close>

definition utf8_of_point :: "nat \<Rightarrow> string" where
  "utf8_of_point p =
     (if p < 128 then [char_of p]
      else if p < 2048 then [char_of (192 + p div 64), char_of (128 + p mod 64)]
      else if p < 65536 then
        [char_of (224 + p div 4096), char_of (128 + p div 64 mod 64), char_of (128 + p mod 64)]
      else [char_of (240 + p div 262144), char_of (128 + p div 4096 mod 64),
            char_of (128 + p div 64 mod 64), char_of (128 + p mod 64)])"

text \<open>
  The code points that a byte string encodes, or nothing when it is not UTF-8: a first
  byte from 194 to 244 with its one, two or three continuation bytes, no encoding longer
  than needed, nothing above \<^verbatim>\<open>U+10FFFF\<close>. \<^verbatim>\<open>bytes.decode('utf-8')\<close> is the strict
  reading, which also refuses the surrogates \<^verbatim>\<open>U+D800\<close> to \<^verbatim>\<open>U+DFFF\<close>; the other
  reading admits them, for the bytes of a \<open>PWide\<close>.
\<close>

definition is_cont :: "char \<Rightarrow> bool" where
  "is_cont c = (128 \<le> code c \<and> code c < 192)"

fun utf8_points :: "bool \<Rightarrow> string \<Rightarrow> nat list option" where
  "utf8_points strict [] = Some []"
| "utf8_points strict (b # r) =
     (if code b < 128 then map_option ((#) (code b)) (utf8_points strict r)
      else if 194 \<le> code b \<and> code b < 224 then
        (case r of
           c1 # r1 \<Rightarrow>
             if is_cont c1
             then map_option ((#) ((code b - 192) * 64 + (code c1 - 128))) (utf8_points strict r1)
             else None
         | _ \<Rightarrow> None)
      else if 224 \<le> code b \<and> code b < 240 then
        (case r of
           c1 # c2 # r2 \<Rightarrow>
             (let p = (code b - 224) * 4096 + (code c1 - 128) * 64 + (code c2 - 128)
              in if is_cont c1 \<and> is_cont c2 \<and> 2048 \<le> p \<and> (strict \<longrightarrow> \<not> (55296 \<le> p \<and> p < 57344))
                 then map_option ((#) p) (utf8_points strict r2)
                 else None)
         | _ \<Rightarrow> None)
      else if 240 \<le> code b \<and> code b < 245 then
        (case r of
           c1 # c2 # c3 # r3 \<Rightarrow>
             (let p = (code b - 240) * 262144 + (code c1 - 128) * 4096 + (code c2 - 128) * 64 + (code c3 - 128)
              in if is_cont c1 \<and> is_cont c2 \<and> is_cont c3 \<and> 65536 \<le> p \<and> p < 1114112
                 then map_option ((#) p) (utf8_points strict r3)
                 else None)
         | _ \<Rightarrow> None)
      else None)"

text \<open>The code points of the bytes of a \<open>PWide\<close> or of a key.\<close>

definition points_of :: "string \<Rightarrow> nat list" where
  "points_of bs = (case utf8_points False bs of Some ps \<Rightarrow> ps | None \<Rightarrow> map code bs)"

text \<open>
  \<^verbatim>\<open>str.isspace\<close> on any code point: the white space below 256 and \<^verbatim>\<open>U+1680\<close>,
  \<^verbatim>\<open>U+2000\<close> to \<^verbatim>\<open>U+200A\<close>, \<^verbatim>\<open>U+2028\<close>, \<^verbatim>\<open>U+2029\<close>, \<^verbatim>\<open>U+202F\<close>, \<^verbatim>\<open>U+205F\<close> and
  \<^verbatim>\<open>U+3000\<close>.
\<close>

definition is_space_point :: "nat \<Rightarrow> bool" where
  "is_space_point n =
     ((9 \<le> n \<and> n \<le> 13) \<or> (28 \<le> n \<and> n \<le> 32) \<or> n = 133 \<or> n = 160 \<or> n = 5760
      \<or> (8192 \<le> n \<and> n \<le> 8202) \<or> n = 8232 \<or> n = 8233 \<or> n = 8239 \<or> n = 8287 \<or> n = 12288)"

section \<open>Percent encoding: \<^verbatim>\<open>urllib.parse.quote_plus\<close>\<close>

text \<open>
  \<^verbatim>\<open>quote_plus(s)\<close> with its default arguments encodes \<^verbatim>\<open>s\<close> as UTF-8, keeps the
  bytes of the letters, the digits and \<^verbatim>\<open>_.-~\<close>, writes a space as \<^verbatim>\<open>+\<close> and every
  other byte as \<^verbatim>\<open>%XX\<close> with upper-case hexadecimal digits.
\<close>

definition always_safe :: "string" where
  "always_safe = ''ABCDEFGHIJKLMNOPQRSTUVWXYZabcdefghijklmnopqrstuvwxyz0123456789_.-~''"

definition hex_upper :: "nat \<Rightarrow> char" where
  "hex_upper n = ''0123456789ABCDEF'' ! (n mod 16)"

definition quote_byte :: "string \<Rightarrow> char \<Rightarrow> string" where
  "quote_byte safe b =
     (if b \<in> set always_safe \<or> b \<in> set safe then [b]
      else [CHR ''%'', hex_upper (code b div 16), hex_upper (code b mod 16)])"

definition quote :: "string \<Rightarrow> string \<Rightarrow> string" where
  "quote s safe = concat (map (quote_byte safe) (utf8_encode s))"

definition quote_plus :: "string \<Rightarrow> string" where
  "quote_plus s =
     (if CHR '' '' \<notin> set s then quote s []
      else map (\<lambda>c. if c = CHR '' '' then CHR ''+'' else c) (quote s '' ''))"

text \<open>
  The same on a value. A text beyond code point 255 is encoded to the bytes that carry
  it, unless it holds a surrogate, which \<^verbatim>\<open>encode\<close> refuses; a value that is not a text
  reaches \<^verbatim>\<open>quote_from_bytes\<close>, which raises \<^verbatim>\<open>TypeError\<close>.
\<close>

definition quote_bytes :: "string \<Rightarrow> string \<Rightarrow> string" where
  "quote_bytes bs safe = concat (map (quote_byte safe) bs)"

fun quote_plus_value :: "pyval \<Rightarrow> exn + string" where
  "quote_plus_value (PStr s) = Inr (quote_plus s)"
| "quote_plus_value (PWide bs) =
     (if utf8_points True bs = None then Inl (Exn UnicodeEncodeError ''UnicodeEncodeError'')
      else if CHR '' '' \<notin> set bs then Inr (quote_bytes bs [])
      else Inr (map (\<lambda>c. if c = CHR '' '' then CHR ''+'' else c) (quote_bytes bs '' '')))"
| "quote_plus_value v = Inl (Exn TypeError ''quote_from_bytes() expected bytes'')"

section \<open>The auth URL and the manifest URL of \<^verbatim>\<open>try_endpoint\<close>\<close>

text \<open>
  Lines 426 to 429: a script name that is \<^verbatim>\<open>a.php\<close> once blanks around it and
  slashes before it are removed is replaced by \<^verbatim>\<open>/auth.php\<close>. A value that is not a
  text has no \<^verbatim>\<open>strip\<close>.
\<close>

definition normalize_auth_php :: "pyval \<Rightarrow> exn + pyval" where
  "normalize_auth_php auth_php =
     (if truthy auth_php then
        (case auth_php of
           PStr s \<Rightarrow>
             (let normalized_auth_php = lstrip_chars ''/'' (strip s)
              in if normalized_auth_php = ''a.php'' then Inr (PStr ''/auth.php'') else Inr auth_php)
         | PWide bs \<Rightarrow>
             (let normalized_auth_php =
                    dropWhile (\<lambda>n. n = 47)
                      (rev (dropWhile is_space_point (rev (dropWhile is_space_point (points_of bs)))))
              in if normalized_auth_php = map code ''a.php'' then Inr (PStr ''/auth.php'') else Inr auth_php)
         | _ \<Rightarrow> Inl (attribute_error auth_php ''strip''))
      else Inr auth_php)"

text \<open>Lines 431 to 436: the three branches that join host and script.\<close>

definition join_auth :: "string \<Rightarrow> string \<Rightarrow> string" where
  "join_auth auth_host auth_php =
     (if endswith auth_host ''/'' \<and> startswith auth_php ''/'' then butlast auth_host @ auth_php
      else if \<not> endswith auth_host ''/'' \<and> \<not> startswith auth_php ''/'' then auth_host @ ''/'' @ auth_php
      else auth_host @ auth_php)"

text \<open>
  Lines 424 to 438: the auth URL with its four query parameters, and the script name as
  line 429 may have replaced it. \<^verbatim>\<open>quote_plus\<close> raises \<^verbatim>\<open>TypeError\<close> on a value that
  is not a text; \<^verbatim>\<open>endswith\<close> and \<^verbatim>\<open>startswith\<close> exist on texts only. When the host
  or the script is a text beyond code point 255, so is the URL, and its bytes stand for
  it.
\<close>

definition auth_url :: "string \<Rightarrow> pyval \<Rightarrow> pyval \<Rightarrow> pyval \<Rightarrow> pyval \<Rightarrow> pyval \<Rightarrow> exn + string \<times> pyval" where
  "auth_url channel_key auth_ts auth_rnd auth_sig auth_host auth_php =
     (case quote_plus_value auth_sig of
        Inl e \<Rightarrow> Inl e
      | Inr auth_sig_quoted \<Rightarrow>
          (case normalize_auth_php auth_php of
             Inl e \<Rightarrow> Inl e
           | Inr auth_php' \<Rightarrow>
               (case str_bytes auth_host of
                  None \<Rightarrow> Inl (attribute_error auth_host ''endswith'')
                | Some h \<Rightarrow>
                    (case str_bytes auth_php' of
                       None \<Rightarrow> Inl (attribute_error auth_php' ''startswith'')
                     | Some p \<Rightarrow>
                         Inr (join_auth h p @ ''?channel_id='' @ channel_key @ ''&ts='' @ py_str auth_ts
                                @ ''&rnd='' @ py_str auth_rnd @ ''&sig='' @ auth_sig_quoted, auth_php')))))"

text \<open>Lines 462 to 465: the manifest URL from the server key and the channel key.\<close>

definition clean_m3u8_url :: "pyval \<Rightarrow> string \<Rightarrow> string" where
  "clean_m3u8_url server_key channel_key =
     (if server_key = PStr ''top1/cdn'' then ''https://top1.newkso.ru/top1/cdn/'' @ channel_key @ ''/mono.m3u8''
      else ''https://'' @ py_str server_key @ ''new.newkso.ru/'' @ py_str server_key @ ''/'' @ channel_key
             @ ''/mono.m3u8'')"

section \<open>The world of the extractor\<close>

text \<open>
  What the extractor does to its surroundings is recorded as a trace of events, oldest
  first: a session made or closed, one \<^verbatim>\<open>session.get\<close> or \<^verbatim>\<open>session.head\<close>, one
  \<^verbatim>\<open>asyncio.sleep\<close>, one write of the cache file (or its failure), and the start of one
  endpoint (the log line of line 546).
\<close>

type_synonym headers = "(string \<times> string) list"

datatype event = EvNewSession | EvCloseSession | EvGet string headers | EvSleep nat
  | EvHead pyval pyval | EvSave string | EvSaveFailed | EvTry string

text \<open>
  The surroundings answer as functions of the trace so far, so that the same request may
  be answered differently at different times. \<open>http_get\<close> stands for lines 129 to 131
  without the status check: it gives the exception raised by \<^verbatim>\<open>session.get\<close> or by
  \<^verbatim>\<open>response.text()\<close>, or else the status and the body. \<open>http_head\<close> stands for the
  probe of line 521. \<open>can_write\<close> tells whether \<^verbatim>\<open>open(cache_file, 'w')\<close> succeeds.
  \<open>netloc\<close> and \<open>scheme\<close> are the two fields read from \<^verbatim>\<open>urlparse\<close>.
\<close>

record env =
  http_get :: "event list \<Rightarrow> string \<Rightarrow> headers \<Rightarrow> exn + nat \<times> string"
  http_head :: "event list \<Rightarrow> pyval \<Rightarrow> pyval \<Rightarrow> exn + nat"
  can_write :: "event list \<Rightarrow> bool"
  netloc :: "string \<Rightarrow> string"
  scheme :: "string \<Rightarrow> string"

text \<open>The fields of the \<^verbatim>\<open>DLHDExtractor\<close> object that change, the cache file and the trace.\<close>

record state =
  session_open :: bool
  cached_base_url :: "string option"
  iframe_context :: "string option"
  stream_data_cache :: "(string \<times> pyval) list"
  cache_file :: "string option"
  trace :: "event list"

definition emit :: "event \<Rightarrow> state \<Rightarrow> state" where
  "emit e st = st\<lparr>trace := trace st @ [e]\<rparr>"

text \<open>\<^verbatim>\<open>d[k] = v\<close>, \<^verbatim>\<open>del d[k]\<close> and \<^verbatim>\<open>d.update(e)\<close> on dictionaries.\<close>

fun dict_set :: "('k \<times> 'v) list \<Rightarrow> 'k \<Rightarrow> 'v \<Rightarrow> ('k \<times> 'v) list" where
  "dict_set [] k v = [(k, v)]"
| "dict_set ((k', v') # d) k v = (if k' = k then (k, v) # d else (k', v') # dict_set d k v)"

definition dict_del :: "('k \<times> 'v) list \<Rightarrow> 'k \<Rightarrow> ('k \<times> 'v) list" where
  "dict_del d k = filter (\<lambda>kv. fst kv \<noteq> k) d"

definition dict_update :: "('k \<times> 'v) list \<Rightarrow> ('k \<times> 'v) list \<Rightarrow> ('k \<times> 'v) list" where
  "dict_update d e = foldl (\<lambda>acc kv. dict_set acc (fst kv) (snd kv)) d e"

text \<open>\<^verbatim>\<open>p in s\<close> on texts.\<close>

fun contains :: "string \<Rightarrow> string \<Rightarrow> bool" where
  "contains [] p = (p = [])"
| "contains (c # s) p = (startswith (c # s) p \<or> contains s p)"

section \<open>Session Manager and Header Policy\<close>

text \<open>Lines 56 to 80: the session is made when there is none or it is closed.\<close>

definition get_session :: "state \<Rightarrow> state" where
  "get_session st = (if session_open st then st else emit EvNewSession (st\<lparr>session_open := True\<rparr>))"

text \<open>Lines 169 to 174 (and \<^verbatim>\<open>close\<close>, lines 568 to 575).\<close>

definition close_session :: "state \<Rightarrow> state" where
  "close_session st = (if session_open st then emit EvCloseSession (st\<lparr>session_open := False\<rparr>) else st)"

definition user_agent :: string where
  "user_agent = ''Mozilla/5.0 (Macintosh; Intel Mac OS X 10_15_7) AppleWebKit/537.36 (KHTML, like Gecko) Chrome/136.0.0.0 Safari/537.36''"

text \<open>Lines 93 to 116.\<close>

definition get_headers_for_url :: "env \<Rightarrow> state \<Rightarrow> string \<Rightarrow> headers \<Rightarrow> headers" where
  "get_headers_for_url env st url base_headers =
     (if contains (netloc env url) ''newkso.ru'' then
        (case iframe_context st of
           Some ctx \<Rightarrow>
             (if ctx \<noteq> [] then
                (let iframe_origin = ''https://'' @ netloc env ctx
                 in dict_update base_headers
                      [(''User-Agent'', user_agent), (''Referer'', ctx), (''Origin'', iframe_origin)])
              else
                (let newkso_origin = scheme env url @ ''://'' @ netloc env url
                 in dict_update base_headers
                      [(''User-Agent'', user_agent), (''Referer'', newkso_origin), (''Origin'', newkso_origin)]))
         | None \<Rightarrow>
             (let newkso_origin = scheme env url @ ''://'' @ netloc env url
              in dict_update base_headers
                   [(''User-Agent'', user_agent), (''Referer'', newkso_origin), (''Origin'', newkso_origin)]))
      else base_headers)"

section \<open>Request Executor\<close>

text \<open>The classes of the first \<^verbatim>\<open>except\<close> clause, lines 157 to 164.\<close>

definition is_transport :: "exn_class \<Rightarrow> bool" where
  "is_transport c = (c \<in> {ClientConnectionError, ServerDisconnectedError, ClientPayloadError,
                           TimeoutError, OSError, ConnectionResetError})"

record response =
  status :: nat
  text_content :: string

text \<open>
  One attempt, lines 129 to 131 and 155: \<^verbatim>\<open>raise_for_status\<close> turns a status of 400 or
  more into a \<^verbatim>\<open>ClientResponseError\<close>, whose text the model shortens to the status.
\<close>

definition attempt_outcome :: "env \<Rightarrow> event list \<Rightarrow> string \<Rightarrow> headers \<Rightarrow> exn + response" where
  "attempt_outcome env t url final_headers =
     (case http_get env t url final_headers of
        Inl e \<Rightarrow> Inl e
      | Inr (sc, content) \<Rightarrow>
          if 400 \<le> sc then Inl (Exn ClientResponseError (str_nat sc))
          else Inr \<lparr>status = sc, text_content = content\<rparr>)"

text \<open>
  Lines 122 to 187, the loop over \<^verbatim>\<open>range(retries)\<close>. A loop that ends without an
  attempt returns \<^verbatim>\<open>None\<close>.
\<close>

function robust_loop ::
  "env \<Rightarrow> string \<Rightarrow> headers \<Rightarrow> nat \<Rightarrow> nat \<Rightarrow> nat \<Rightarrow> state \<Rightarrow> (exn + response option) \<times> state" where
  "robust_loop env url final_headers retries initial_delay attempt st =
     (if attempt < retries then
        (let st1 = get_session st;
             st2 = emit (EvGet url final_headers) st1
         in case attempt_outcome env (trace st1) url final_headers of
              Inr resp \<Rightarrow> (Inr (Some resp), st2)
            | Inl e \<Rightarrow>
                if is_transport (cls e) then
                  (let st3 = (if attempt = retries - 1 then close_session st2 else st2)
                   in if attempt < retries - 1 then
                        robust_loop env url final_headers retries initial_delay (Suc attempt)
                          (emit (EvSleep (initial_delay * 2 ^ attempt)) st3)
                      else (Inl (Exn ExtractorError (''Tutti i '' @ str_nat retries @ '' tentativi falliti per ''
                                   @ url @ '': '' @ str e)), st3))
                else if attempt = retries - 1 then
                  (Inl (Exn ExtractorError (''Errore finale per '' @ url @ '': '' @ str e)), st2)
                else robust_loop env url final_headers retries initial_delay (Suc attempt)
                       (emit (EvSleep initial_delay) st2))
      else (Inr None, st))"
  by pat_completeness auto
termination
  by (relation "measure (\<lambda>(env, url, final_headers, retries, initial_delay, attempt, st). retries - attempt)") auto

declare robust_loop.simps [simp del]

text \<open>Lines 118 to 120: the headers are derived once, before the loop.\<close>

definition make_robust_request ::
  "env \<Rightarrow> state \<Rightarrow> string \<Rightarrow> headers \<Rightarrow> nat \<Rightarrow> nat \<Rightarrow> (exn + response option) \<times> state" where
  "make_robust_request env st url hdrs retries initial_delay =
     robust_loop env url (get_headers_for_url env st url hdrs) retries initial_delay 0 st"

text \<open>The number of \<^verbatim>\<open>session.get\<close> attempts and the delays slept, read off a trace.\<close>

fun is_get :: "event \<Rightarrow> bool" where
  "is_get (EvGet u h) = True"
| "is_get e = False"

definition attempts_made :: "event list \<Rightarrow> nat" where
  "attempts_made t = length (filter is_get t)"

fun sleeps :: "event list \<Rightarrow> nat list" where
  "sleeps [] = []"
| "sleeps (EvSleep d # t) = d # sleeps t"
| "sleeps (e # t) = sleeps t"

text \<open>Two surroundings and a first state, for the examples.\<close>

definition env_boom :: env where
  "env_boom = \<lparr>http_get = (\<lambda>t u h. Inl (Exn ValueError ''boom'')), http_head = (\<lambda>t u h. Inr 200),
     can_write = (\<lambda>t. True), netloc = (\<lambda>u. ''host''), scheme = (\<lambda>u. ''https'')\<rparr>"

definition env_slow :: env where
  "env_slow = \<lparr>http_get = (\<lambda>t u h. Inl (Exn TimeoutError ''slow'')), http_head = (\<lambda>t u h. Inr 200),
     can_write = (\<lambda>t. True), netloc = (\<lambda>u. ''host''), scheme = (\<lambda>u. ''https'')\<rparr>"

definition st_init :: state where
  "st_init = \<lparr>session_open = False, cached_base_url = None, iframe_context = None,
     stream_data_cache = [], cache_file = None, trace = []\<rparr>"

section \<open>Regular expressions\<close>

text \<open>
  The patterns of the extractor use literals, character classes, greedy repetition of a
  class (\<^verbatim>\<open>*\<close> and \<^verbatim>\<open>+\<close>), an optional part, alternatives, one capturing group and
  \<^verbatim>\<open>$\<close>. Matching is the backtracking search of \<^verbatim>\<open>re\<close>: a pattern applied at a
  position gives the list of its possible matches in the order in which backtracking
  tries them, each as the text that remains and the text captured by group 1; the match
  that \<^verbatim>\<open>re\<close> reports is the first of the list.
\<close>

datatype cls = Digit | Space | OneOf string | NoneOf string

fun in_cls :: "cls \<Rightarrow> char \<Rightarrow> bool" where
  "in_cls Digit c = (c \<in> set ''0123456789'')"
| "in_cls Space c = is_space c"
| "in_cls (OneOf cs) c = (c \<in> set cs)"
| "in_cls (NoneOf cs) c = (c \<notin> set cs)"

datatype rx = Lit string | One cls | Star cls | Plus cls | Opt rx | Alt rx rx | Seq rx rx
  | Grp rx | Eos

text \<open>Under \<^verbatim>\<open>re.IGNORECASE\<close> a literal is compared after lowering the letters A to Z.\<close>

definition lower_char :: "char \<Rightarrow> char" where
  "lower_char c = (if 65 \<le> code c \<and> code c \<le> 90 then char_of (code c + 32) else c)"

definition lit_eq :: "bool \<Rightarrow> string \<Rightarrow> string \<Rightarrow> bool" where
  "lit_eq ic s l = (if ic then map lower_char s = map lower_char l else s = l)"

text \<open>The texts that remain after a greedy \<^verbatim>\<open>*\<close> on a class, the longest repetition first.\<close>

fun star_rests :: "(char \<Rightarrow> bool) \<Rightarrow> string \<Rightarrow> string list" where
  "star_rests P [] = [[]]"
| "star_rests P (c # s) = (if P c then star_rests P s @ [c # s] else [c # s])"

fun ms :: "bool \<Rightarrow> rx \<Rightarrow> string \<times> string option \<Rightarrow> (string \<times> string option) list" where
  "ms ic (Lit l) st =
     (if length l \<le> length (fst st) \<and> lit_eq ic (take (length l) (fst st)) l
      then [(drop (length l) (fst st), snd st)] else [])"
| "ms ic (One k) st =
     (case fst st of [] \<Rightarrow> [] | c # s \<Rightarrow> if in_cls k c then [(s, snd st)] else [])"
| "ms ic (Star k) st = map (\<lambda>s. (s, snd st)) (star_rests (in_cls k) (fst st))"
| "ms ic (Plus k) st =
     (case fst st of [] \<Rightarrow> []
      | c # s \<Rightarrow> if in_cls k c then map (\<lambda>s. (s, snd st)) (star_rests (in_cls k) s) else [])"
| "ms ic (Opt r) st = ms ic r st @ [st]"
| "ms ic (Alt a b) st = ms ic a st @ ms ic b st"
| "ms ic (Seq a b) st = concat (map (ms ic b) (ms ic a st))"
| "ms ic (Grp r) st =
     map (\<lambda>st'. (fst st', Some (take (length (fst st) - length (fst st')) (fst st)))) (ms ic r st)"
| "ms ic Eos st = (if fst st = [] \<or> fst st = [CHR 0x0A] then [st] else [])"

text \<open>A sequence and a choice of several patterns.\<close>

fun seqs :: "rx list \<Rightarrow> rx" where
  "seqs [] = Lit []"
| "seqs [r] = r"
| "seqs (r # rs) = Seq r (seqs rs)"

fun alts :: "rx list \<Rightarrow> rx" where
  "alts [] = One (OneOf [])"
| "alts [r] = r"
| "alts (r # rs) = Alt r (alts rs)"

text \<open>
  \<^verbatim>\<open>re.search\<close>: the first match at the leftmost position that has one. The result is
  the text after the match and \<^verbatim>\<open>match.group(1)\<close>.
\<close>

definition match_at :: "bool \<Rightarrow> rx \<Rightarrow> string \<Rightarrow> (string \<times> string option) option" where
  "match_at ic r s = (case ms ic r (s, None) of [] \<Rightarrow> None | m # _ \<Rightarrow> Some m)"

fun re_search :: "bool \<Rightarrow> rx \<Rightarrow> string \<Rightarrow> (string \<times> string option) option" where
  "re_search ic r [] = match_at ic r []"
| "re_search ic r (c # s) =
     (case match_at ic r (c # s) of Some m \<Rightarrow> Some m | None \<Rightarrow> re_search ic r s)"

text \<open>
  \<^verbatim>\<open>re.findall\<close> for a pattern with one group: group 1 of the matches from left to
  right, the search resuming where the last match ended. The counter is the number of
  characters still covered by the last match.
\<close>

fun findall_from :: "rx \<Rightarrow> nat \<Rightarrow> string \<Rightarrow> string list" where
  "findall_from r k [] =
     (if k = 0 then (case match_at False r [] of None \<Rightarrow> [] | Some m \<Rightarrow> [case snd m of None \<Rightarrow> [] | Some g \<Rightarrow> g])
      else [])"
| "findall_from r k (c # s) =
     (if 0 < k then findall_from r (k - 1) s
      else (case match_at False r (c # s) of
              None \<Rightarrow> findall_from r 0 s
            | Some m \<Rightarrow> (case snd m of None \<Rightarrow> [] | Some g \<Rightarrow> g)
                         # findall_from r (length s - length (fst m)) s))"

definition re_findall :: "rx \<Rightarrow> string \<Rightarrow> string list" where
  "re_findall r s = findall_from r 0 s"

section \<open>Channel ID extraction\<close>

text \<open>
  Lines 203 to 215. The five patterns, in the order of the source:
  \<^verbatim>\<open>/premium(\d+)/mono\.m3u8$\<close>,
  \<^verbatim>\<open>/(?:watch|stream|cast|player)/stream-(\d+)\.php\<close>,
  \<^verbatim>\<open>watch\.php\?id=(\d+)\<close>,
  \<^verbatim>\<open>(?:%2F|/)stream-(\d+)\.php\<close> and
  \<^verbatim>\<open>stream-(\d+)\.php\<close>, all searched with \<^verbatim>\<open>re.IGNORECASE\<close>.
\<close>

definition channel_id_patterns :: "rx list" where
  "channel_id_patterns =
     [seqs [Lit ''/premium'', Grp (Plus Digit), Lit ''/mono.m3u8'', Eos],
      seqs [Lit ''/'', alts [Lit ''watch'', Lit ''stream'', Lit ''cast'', Lit ''player''], Lit ''/stream-'',
            Grp (Plus Digit), Lit ''.php''],
      seqs [Lit ''watch.php?id='', Grp (Plus Digit)],
      seqs [alts [Lit ''%2F'', Lit ''/''], Lit ''stream-'', Grp (Plus Digit), Lit ''.php''],
      seqs [Lit ''stream-'', Grp (Plus Digit), Lit ''.php'']]"

text \<open>The loop of lines 211 to 215: the first pattern that matches gives its group 1.\<close>

fun first_group :: "rx list \<Rightarrow> string \<Rightarrow> string option" where
  "first_group [] s = None"
| "first_group (p # ps) s =
     (case re_search True p s of Some m \<Rightarrow> snd m | None \<Rightarrow> first_group ps s)"

definition extract_channel_id :: "string \<Rightarrow> string option" where
  "extract_channel_id url_str = first_group channel_id_patterns url_str"

section \<open>Base64\<close>

text \<open>
  \<^verbatim>\<open>base64.b64encode\<close> on bytes: three bytes give four characters of the alphabet, and a
  last group of one or two bytes is padded with \<^verbatim>\<open>=\<close>.
\<close>

definition b64_char :: "nat \<Rightarrow> char" where
  "b64_char i = ''ABCDEFGHIJKLMNOPQRSTUVWXYZabcdefghijklmnopqrstuvwxyz0123456789+/'' ! i"

fun b64encode :: "string \<Rightarrow> string" where
  "b64encode [] = []"
| "b64encode [a] = [b64_char (code a div 4), b64_char (code a mod 4 * 16), CHR ''='', CHR ''='']"
| "b64encode [a, b] =
     [b64_char (code a div 4), b64_char (code a mod 4 * 16 + code b div 16),
      b64_char (code b mod 16 * 4), CHR ''='']"
| "b64encode (a # b # c # r) =
     [b64_char (code a div 4), b64_char (code a mod 4 * 16 + code b div 16),
      b64_char (code b mod 16 * 4 + code c div 64), b64_char (code c mod 64)] @ b64encode r"

text \<open>The value of a character of the alphabet, \<^verbatim>\<open>table_a2b_base64\<close>.\<close>

definition b64_value :: "char \<Rightarrow> nat option" where
  "b64_value c =
     (let n = code c in
      if 65 \<le> n \<and> n \<le> 90 then Some (n - 65)
      else if 97 \<le> n \<and> n \<le> 122 then Some (n - 71)
      else if 48 \<le> n \<and> n \<le> 57 then Some (n + 4)
      else if c = CHR ''+'' then Some 62
      else if c = CHR ''/'' then Some 63
      else None)"

text \<open>
  \<^verbatim>\<open>binascii.a2b_base64\<close> as \<^verbatim>\<open>base64.b64decode\<close> calls it (not strict): characters
  outside the alphabet are skipped; \<^verbatim>\<open>=\<close> is skipped too unless it completes a group of
  four that has two or three characters, where decoding stops; at the end of the input a
  group left open is an error. The arguments are the position in the group, the bits
  left over, the number of \<^verbatim>\<open>=\<close> seen in the group and the bytes decoded so far.
\<close>

fun a2b_base64 :: "string \<Rightarrow> nat \<Rightarrow> nat \<Rightarrow> nat \<Rightarrow> string \<Rightarrow> string option" where
  "a2b_base64 [] quad_pos leftchar pads out = (if quad_pos \<noteq> 0 then None else Some out)"
| "a2b_base64 (c # s) quad_pos leftchar pads out =
     (if c = CHR ''='' then
        (if 2 \<le> quad_pos \<and> 4 \<le> quad_pos + (pads + 1) then Some out
         else a2b_base64 s quad_pos leftchar (if 2 \<le> quad_pos then pads + 1 else pads) out)
      else
        (case b64_value c of
           None \<Rightarrow> a2b_base64 s quad_pos leftchar pads out
         | Some v \<Rightarrow>
             if quad_pos = 0 then a2b_base64 s 1 v 0 out
             else if quad_pos = 1 then a2b_base64 s 2 (v mod 16) 0 (out @ [char_of (leftchar * 4 + v div 16)])
             else if quad_pos = 2 then a2b_base64 s 3 (v mod 4) 0 (out @ [char_of (leftchar * 16 + v div 4)])
             else a2b_base64 s 0 0 0 (out @ [char_of (leftchar * 64 + v)])))"

text \<open>
  \<^verbatim>\<open>base64.b64decode(s)\<close> on a text: a character that is not ASCII is a \<^verbatim>\<open>ValueError\<close>,
  a group left open is a \<^verbatim>\<open>binascii.Error\<close>.
\<close>

definition b64decode :: "string \<Rightarrow> exn + string" where
  "b64decode s =
     (if \<exists>c \<in> set s. 128 \<le> code c then Inl (Exn ValueError ''ValueError'')
      else (case a2b_base64 s 0 0 0 [] of
              None \<Rightarrow> Inl (Exn BinasciiError ''BinasciiError'')
            | Some bs \<Rightarrow> Inr bs))"

section \<open>UTF-8 decoding\<close>

text \<open>
  The text that UTF-8 bytes encode, as a value: a \<open>PStr\<close> when every code point is
  below 256, a \<open>PWide\<close> otherwise. \<^verbatim>\<open>bytes.decode('utf-8')\<close> gives it when the bytes
  are UTF-8 in the strict reading, and raises \<^verbatim>\<open>UnicodeDecodeError\<close> when they are not.
\<close>

definition text_value :: "string \<Rightarrow> pyval" where
  "text_value bs =
     (case utf8_points False bs of
        Some ps \<Rightarrow> if list_all (\<lambda>p. p < 256) ps then PStr (map char_of ps) else PWide bs
      | None \<Rightarrow> PWide bs)"

definition utf8_decode :: "string \<Rightarrow> pyval option" where
  "utf8_decode bs = (if utf8_points True bs = None then None else Some (text_value bs))"

text \<open>\<^verbatim>\<open>base64.b64decode(s).decode('utf-8')\<close>, with the exception it may raise.\<close>

definition b64decode_utf8 :: "string \<Rightarrow> exn + pyval" where
  "b64decode_utf8 s =
     (case b64decode s of
        Inl e \<Rightarrow> Inl e
      | Inr bs \<Rightarrow> (case utf8_decode bs of
                     None \<Rightarrow> Inl (Exn UnicodeDecodeError ''UnicodeDecodeError'')
                   | Some t \<Rightarrow> Inr t))"

section \<open>JSON\<close>

text \<open>
  \<^verbatim>\<open>json.dumps\<close> with its default arguments: the separators are \<^verbatim>\<open>", "\<close> and
  \<^verbatim>\<open>": "\<close>, and a text is written in ASCII, every character outside the range from
  the space to the tilde escaped, a code point of \<^verbatim>\<open>0x10000\<close> or more as a pair of
  surrogates. A float is written by its \<^verbatim>\<open>repr\<close>, for which the numeral it was read
  from stands.
\<close>

definition json_escape_char :: "char \<Rightarrow> string" where
  "json_escape_char c =
     (if c = CHR 0x22 then [CHR 0x5C, CHR 0x22]
      else if c = CHR 0x5C then [CHR 0x5C, CHR 0x5C]
      else if c = CHR 0x0A then [CHR 0x5C, CHR ''n'']
      else if c = CHR 0x0D then [CHR 0x5C, CHR ''r'']
      else if c = CHR 0x09 then [CHR 0x5C, CHR ''t'']
      else if c = CHR 0x0C then [CHR 0x5C, CHR ''f'']
      else if c = CHR 0x08 then [CHR 0x5C, CHR ''b'']
      else if 32 \<le> code c \<and> code c \<le> 126 then [c]
      else [CHR 0x5C, CHR ''u'', CHR ''0'', CHR ''0'', hex_lower (code c div 16), hex_lower (code c mod 16)])"

definition json_string :: "string \<Rightarrow> string" where
  "json_string s = [CHR 0x22] @ concat (map json_escape_char s) @ [CHR 0x22]"

definition hex4 :: "nat \<Rightarrow> string" where
  "hex4 n = [hex_lower (n div 4096), hex_lower (n div 256), hex_lower (n div 16), hex_lower n]"

definition json_escape_point :: "nat \<Rightarrow> string" where
  "json_escape_point p =
     (if p < 256 then json_escape_char (char_of p)
      else if p < 65536 then [CHR 0x5C, CHR ''u''] @ hex4 p
      else [CHR 0x5C, CHR ''u''] @ hex4 (55296 + (p - 65536) div 1024)
           @ [CHR 0x5C, CHR ''u''] @ hex4 (56320 + (p - 65536) mod 1024))"

text \<open>A text given by its UTF-8 bytes, as a key is and a \<open>PWide\<close>.\<close>

definition json_text :: "string \<Rightarrow> string" where
  "json_text bs = [CHR 0x22] @ concat (map json_escape_point (points_of bs)) @ [CHR 0x22]"

fun dumps :: "pyval \<Rightarrow> string" where
  "dumps PNone = ''null''"
| "dumps (PBool b) = (if b then ''true'' else ''false'')"
| "dumps (PInt i) = str_int i"
| "dumps (PStr s) = json_string s"
| "dumps (PList xs) = ''['' @ join_str '', '' (map dumps xs) @ '']''"
| "dumps (PDict kvs) =
     ''{'' @ join_str '', '' (map (\<lambda>kv. json_text (fst kv) @ '': '' @ dumps (snd kv)) kvs) @ ''}''"
| "dumps (PFloat lit) = lit"
| "dumps (PWide bs) = json_text bs"

text \<open>
  \<^verbatim>\<open>json.loads\<close>, after the scanner of the \<^verbatim>\<open>json\<close> module. The scanner here reads
  the UTF-8 bytes of the text, so that a text of any code points can be read: the
  grammar is ASCII, and the bytes of a character beyond it occur inside strings only,
  where they are copied. White space is the space, the tab, the newline and the return.
\<close>

definition json_ws :: "char \<Rightarrow> bool" where
  "json_ws c = (c \<in> set [CHR '' '', CHR 0x09, CHR 0x0A, CHR 0x0D])"

definition skip_ws :: "string \<Rightarrow> string" where
  "skip_ws s = dropWhile json_ws s"

definition hex_value :: "char \<Rightarrow> nat option" where
  "hex_value c =
     (let n = code c in
      if 48 \<le> n \<and> n \<le> 57 then Some (n - 48)
      else if 97 \<le> n \<and> n \<le> 102 then Some (n - 87)
      else if 65 \<le> n \<and> n \<le> 70 then Some (n - 55)
      else None)"

text \<open>The four hexadecimal digits of a \<^verbatim>\<open>\uXXXX\<close> escape.\<close>

definition decode_uXXXX :: "string \<Rightarrow> nat option" where
  "decode_uXXXX s =
     (case map hex_value (take 4 s) of
        [Some a, Some b, Some c, Some d] \<Rightarrow> Some (((a * 16 + b) * 16 + c) * 16 + d)
      | _ \<Rightarrow> None)"

definition simple_escape :: "char \<Rightarrow> char option" where
  "simple_escape e =
     (if e = CHR 0x22 then Some (CHR 0x22)
      else if e = CHR 0x5C then Some (CHR 0x5C)
      else if e = CHR ''/'' then Some (CHR ''/'')
      else if e = CHR ''b'' then Some (CHR 0x08)
      else if e = CHR ''f'' then Some (CHR 0x0C)
      else if e = CHR ''n'' then Some (CHR 0x0A)
      else if e = CHR ''r'' then Some (CHR 0x0D)
      else if e = CHR ''t'' then Some (CHR 0x09)
      else None)"

text \<open>
  \<^verbatim>\<open>scanstring\<close>, from the character after the opening quote: the UTF-8 bytes of the
  text and what follows the closing quote. A control character is an error. A
  \<^verbatim>\<open>\uXXXX\<close> escape gives the bytes of its code point; an escape for a high surrogate
  that an escape for a low surrogate follows gives with it one code point above
  \<^verbatim>\<open>0xFFFF\<close>.
\<close>

definition low_surrogate_after :: "nat \<Rightarrow> string \<Rightarrow> nat option" where
  "low_surrogate_after n s =
     (case s of
        a # b # s' \<Rightarrow>
          if 55296 \<le> n \<and> n < 56320 \<and> a = CHR 0x5C \<and> b = CHR ''u'' then
            (case decode_uXXXX s' of
               Some n2 \<Rightarrow> if 56320 \<le> n2 \<and> n2 < 57344 then Some n2 else None
             | None \<Rightarrow> None)
          else None
      | _ \<Rightarrow> None)"

fun scanstring :: "string \<Rightarrow> (string \<times> string) option" where
  "scanstring [] = None"
| "scanstring (c # s) =
     (if c = CHR 0x22 then Some ([], s)
      else if c = CHR 0x5C then
        (case s of
           [] \<Rightarrow> None
         | e # s' \<Rightarrow>
             if e = CHR ''u'' then
               (case decode_uXXXX s' of
                  None \<Rightarrow> None
                | Some n \<Rightarrow>
                    (case low_surrogate_after n (drop 4 s') of
                       Some n2 \<Rightarrow>
                         map_option
                           (\<lambda>p. (utf8_of_point (65536 + (n - 55296) * 1024 + (n2 - 56320)) @ fst p, snd p))
                           (scanstring (drop 10 s'))
                     | None \<Rightarrow> map_option (\<lambda>p. (utf8_of_point n @ fst p, snd p)) (scanstring (drop 4 s'))))
             else
               (case simple_escape e of
                  None \<Rightarrow> None
                | Some ch \<Rightarrow> map_option (\<lambda>p. (ch # fst p, snd p)) (scanstring s')))
      else if code c < 32 then None
      else map_option (\<lambda>p. (c # fst p, snd p)) (scanstring s))"

text \<open>
  A number: an optional minus sign, then \<^verbatim>\<open>0\<close> or a numeral that does not begin with
  \<^verbatim>\<open>0\<close>, then a fraction, a point with digits, if there is one, then an exponent if
  there is one. With a fraction or an exponent the number is a float, otherwise an
  integer.
\<close>

definition exponent_part :: "string \<Rightarrow> string" where
  "exponent_part s =
     (case s of
        [] \<Rightarrow> []
      | e # r \<Rightarrow>
          if e = CHR ''e'' \<or> e = CHR ''E'' then
            (let sg = (case r of [] \<Rightarrow> [] | c # _ \<Rightarrow> if c = CHR ''+'' \<or> c = CHR ''-'' then [c] else []);
                 ds = takeWhile is_digit (drop (length sg) r)
             in if ds = [] then [] else e # sg @ ds)
          else [])"

definition fraction_part :: "string \<Rightarrow> string" where
  "fraction_part s =
     (case s of
        c # d # r \<Rightarrow> if c = CHR ''.'' \<and> is_digit d then c # takeWhile is_digit (d # r) else []
      | _ \<Rightarrow> [])"

definition integer_part :: "string \<Rightarrow> string" where
  "integer_part s =
     (case s of
        [] \<Rightarrow> []
      | c # r \<Rightarrow> if c = CHR ''0'' then ''0'' else takeWhile is_digit s)"

definition scan_number :: "string \<Rightarrow> (pyval \<times> string) option" where
  "scan_number s =
     (let sg = (if take 1 s = ''-'' then ''-'' else []);
          ip = integer_part (drop (length sg) s);
          fp = fraction_part (drop (length sg + length ip) s);
          ep = exponent_part (drop (length sg + length ip + length fp) s);
          r = drop (length sg + length ip + length fp + length ep) s
      in if ip = [] then None
         else if fp = [] \<and> ep = [] then
           Some (PInt (if sg = [] then int_of_digits ip else - int_of_digits ip), r)
         else Some (PFloat (sg @ ip @ fp @ ep), r))"

text \<open>
  The values. The first argument bounds the depth of the recursion; \<open>loads\<close> gives it
  the length of the text, which no parse exceeds. The pairs of an object are put into the
  dictionary one after the other, so a repeated key keeps its first place and its last
  value. \<^verbatim>\<open>NaN\<close>, \<^verbatim>\<open>Infinity\<close> and \<^verbatim>\<open>-Infinity\<close> are read as floats.
\<close>

fun scan_once :: "nat \<Rightarrow> string \<Rightarrow> (pyval \<times> string) option"
  and parse_object :: "nat \<Rightarrow> string \<Rightarrow> ((string \<times> pyval) list \<times> string) option"
  and parse_array :: "nat \<Rightarrow> string \<Rightarrow> (pyval list \<times> string) option" where
  "scan_once 0 s = None"
| "scan_once (Suc n) s =
     (case s of
        [] \<Rightarrow> None
      | c # r \<Rightarrow>
          if c = CHR 0x22 then map_option (\<lambda>p. (text_value (fst p), snd p)) (scanstring r)
          else if c = CHR ''{'' then
            (case skip_ws r of
               [] \<Rightarrow> None
             | d # r' \<Rightarrow> if d = CHR ''}'' then Some (PDict [], r')
                         else map_option (\<lambda>p. (PDict (dict_update [] (fst p)), snd p)) (parse_object n (d # r')))
          else if c = CHR ''['' then
            (case skip_ws r of
               [] \<Rightarrow> None
             | d # r' \<Rightarrow> if d = CHR '']'' then Some (PList [], r')
                         else map_option (\<lambda>p. (PList (fst p), snd p)) (parse_array n (d # r')))
          else if startswith s ''null'' then Some (PNone, drop 4 s)
          else if startswith s ''true'' then Some (PBool True, drop 4 s)
          else if startswith s ''false'' then Some (PBool False, drop 5 s)
          else if startswith s ''NaN'' then Some (PFloat ''NaN'', drop 3 s)
          else if startswith s ''Infinity'' then Some (PFloat ''Infinity'', drop 8 s)
          else if startswith s ''-Infinity'' then Some (PFloat ''-Infinity'', drop 9 s)
          else scan_number s)"
| "parse_object 0 s = None"
| "parse_object (Suc n) s =
     (case s of
        [] \<Rightarrow> None
      | c # r \<Rightarrow>
          if c \<noteq> CHR 0x22 then None
          else
            (case scanstring r of
               None \<Rightarrow> None
             | Some (key, r1) \<Rightarrow>
                 (case skip_ws r1 of
                    [] \<Rightarrow> None
                  | d # r2 \<Rightarrow>
                      if d \<noteq> CHR '':'' then None
                      else
                        (case scan_once n (skip_ws r2) of
                           None \<Rightarrow> None
                         | Some (v, r3) \<Rightarrow>
                             (case skip_ws r3 of
                                [] \<Rightarrow> None
                              | e # r4 \<Rightarrow>
                                  if e = CHR ''}'' then Some ([(key, v)], r4)
                                  else if e = CHR '','' then
                                    map_option (\<lambda>p. ((key, v) # fst p, snd p)) (parse_object n (skip_ws r4))
                                  else None)))))"
| "parse_array 0 s = None"
| "parse_array (Suc n) s =
     (case scan_once n s of
        None \<Rightarrow> None
      | Some (v, r1) \<Rightarrow>
          (case skip_ws r1 of
             [] \<Rightarrow> None
           | e # r2 \<Rightarrow>
               if e = CHR '']'' then Some ([v], r2)
               else if e = CHR '','' then map_option (\<lambda>p. (v # fst p, snd p)) (parse_array n (skip_ws r2))
               else None))"

text \<open>
  \<^verbatim>\<open>json.loads\<close>: one value between white space, and nothing else; on the UTF-8
  bytes of a text, and on a text of the model.
\<close>

definition loads_utf8 :: "string \<Rightarrow> pyval option" where
  "loads_utf8 bs =
     (case scan_once (Suc (length bs)) (skip_ws bs) of
        None \<Rightarrow> None
      | Some (v, r) \<Rightarrow> if skip_ws r = [] then Some v else None)"

definition loads :: "string \<Rightarrow> pyval option" where
  "loads s = loads_utf8 (utf8_encode s)"

section \<open>Parameter Decoder\<close>

text \<open>
  Lines 289 to 303, \<^verbatim>\<open>extract_var_old_format(js, name)\<close>. The three patterns are
  \<^verbatim>\<open>var (?:__)?{name}\s*=\s*atob\("([^"]+)"\)\<close>, the same with single quotes, and
  \<^verbatim>\<open>(?:var|let|const)\s+(?:__)?{name}\s*=\s*atob\("([^"]+)"\)\<close>; the names given are
  single letters, taken as literals. A pattern whose capture does not decode is passed
  over.
\<close>

definition old_format_patterns :: "string \<Rightarrow> rx list" where
  "old_format_patterns name =
     [seqs [Lit ''var '', Opt (Lit ''__''), Lit name, Star Space, Lit ''='', Star Space,
            Lit (''atob('' @ [CHR 0x22]), Grp (Plus (NoneOf [CHR 0x22])), Lit [CHR 0x22, CHR '')'']],
      seqs [Lit ''var '', Opt (Lit ''__''), Lit name, Star Space, Lit ''='', Star Space,
            Lit (''atob('' @ [CHR 0x27]), Grp (Plus (NoneOf [CHR 0x27])), Lit [CHR 0x27, CHR '')'']],
      seqs [alts [Lit ''var'', Lit ''let'', Lit ''const''], Plus Space, Opt (Lit ''__''), Lit name,
            Star Space, Lit ''='', Star Space,
            Lit (''atob('' @ [CHR 0x22]), Grp (Plus (NoneOf [CHR 0x22])), Lit [CHR 0x22, CHR '')'']]]"

fun old_format_loop :: "rx list \<Rightarrow> string \<Rightarrow> pyval" where
  "old_format_loop [] js = PNone"
| "old_format_loop (p # ps) js =
     (case re_search False p js of
        None \<Rightarrow> old_format_loop ps js
      | Some m \<Rightarrow>
          (case snd m of
             None \<Rightarrow> old_format_loop ps js
           | Some g \<Rightarrow> (case b64decode_utf8 g of Inr t \<Rightarrow> t | Inl e \<Rightarrow> old_format_loop ps js)))"

definition extract_var_old_format :: "string \<Rightarrow> string \<Rightarrow> pyval" where
  "extract_var_old_format js name = old_format_loop (old_format_patterns name) js"

text \<open>
  Lines 317 to 323 and 347 to 353: each value of the bundle is decoded from Base64, and
  kept as it is when that raises (a value that is not a text raises \<^verbatim>\<open>TypeError\<close>, a
  text that is not ASCII \<^verbatim>\<open>ValueError\<close>).
\<close>

definition decode_value :: "pyval \<Rightarrow> pyval" where
  "decode_value v =
     (case v of
        PStr s \<Rightarrow> (case b64decode_utf8 s of Inr t \<Rightarrow> t | Inl e \<Rightarrow> v)
      | _ \<Rightarrow> v)"

definition decode_items :: "(string \<times> pyval) list \<Rightarrow> (string \<times> pyval) list" where
  "decode_items kvs = foldl (\<lambda>decoded kv. dict_set decoded (fst kv) (decode_value (snd kv))) [] kvs"

text \<open>
  The common tail of both bundle formats: Base64, UTF-8, JSON, then the items. Any
  exception gives \<^verbatim>\<open>None\<close>; a JSON value that is not an object has no \<^verbatim>\<open>items\<close>.
\<close>

definition decode_bundle :: "string \<Rightarrow> (string \<times> pyval) list option" where
  "decode_bundle b64 =
     (case b64decode b64 of
        Inl e \<Rightarrow> None
      | Inr bs \<Rightarrow>
          if utf8_points True bs = None then None
          else
            (case loads_utf8 bs of
               Some (PDict kvs) \<Rightarrow> Some (decode_items kvs)
             | _ \<Rightarrow> None))"

text \<open>
  Lines 305 to 325, \<^verbatim>\<open>extract_xjz_format\<close>, with the pattern
  \<^verbatim>\<open>(?:const|var|let)\s+XJZ\s*=\s*["\']([^"\']+)["\']\<close>.
\<close>

definition xjz_pattern :: rx where
  "xjz_pattern =
     seqs [alts [Lit ''const'', Lit ''var'', Lit ''let''], Plus Space, Lit ''XJZ'', Star Space, Lit ''='',
           Star Space, One (OneOf [CHR 0x22, CHR 0x27]), Grp (Plus (NoneOf [CHR 0x22, CHR 0x27])),
           One (OneOf [CHR 0x22, CHR 0x27])]"

definition extract_xjz_format :: "string \<Rightarrow> (string \<times> pyval) list option" where
  "extract_xjz_format js =
     (case re_search False xjz_pattern js of
        None \<Rightarrow> None
      | Some m \<Rightarrow> (case snd m of None \<Rightarrow> None | Some xjz_b64 \<Rightarrow> decode_bundle xjz_b64))"

text \<open>
  Lines 327 to 355, \<^verbatim>\<open>extract_bundle_format\<close>, with the patterns
  \<^verbatim>\<open>const\s+BUNDLE\s*=\s*["\']([^"\']+)["\']\<close>, then \<^verbatim>\<open>var\<close>, then \<^verbatim>\<open>let\<close>.
\<close>

definition assign_pattern :: "rx \<Rightarrow> string \<Rightarrow> rx" where
  "assign_pattern kw name =
     seqs [kw, Plus Space, Lit name, Star Space, Lit ''='', Star Space,
           One (OneOf [CHR 0x22, CHR 0x27]), Grp (Plus (NoneOf [CHR 0x22, CHR 0x27])),
           One (OneOf [CHR 0x22, CHR 0x27])]"

definition bundle_patterns :: "rx list" where
  "bundle_patterns =
     [assign_pattern (Lit ''const'') ''BUNDLE'', assign_pattern (Lit ''var'') ''BUNDLE'',
      assign_pattern (Lit ''let'') ''BUNDLE'']"

text \<open>The loop of lines 336 to 340 and of lines 368 to 372.\<close>

fun first_group_cs :: "rx list \<Rightarrow> string \<Rightarrow> string option" where
  "first_group_cs [] s = None"
| "first_group_cs (p # ps) s =
     (case re_search False p s of Some m \<Rightarrow> snd m | None \<Rightarrow> first_group_cs ps s)"

definition extract_bundle_format :: "string \<Rightarrow> (string \<times> pyval) list option" where
  "extract_bundle_format js =
     (case first_group_cs bundle_patterns js of
        None \<Rightarrow> None
      | Some bundle_data \<Rightarrow> if bundle_data = [] then None else decode_bundle bundle_data)"

text \<open>
  Lines 359 to 372, the channel key, with the patterns
  \<^verbatim>\<open>const\s+CHANNEL_KEY\s*=\s*["\']([^"\']+)["\']\<close>, the same with \<^verbatim>\<open>var\<close> and with
  \<^verbatim>\<open>let\<close>, \<^verbatim>\<open>channelKey\s*=\s*["\']([^"\']+)["\']\<close>, and the latter after
  \<^verbatim>\<open>var\s+\<close> and after \<^verbatim>\<open>(?:let|const)\s+\<close>.
\<close>

definition channel_key_patterns :: "rx list" where
  "channel_key_patterns =
     [assign_pattern (Lit ''const'') ''CHANNEL_KEY'', assign_pattern (Lit ''var'') ''CHANNEL_KEY'',
      assign_pattern (Lit ''let'') ''CHANNEL_KEY'',
      seqs [Lit ''channelKey'', Star Space, Lit ''='', Star Space,
            One (OneOf [CHR 0x22, CHR 0x27]), Grp (Plus (NoneOf [CHR 0x22, CHR 0x27])),
            One (OneOf [CHR 0x22, CHR 0x27])],
      assign_pattern (Lit ''var'') ''channelKey'',
      assign_pattern (alts [Lit ''let'', Lit ''const'']) ''channelKey'']"

definition extract_channel_key :: "string \<Rightarrow> string option" where
  "extract_channel_key iframe_content = first_group_cs channel_key_patterns iframe_content"

text \<open>
  Lines 374 to 403. The five auth fields come from the XJZ bundle when it is not empty,
  else from the BUNDLE bundle when it is not empty, else from the five legacy variables.
  Next to the fields the model gives the strategies that were run, in order.
\<close>

datatype strategy = XJZ | BUNDLE | Legacy

record auth_fields =
  auth_host :: pyval
  auth_php :: pyval
  auth_ts :: pyval
  auth_rnd :: pyval
  auth_sig :: pyval

definition bundle_fields :: "(string \<times> pyval) list \<Rightarrow> auth_fields" where
  "bundle_fields d =
     \<lparr>auth_host = dict_get d ''b_host'', auth_php = dict_get d ''b_script'', auth_ts = dict_get d ''b_ts'',
      auth_rnd = dict_get d ''b_rnd'', auth_sig = dict_get d ''b_sig''\<rparr>"

definition legacy_fields :: "string \<Rightarrow> auth_fields" where
  "legacy_fields iframe_content =
     \<lparr>auth_host = extract_var_old_format iframe_content ''a'',
      auth_php = extract_var_old_format iframe_content ''b'',
      auth_ts = extract_var_old_format iframe_content ''c'',
      auth_rnd = extract_var_old_format iframe_content ''d'',
      auth_sig = extract_var_old_format iframe_content ''e''\<rparr>"

definition nonempty_dict :: "(string \<times> pyval) list option \<Rightarrow> bool" where
  "nonempty_dict r = (case r of None \<Rightarrow> False | Some d \<Rightarrow> d \<noteq> [])"

definition decode_auth_fields :: "string \<Rightarrow> auth_fields \<times> strategy list" where
  "decode_auth_fields iframe_content =
     (let xjz_data = extract_xjz_format iframe_content in
      if nonempty_dict xjz_data then (bundle_fields (the xjz_data), [XJZ])
      else
        (let bundle_data = extract_bundle_format iframe_content in
         if nonempty_dict bundle_data then (bundle_fields (the bundle_data), [XJZ, BUNDLE])
         else (legacy_fields iframe_content, [XJZ, BUNDLE, Legacy])))"

text \<open>Lines 405 to 421: the names of the fields that are missing, in the order tested.\<close>

definition missing_params :: "string option \<Rightarrow> auth_fields \<Rightarrow> string list" where
  "missing_params channel_key f =
     (if channel_key = None \<or> channel_key = Some [] then [''channel_key''] else [])
     @ (if \<not> truthy (auth_ts f) then [''auth_ts''] else [])
     @ (if \<not> truthy (auth_rnd f) then [''auth_rnd''] else [])
     @ (if \<not> truthy (auth_sig f) then [''auth_sig''] else [])
     @ (if \<not> truthy (auth_host f) then [''auth_host''] else [])
     @ (if \<not> truthy (auth_php f) then [''auth_php''] else [])"

text \<open>
  Lines 357 to 421 together: the channel key and the five fields, or the
  \<^verbatim>\<open>ExtractorError\<close> of line 421, which names the missing fields.
\<close>

definition decode_parameters :: "string \<Rightarrow> exn + string \<times> auth_fields" where
  "decode_parameters iframe_content =
     (let channel_key = extract_channel_key iframe_content;
          f = fst (decode_auth_fields iframe_content);
          missing = missing_params channel_key f
      in if missing \<noteq> [] then Inl (Exn ExtractorError (''Parametri mancanti: '' @ join_str '', '' missing))
         else Inr (the channel_key, f))"

section \<open>Steps that change the state and may raise\<close>

text \<open>
  A step of the pipeline takes the state and gives an exception or a value, and the new
  state. Steps are put in sequence by \<open>bind_io\<close>, where an exception ends the sequence,
  and \<open>catch_io\<close> is \<^verbatim>\<open>try ... except Exception\<close>.
\<close>

type_synonym 'a io = "state \<Rightarrow> (exn + 'a) \<times> state"

definition ret_io :: "'a \<Rightarrow> 'a io" where
  "ret_io x st = (Inr x, st)"

definition raise_io :: "exn \<Rightarrow> 'a io" where
  "raise_io e st = (Inl e, st)"

definition bind_io :: "'a io \<Rightarrow> ('a \<Rightarrow> 'b io) \<Rightarrow> 'b io" where
  "bind_io f g st = (case f st of (Inl e, st') \<Rightarrow> (Inl e, st') | (Inr x, st') \<Rightarrow> g x st')"

definition catch_io :: "'a io \<Rightarrow> (exn \<Rightarrow> 'a io) \<Rightarrow> 'a io" where
  "catch_io f h st = (case f st of (Inl e, st') \<Rightarrow> h e st' | (Inr x, st') \<Rightarrow> (Inr x, st'))"

definition lift_io :: "exn + 'a \<Rightarrow> 'a io" where
  "lift_io r st = (r, st)"

text \<open>
  A request with the default \<^verbatim>\<open>retries=3\<close> and \<^verbatim>\<open>initial_delay=2\<close>, and the body of
  its response: \<^verbatim>\<open>await resp.text()\<close> on \<^verbatim>\<open>None\<close> is an \<^verbatim>\<open>AttributeError\<close>.
\<close>

definition request :: "env \<Rightarrow> string \<Rightarrow> headers \<Rightarrow> response option io" where
  "request env url hdrs st = make_robust_request env st url hdrs 3 2"

definition text_of :: "response option \<Rightarrow> string io" where
  "text_of resp =
     (case resp of
        None \<Rightarrow> raise_io (attribute_error PNone ''text'')
      | Some r \<Rightarrow> ret_io (text_content r))"

definition request_text :: "env \<Rightarrow> string \<Rightarrow> headers \<Rightarrow> string io" where
  "request_text env url hdrs = bind_io (request env url hdrs) text_of"

section \<open>Player discovery and iframe normalization\<close>

text \<open>\<^verbatim>\<open>s.replace(old, new)\<close> for a text \<^verbatim>\<open>old\<close> that is not empty.\<close>

fun replace_from :: "string \<Rightarrow> string \<Rightarrow> nat \<Rightarrow> string \<Rightarrow> string" where
  "replace_from old new k [] = []"
| "replace_from old new k (c # s) =
     (if 0 < k then replace_from old new (k - 1) s
      else if startswith (c # s) old then new @ replace_from old new (length old - 1) s
      else c # replace_from old new 0 s)"

definition replace :: "string \<Rightarrow> string \<Rightarrow> string \<Rightarrow> string" where
  "replace s old new = replace_from old new 0 s"

text \<open>
  The patterns of lines 232, 246 and 257:
  \<^verbatim>\<open><button[^>]*data-url="([^"]+)"[^>]*>Player\s*\d+</button>\<close>,
  \<^verbatim>\<open>iframe src="([^"]*)\<close> and
  \<^verbatim>\<open><a[^>]*href="([^"]+)"[^>]*>\s*<button[^>]*>\s*Player\s*2\s*</button>\<close>.
\<close>

definition button_pattern :: rx where
  "button_pattern =
     seqs [Lit ''<button'', Star (NoneOf ''>''), Lit (''data-url='' @ [CHR 0x22]),
           Grp (Plus (NoneOf [CHR 0x22])), Lit [CHR 0x22], Star (NoneOf ''>''), Lit ''>Player'',
           Star Space, Plus Digit, Lit ''</button>'']"

definition iframe_pattern :: rx where
  "iframe_pattern = seqs [Lit (''iframe src='' @ [CHR 0x22]), Grp (Star (NoneOf [CHR 0x22]))]"

definition anchor_pattern :: rx where
  "anchor_pattern =
     seqs [Lit ''<a'', Star (NoneOf ''>''), Lit (''href='' @ [CHR 0x22]), Grp (Plus (NoneOf [CHR 0x22])),
           Lit [CHR 0x22], Star (NoneOf ''>''), Lit ''>'', Star Space, Lit ''<button'', Star (NoneOf ''>''),
           Lit ''>'', Star Space, Lit ''Player'', Star Space, Lit ''2'', Star Space, Lit ''</button>'']"

text \<open>Lines 240 and 241, 263 and 264: a link that does not begin with \<^verbatim>\<open>http\<close> is put after the base URL.\<close>

definition absolute_link :: "string \<Rightarrow> string \<Rightarrow> string" where
  "absolute_link baseurl link =
     (if \<not> startswith link ''http'' then baseurl @ lstrip_chars ''/'' link else link)"

text \<open>Lines 242 and 243, 266 and 267: the headers are changed in place.\<close>

definition link_headers :: "env \<Rightarrow> headers \<Rightarrow> string \<Rightarrow> headers" where
  "link_headers env hdrs link =
     dict_set (dict_set hdrs ''Referer'' link) ''Origin'' (scheme env link @ ''://'' @ netloc env link)"

text \<open>
  What the discovery keeps: the headers as changed so far, the last error of a player
  link, and the iframe source with the player link that gave it.
\<close>

record discovery =
  d_headers :: headers
  d_last_error :: "exn option"
  d_found :: "(string \<times> string) option"

text \<open>
  Lines 238 to 253, the loop over the player links: the first link whose page has an
  iframe source wins; an exception is kept as the last error and the loop goes on.
\<close>

fun player_loop :: "env \<Rightarrow> string \<Rightarrow> string list \<Rightarrow> discovery \<Rightarrow> discovery io" where
  "player_loop env baseurl [] d = ret_io d"
| "player_loop env baseurl (link0 # links) d =
     (let link = absolute_link baseurl link0;
          hdrs = link_headers env (d_headers d) link
      in (\<lambda>st.
            case request_text env link hdrs st of
              (Inl e, st') \<Rightarrow>
                player_loop env baseurl links (d\<lparr>d_headers := hdrs, d_last_error := Some e\<rparr>) st'
            | (Inr content2, st') \<Rightarrow>
                (case re_findall iframe_pattern content2 of
                   [] \<Rightarrow> player_loop env baseurl links (d\<lparr>d_headers := hdrs\<rparr>) st'
                 | iframe_url # _ \<Rightarrow> (Inr (d\<lparr>d_headers := hdrs, d_found := Some (iframe_url, link)\<rparr>), st'))))"

text \<open>Lines 255 to 276, the fallback to the anchor around the button \<^verbatim>\<open>Player 2\<close>.\<close>

definition anchor_fallback :: "env \<Rightarrow> string \<Rightarrow> string \<Rightarrow> discovery \<Rightarrow> discovery io" where
  "anchor_fallback env baseurl content1 d =
     (case re_findall anchor_pattern content1 of
        [] \<Rightarrow>
          (case d_last_error d of
             Some e \<Rightarrow> raise_io (Exn ExtractorError (''No player links found. Last error: '' @ str e))
           | None \<Rightarrow> raise_io (Exn ExtractorError ''No player links found''))
      | link0 # _ \<Rightarrow>
          (let link = replace (absolute_link baseurl link0) ''//cast'' ''/cast'';
               hdrs = link_headers env (d_headers d) link
           in bind_io (request_text env link hdrs) (\<lambda>content2.
                case re_findall iframe_pattern content2 of
                  [] \<Rightarrow>
                    (case d_last_error d of
                       Some e \<Rightarrow> raise_io (Exn ExtractorError (''No iframe found in any player page: '' @ str e))
                     | None \<Rightarrow> raise_io (Exn ExtractorError ''No iframe found in player page''))
                | iframe_url # _ \<Rightarrow> ret_io (d\<lparr>d_headers := hdrs, d_found := Some (iframe_url, link)\<rparr>))))"

text \<open>Lines 278 to 280.\<close>

definition normalize_iframe :: "env \<Rightarrow> string \<Rightarrow> string \<Rightarrow> string" where
  "normalize_iframe env player_url iframe_url =
     (if \<not> startswith iframe_url ''http''
      then scheme env player_url @ ''://'' @ netloc env player_url @ ''/'' @ lstrip_chars ''/'' iframe_url
      else iframe_url)"

text \<open>
  Lines 218 to 286: the stream page, the discovery, the iframe context, and the iframe
  page. The result is the headers, the iframe URL and the iframe page.
\<close>

definition discover_iframe :: "env \<Rightarrow> string \<Rightarrow> string \<Rightarrow> string \<Rightarrow> (headers \<times> string \<times> string) io" where
  "discover_iframe env baseurl endpoint channel_id =
     (let stream_url = baseurl @ endpoint @ ''stream-'' @ channel_id @ ''.php'';
          daddy_origin = scheme env baseurl @ ''://'' @ netloc env baseurl;
          daddylive_headers = [(''User-Agent'', user_agent), (''Referer'', baseurl), (''Origin'', daddy_origin)]
      in bind_io (request_text env stream_url daddylive_headers) (\<lambda>content1.
         bind_io (player_loop env baseurl (re_findall button_pattern content1)
                    \<lparr>d_headers = daddylive_headers, d_last_error = None, d_found = None\<rparr>) (\<lambda>d.
         bind_io (case d_found d of None \<Rightarrow> anchor_fallback env baseurl content1 d | Some _ \<Rightarrow> ret_io d) (\<lambda>d'.
           case d_found d' of
             None \<Rightarrow> raise_io (attribute_error PNone ''startswith'')
           | Some (iframe_url0, player_url) \<Rightarrow>
               (let iframe_url = normalize_iframe env player_url iframe_url0
                in bind_io (\<lambda>st. (Inr (), st\<lparr>iframe_context := Some iframe_url\<rparr>)) (\<lambda>_.
                   bind_io (request_text env iframe_url (d_headers d')) (\<lambda>iframe_content.
                     ret_io (d_headers d', iframe_url, iframe_content))))))))"

section \<open>Auth handshake and server resolution\<close>

text \<open>\<^verbatim>\<open>await resp.json()\<close>: \<^verbatim>\<open>json.loads\<close> of the body.\<close>

definition json_of :: "response option \<Rightarrow> pyval io" where
  "json_of resp =
     (case resp of
        None \<Rightarrow> raise_io (attribute_error PNone ''json'')
      | Some r \<Rightarrow>
          (case loads (text_content r) of
             None \<Rightarrow> raise_io (Exn JSONDecodeError ''JSONDecodeError'')
           | Some v \<Rightarrow> ret_io v))"

text \<open>Lines 467 to 497: the headers of the stream and the dictionary that is returned.\<close>

definition stream_result ::
  "env \<Rightarrow> string \<Rightarrow> string \<Rightarrow> string \<Rightarrow> string \<Rightarrow> auth_fields \<Rightarrow> pyval \<Rightarrow> pyval \<Rightarrow> pyval" where
  "stream_result env ua iframe_url clean_url channel_key f auth_php' server_key =
     (let referer_raw = ''https://'' @ netloc env iframe_url;
          stream_headers =
            (if contains clean_url ''newkso.ru''
             then [(''User-Agent'', PStr ua), (''Referer'', PStr iframe_url), (''Origin'', PStr referer_raw)]
             else [(''User-Agent'', PStr ua), (''Referer'', PStr referer_raw), (''Origin'', PStr referer_raw)])
      in PDict [(''destination_url'', PStr clean_url),
                (''request_headers'', PDict stream_headers),
                (''mediaflow_endpoint'', PStr ''hls_manifest_proxy''),
                (''auth_data'',
                   PDict [(''channel_key'', PStr channel_key), (''auth_ts'', auth_ts f),
                          (''auth_rnd'', auth_rnd f), (''auth_sig'', auth_sig f),
                          (''auth_host'', auth_host f), (''auth_php'', auth_php'),
                          (''iframe_url'', PStr iframe_url)])])"

text \<open>Lines 447 to 497, after the auth request: the server lookup and the result.\<close>

definition server_resolution ::
  "env \<Rightarrow> headers \<Rightarrow> string \<Rightarrow> string \<Rightarrow> auth_fields \<Rightarrow> pyval \<Rightarrow> pyval io" where
  "server_resolution env daddylive_headers iframe_url channel_key f auth_php' =
     (let server_lookup_url = ''https://'' @ netloc env iframe_url @ ''/server_lookup.php?channel_id='' @ channel_key
      in bind_io (request env server_lookup_url daddylive_headers) (\<lambda>lookup_resp.
         bind_io (json_of lookup_resp) (\<lambda>server_data.
           case server_data of
             PDict sd \<Rightarrow>
               (let server_key = dict_get sd ''server_key'' in
                if \<not> truthy server_key then raise_io (Exn ExtractorError ''Nessun server_key trovato'')
                else
                  (case map_of daddylive_headers ''User-Agent'' of
                     None \<Rightarrow> raise_io (Exn KeyError ''User-Agent'')
                   | Some ua \<Rightarrow>
                       ret_io (stream_result env ua iframe_url (clean_m3u8_url server_key channel_key)
                                 channel_key f auth_php' server_key)))
           | _ \<Rightarrow> raise_io (attribute_error server_data ''get''))))"

text \<open>Lines 423 to 445, the auth handshake, followed by the server resolution.\<close>

definition auth_handshake :: "env \<Rightarrow> headers \<Rightarrow> string \<Rightarrow> string \<Rightarrow> auth_fields \<Rightarrow> pyval io" where
  "auth_handshake env daddylive_headers iframe_url channel_key f =
     bind_io (lift_io (auth_url channel_key (auth_ts f) (auth_rnd f) (auth_sig f) (auth_host f) (auth_php f)))
       (\<lambda>(url, auth_php').
          (let iframe_origin = ''https://'' @ netloc env iframe_url;
               auth_headers = dict_set (dict_set daddylive_headers ''Referer'' iframe_url) ''Origin'' iframe_origin
           in bind_io (request env url auth_headers) (\<lambda>_.
                server_resolution env daddylive_headers iframe_url channel_key f auth_php')))"

text \<open>
  Lines 357 to 501: the parameters, the handshake and the resolution, inside one
  \<^verbatim>\<open>try\<close> whose handler wraps every exception.
\<close>

definition resolve_stream :: "env \<Rightarrow> headers \<Rightarrow> string \<Rightarrow> string \<Rightarrow> pyval io" where
  "resolve_stream env daddylive_headers iframe_url iframe_content =
     catch_io
       (bind_io (lift_io (decode_parameters iframe_content))
          (\<lambda>(channel_key, f). auth_handshake env daddylive_headers iframe_url channel_key f))
       (\<lambda>param_error. raise_io (Exn ExtractorError (''Fallimento estrazione parametri: '' @ str param_error)))"

text \<open>Lines 217 to 501, \<^verbatim>\<open>try_endpoint\<close>.\<close>

definition try_endpoint :: "env \<Rightarrow> string \<Rightarrow> string \<Rightarrow> string \<Rightarrow> pyval io" where
  "try_endpoint env baseurl endpoint channel_id =
     bind_io (discover_iframe env baseurl endpoint channel_id)
       (\<lambda>(daddylive_headers, iframe_url, iframe_content).
          resolve_stream env daddylive_headers iframe_url iframe_content)"

section \<open>Cache Store\<close>

text \<open>
  Lines 82 to 91, \<^verbatim>\<open>_save_cache\<close>: the dictionary as JSON, encoded as UTF-8 and then
  as Base64, whose characters are ASCII. When the file cannot be opened the error is
  logged and nothing is written.
\<close>

definition encode_cache :: "(string \<times> pyval) list \<Rightarrow> string" where
  "encode_cache cache = b64encode (utf8_encode (dumps (PDict cache)))"

definition save_cache :: "env \<Rightarrow> state \<Rightarrow> state" where
  "save_cache env st =
     (if can_write env (trace st)
      then emit (EvSave (encode_cache (stream_data_cache st)))
             (st\<lparr>cache_file := Some (encode_cache (stream_data_cache st))\<rparr>)
      else emit EvSaveFailed st)"

text \<open>
  Lines 37 to 50, \<^verbatim>\<open>_load_cache\<close>, on the content of the file if there is one. Only
  \<^verbatim>\<open>IOError\<close> and \<^verbatim>\<open>JSONDecodeError\<close> are caught.
\<close>

definition load_cache :: "string option \<Rightarrow> exn + pyval" where
  "load_cache file =
     (case file of
        None \<Rightarrow> Inr (PDict [])
      | Some encoded_data \<Rightarrow>
          if encoded_data = [] then Inr (PDict [])
          else
            (case b64decode encoded_data of
               Inl e \<Rightarrow> Inl e
             | Inr bs \<Rightarrow>
                 if utf8_points True bs = None then Inl (Exn UnicodeDecodeError ''UnicodeDecodeError'')
                 else (case loads_utf8 bs of None \<Rightarrow> Inr (PDict []) | Some v \<Rightarrow> Inr v)))"

section \<open>The resolution pipeline\<close>

text \<open>Lines 191 to 201: the landing page is probed once; the base URL never fails.\<close>

definition get_daddylive_base_url :: "env \<Rightarrow> string io" where
  "get_daddylive_base_url env st =
     (if cached_base_url st \<noteq> None \<and> cached_base_url st \<noteq> Some []
      then (Inr (the (cached_base_url st)), st)
      else
        (case request env ''https://daddylive.sx/'' [] st of
           (Inr _, st') \<Rightarrow> (Inr ''https://daddylive.sx/'', st'\<lparr>cached_base_url := Some ''https://daddylive.sx/''\<rparr>)
         | (Inl e, st') \<Rightarrow> (Inr ''https://daddylive.sx/'', st')))"

text \<open>Lines 533 to 536: the entry is deleted and the cache is saved.\<close>

definition invalidate :: "env \<Rightarrow> string \<Rightarrow> state \<Rightarrow> state" where
  "invalidate env channel_id st =
     save_cache env (st\<lparr>stream_data_cache := dict_del (stream_data_cache st) channel_id\<rparr>)"

text \<open>
  Lines 510 to 536, for a channel that has an entry: the probe, and either the cached
  data or nothing, after the entry is invalidated. An entry that is not a dictionary
  has no \<^verbatim>\<open>get\<close>.
\<close>

definition cache_probe :: "env \<Rightarrow> string \<Rightarrow> pyval \<Rightarrow> pyval option io" where
  "cache_probe env channel_id cached_data st =
     (case cached_data of
        PDict cd \<Rightarrow>
          (let stream_url = dict_get cd ''destination_url'';
               stream_headers = (case map_of cd ''request_headers'' of None \<Rightarrow> PDict [] | Some h \<Rightarrow> h)
           in if truthy stream_url then
                (let st1 = get_session st;
                     st2 = emit (EvHead stream_url stream_headers) st1
                 in case http_head env (trace st1) stream_url stream_headers of
                      Inr sc \<Rightarrow> if sc = 200 then (Inr (Some cached_data), st2)
                                else (Inr None, invalidate env channel_id st2)
                    | Inl e \<Rightarrow> (Inr None, invalidate env channel_id st2))
              else (Inr None, invalidate env channel_id st))
      | _ \<Rightarrow> (Inl (attribute_error cached_data ''get''), st))"

text \<open>Lines 541 to 563: the endpoints in order; the first success is cached and returned.\<close>

definition endpoints :: "string list" where
  "endpoints = [''stream/'', ''cast/'', ''player/'', ''watch/'']"

fun endpoint_loop :: "env \<Rightarrow> string \<Rightarrow> string \<Rightarrow> string list \<Rightarrow> exn option \<Rightarrow> pyval io" where
  "endpoint_loop env baseurl channel_id [] last_exc st =
     (case last_exc of
        Some e \<Rightarrow> (Inl (Exn ExtractorError (''Tutti gli endpoint DLHD hanno fallito. Ultimo errore: '' @ str e)), st)
      | None \<Rightarrow> (Inl (Exn ExtractorError ''Tutti gli endpoint DLHD hanno fallito senza dettagli.''), st))"
| "endpoint_loop env baseurl channel_id (endpoint # rest) last_exc st =
     (case try_endpoint env baseurl endpoint channel_id (emit (EvTry endpoint) st) of
        (Inr result, st') \<Rightarrow>
          (Inr result,
           save_cache env (st'\<lparr>stream_data_cache := dict_set (stream_data_cache st') channel_id result\<rparr>))
      | (Inl exc, st') \<Rightarrow> endpoint_loop env baseurl channel_id rest (Some exc) st')"

text \<open>Lines 189 and 503 to 566, \<^verbatim>\<open>extract\<close> (the name is taken in Isabelle, hence the suffix).\<close>

definition extract_dlhd :: "env \<Rightarrow> string \<Rightarrow> bool \<Rightarrow> pyval io" where
  "extract_dlhd env url force_refresh =
     catch_io
       (case extract_channel_id url of
          None \<Rightarrow> raise_io (Exn ExtractorError (''Impossibile estrarre channel ID da '' @ url))
        | Some channel_id \<Rightarrow>
            if channel_id = [] then raise_io (Exn ExtractorError (''Impossibile estrarre channel ID da '' @ url))
            else
              (\<lambda>st.
                 bind_io
                   (case (if force_refresh then None else map_of (stream_data_cache st) channel_id) of
                      None \<Rightarrow> ret_io None
                    | Some cached_data \<Rightarrow> cache_probe env channel_id cached_data)
                   (\<lambda>hit. case hit of
                            Some cached_data \<Rightarrow> ret_io cached_data
                          | None \<Rightarrow>
                              bind_io (get_daddylive_base_url env)
                                (\<lambda>baseurl. endpoint_loop env baseurl channel_id endpoints None))
                   st))
       (\<lambda>e. raise_io (Exn ExtractorError (''Estrazione DLHD completamente fallita: '' @ str e)))"

section \<open>Observations on traces\<close>

text \<open>
  Events of the network: a session made or closed, one \<^verbatim>\<open>get\<close>, one sleep. A step
  \<open>grows\<close> the state when it leaves the cache and its file alone and adds only such
  events to the trace.
\<close>

fun is_net :: "event \<Rightarrow> bool" where
  "is_net EvNewSession = True"
| "is_net EvCloseSession = True"
| "is_net (EvGet u h) = True"
| "is_net (EvSleep d) = True"
| "is_net e = False"

definition grows :: "state \<Rightarrow> state \<Rightarrow> bool" where
  "grows st st' =
     (stream_data_cache st' = stream_data_cache st \<and> cache_file st' = cache_file st
      \<and> (\<exists>evs. trace st' = trace st @ evs \<and> list_all is_net evs))"

definition net_only :: "'a io \<Rightarrow> bool" where
  "net_only f = (\<forall>st. grows st (snd (f st)))"

text \<open>The endpoints tried and the probes made, read off a trace.\<close>

fun tried :: "event list \<Rightarrow> string list" where
  "tried [] = []"
| "tried (EvTry ep # t) = ep # tried t"
| "tried (e # t) = tried t"

fun probes :: "event list \<Rightarrow> (pyval \<times> pyval) list" where
  "probes [] = []"
| "probes (EvHead u h # t) = (u, h) # probes t"
| "probes (e # t) = probes t"

text \<open>
  The endpoints of a list all fail, one after the other: the last error and the state
  that is left.
\<close>

fun fails_through :: "env \<Rightarrow> string \<Rightarrow> string \<Rightarrow> string list \<Rightarrow> exn option \<Rightarrow> state \<Rightarrow> (exn option \<times> state) option" where
  "fails_through env baseurl channel_id [] last_exc st = Some (last_exc, st)"
| "fails_through env baseurl channel_id (endpoint # rest) last_exc st =
     (case try_endpoint env baseurl endpoint channel_id (emit (EvTry endpoint) st) of
        (Inl exc, st') \<Rightarrow> fails_through env baseurl channel_id rest (Some exc) st'
      | (Inr result, st') \<Rightarrow> None)"

text \<open>
  A site for the examples. The landing page answers; of the four stream pages only the one
  under \<^verbatim>\<open>player/\<close> exists, and it leads through one player page to an iframe page
  with an XJZ bundle and a channel key; the auth script and the server lookup answer; a
  probe of a cached stream gives 404.
\<close>

definition site_page :: string where
  "site_page = ''var XJZ='' @ [CHR 0x22] @ ''eyJiX2hvc3QiOiAiYUhSMGNITTZMeTloTG5SbGMzUXYiLCAiYl9zY3JpcHQiOiAiWVM1d2FIQT0iLCAiYl90cyI6ICJNUT09IiwgImJfcm5kIjogIk1nPT0iLCAiYl9zaWciOiAiY3lzPSJ9'' @ [CHR 0x22] @ '';channelKey='' @ [CHR 0x22] @ ''k'' @ [CHR 0x22]"

definition env_site :: env where
  "env_site =
     \<lparr>http_get = (\<lambda>t u h.
        if u = ''https://daddylive.sx/'' then Inr (200, [])
        else if u = ''https://daddylive.sx/player/stream-5.php''
          then Inr (200, ''<button data-url='' @ [CHR 0x22] @ ''/p'' @ [CHR 0x22] @ ''>Player 1</button>'')
        else if u = ''https://daddylive.sx/p'' then Inr (200, ''<iframe src='' @ [CHR 0x22] @ ''https://i.test/f'' @ [CHR 0x22] @ ''>'')
        else if u = ''https://i.test/f'' then Inr (200, site_page)
        else if startswith u ''https://a.test/auth.php?'' then Inr (200, [])
        else if u = ''https://i.test/server_lookup.php?channel_id=k''
          then Inr (200, ''{'' @ [CHR 0x22] @ ''server_key'' @ [CHR 0x22] @ '': '' @ [CHR 0x22] @ ''abc'' @ [CHR 0x22] @ ''}'')
        else Inr (404, [])),
      http_head = (\<lambda>t u h. Inr 404),
      can_write = (\<lambda>t. True),
      netloc = (\<lambda>u. if startswith u ''https://i.test'' then ''i.test'' else ''daddylive.sx''),
      scheme = (\<lambda>u. ''https'')\<rparr>"

definition site_result :: pyval where
  "site_result =
     PDict [(''destination_url'', PStr ''https://abcnew.newkso.ru/abc/k/mono.m3u8''),
            (''request_headers'',
               PDict [(''User-Agent'', PStr user_agent), (''Referer'', PStr ''https://i.test/f''),
                      (''Origin'', PStr ''https://i.test'')]),
            (''mediaflow_endpoint'', PStr ''hls_manifest_proxy''),
            (''auth_data'',
               PDict [(''channel_key'', PStr ''k''), (''auth_ts'', PStr ''1''), (''auth_rnd'', PStr ''2''),
                      (''auth_sig'', PStr ''s+''), (''auth_host'', PStr ''https://a.test/''),
                      (''auth_php'', PStr ''/auth.php''), (''iframe_url'', PStr ''https://i.test/f'')])]"

text \<open>
  States for the examples: one whose cache holds the result of the site for channel 5,
  one whose entry for channel 5 has an empty \<^verbatim>\<open>destination_url\<close>; and the site with a
  probe that answers 200.
\<close>

definition site_headers :: pyval where
  "site_headers =
     PDict [(''User-Agent'', PStr user_agent), (''Referer'', PStr ''https://i.test/f''),
            (''Origin'', PStr ''https://i.test'')]"

definition st_cached :: state where
  "st_cached = st_init\<lparr>stream_data_cache := [(''5'', site_result)]\<rparr>"

definition st_nourl :: state where
  "st_nourl = st_init\<lparr>stream_data_cache := [(''5'', PDict [(''destination_url'', PStr [])])]\<rparr>"

definition env_live :: env where
  "env_live = env_site\<lparr>http_head := (\<lambda>t u h. Inr 200)\<rparr>"

text \<open>
  A captured text is numeric when it is a non-empty text of decimal digits. The two
  predicates say of a pattern that its group encloses \<^verbatim>\<open>\d+\<close>, and that every match of
  it goes through the group.
\<close>

definition numeric :: "string \<Rightarrow> bool" where
  "numeric g = (g \<noteq> [] \<and> (\<forall>c \<in> set g. c \<in> set ''0123456789''))"

fun caps_digits :: "rx \<Rightarrow> bool" where
  "caps_digits (Grp r) = (r = Plus Digit)"
| "caps_digits (Opt r) = caps_digits r"
| "caps_digits (Alt a b) = (caps_digits a \<and> caps_digits b)"
| "caps_digits (Seq a b) = (caps_digits a \<and> caps_digits b)"
| "caps_digits r = True"

fun binds :: "rx \<Rightarrow> bool" where
  "binds (Grp r) = True"
| "binds (Alt a b) = (binds a \<and> binds b)"
| "binds (Seq a b) = (binds a \<or> binds b)"
| "binds r = False"

text \<open>
  Pages for the examples: one with an XJZ bundle that has only \<^verbatim>\<open>b_host\<close>, followed by
  the five legacy variables and the channel key; one with a BUNDLE bundle only; one with
  the legacy variables and the channel key only.
\<close>

definition page_partial :: string where
  "page_partial = ''var XJZ='' @ [CHR 0x22] @ ''eyJiX2hvc3QiOiJhQT09In0='' @ [CHR 0x22] @ '';var a=atob('' @ [CHR 0x22] @ ''aHR0cHM6Ly9hLnRlc3Q='' @ [CHR 0x22] @ '');var b=atob('' @ [CHR 0x22] @ ''YXV0aC5waHA='' @ [CHR 0x22] @ '');var c=atob('' @ [CHR 0x22] @ ''MQ=='' @ [CHR 0x22] @ '');var d=atob('' @ [CHR 0x22] @ ''Mg=='' @ [CHR 0x22] @ '');var e=atob('' @ [CHR 0x22] @ ''cw=='' @ [CHR 0x22] @ '');channelKey='' @ [CHR 0x22] @ ''k'' @ [CHR 0x22]"

definition page_bundle :: string where
  "page_bundle = ''let BUNDLE='' @ [CHR 0x27] @ ''eyJiX3RzIjoiTnc9PSJ9'' @ [CHR 0x27]"


section \<open>The patterns of channel ID extraction as shapes\<close>

text \<open>
  What the five patterns of lines 204 to 210 say of a URL, written without the matcher.
  Each pattern is a lead, one of several for the second and the fourth, then the digits
  of the group, as many as there are, then a tail; the first pattern also asks that the
  text ends there, a last newline apart. Letters are compared without their case: two
  characters are the same letter when they are equal or are the upper and the lower case
  of one of the letters A to Z.
\<close>

record id_shape =
  leads :: "string list"
  tail :: string
  at_end :: bool

definition id_shapes :: "id_shape list" where
  "id_shapes =
     [\<lparr>leads = [''/premium''], tail = ''/mono.m3u8'', at_end = True\<rparr>,
      \<lparr>leads = [''/watch/stream-'', ''/stream/stream-'', ''/cast/stream-'', ''/player/stream-''],
       tail = ''.php'', at_end = False\<rparr>,
      \<lparr>leads = [''watch.php?id=''], tail = [], at_end = False\<rparr>,
      \<lparr>leads = [''%2Fstream-'', ''/stream-''], tail = ''.php'', at_end = False\<rparr>,
      \<lparr>leads = [''stream-''], tail = ''.php'', at_end = False\<rparr>]"

definition same_letter :: "char \<Rightarrow> char \<Rightarrow> bool" where
  "same_letter a b =
     (a = b \<or> (65 \<le> code a \<and> code a \<le> 90 \<and> code b = code a + 32)
      \<or> (65 \<le> code b \<and> code b \<le> 90 \<and> code a = code b + 32))"

definition starts_caseless :: "string \<Rightarrow> string \<Rightarrow> bool" where
  "starts_caseless t p = (length p \<le> length t \<and> list_all2 same_letter (take (length p) t) p)"

definition decimal :: "char \<Rightarrow> bool" where
  "decimal c = (c \<in> set ''0123456789'')"

text \<open>
  The group of a shape in a text that begins with the lead \<open>p\<close>: all the digits that
  follow the lead, when there is one at least and the tail follows them.
\<close>

definition group_after :: "id_shape \<Rightarrow> string \<Rightarrow> string \<Rightarrow> string option" where
  "group_after sh p t =
     (if starts_caseless t p then
        (let u = drop (length p) t; g = takeWhile decimal u; r = dropWhile decimal u
         in if g \<noteq> [] \<and> starts_caseless r (tail sh)
               \<and> (at_end sh \<longrightarrow> drop (length (tail sh)) r = [] \<or> drop (length (tail sh)) r = [CHR 0x0A])
            then Some g else None)
      else None)"

text \<open>
  A text begins with a match of a shape that has the group \<open>g\<close>; a shape occurs at a
  position of a URL, and somewhere in it; and \<open>g\<close> is the group of the first
  occurrence of the shape in the URL, the one at the leftmost position.
\<close>

definition begins :: "id_shape \<Rightarrow> string \<Rightarrow> string \<Rightarrow> bool" where
  "begins sh t g = (\<exists>p \<in> set (leads sh). group_after sh p t = Some g)"

definition occurs_at :: "id_shape \<Rightarrow> string \<Rightarrow> nat \<Rightarrow> bool" where
  "occurs_at sh url k = (\<exists>p \<in> set (leads sh). group_after sh p (drop k url) \<noteq> None)"

definition occurs :: "id_shape \<Rightarrow> string \<Rightarrow> bool" where
  "occurs sh url = (\<exists>k \<in> set [0..<Suc (length url)]. occurs_at sh url k)"

definition first_occurrence :: "id_shape \<Rightarrow> string \<Rightarrow> string \<Rightarrow> bool" where
  "first_occurrence sh url g =
     (\<exists>k \<in> set [0..<Suc (length url)]. begins sh (drop k url) g \<and> (\<forall>j \<in> set [0..<k]. \<not> occurs_at sh url j))"

text \<open>
  The matches that the shape of a pattern gives at the beginning of a text, lead by lead:
  the text that remains and the group.
\<close>

definition cands :: "id_shape \<Rightarrow> string \<Rightarrow> (string \<times> string option) list" where
  "cands sh t =
     concat (map (\<lambda>p. case group_after sh p t of None \<Rightarrow> []
                       | Some g \<Rightarrow> [(drop (length (tail sh)) (dropWhile decimal (drop (length p) t)), Some g)])
               (leads sh))"

section \<open>Results about the URLs\<close>

text \<open>
  C1. The manifest URL is templated from the server key and the channel key: the server
  key \<^verbatim>\<open>top1/cdn\<close> with channel key \<^verbatim>\<open>123\<close> gives
  \<^verbatim>\<open>https://top1.newkso.ru/top1/cdn/123/mono.m3u8\<close>, every other server key \<open>k\<close> with
  channel key \<open>c\<close> gives \<^verbatim>\<open>https://{k}new.newkso.ru/{k}/{c}/mono.m3u8\<close>, and so
  \<^verbatim>\<open>abc\<close> with \<^verbatim>\<open>456\<close> gives \<^verbatim>\<open>https://abcnew.newkso.ru/abc/456/mono.m3u8\<close>.
\<close>

theorem destination_url_template:
  "clean_m3u8_url (PStr ''top1/cdn'') ''123'' = ''https://top1.newkso.ru/top1/cdn/123/mono.m3u8''
   \<and> (\<forall>k c. k \<noteq> ''top1/cdn'' \<longrightarrow>
         clean_m3u8_url (PStr k) c = ''https://'' @ k @ ''new.newkso.ru/'' @ k @ ''/'' @ c @ ''/mono.m3u8'')
   \<and> clean_m3u8_url (PStr ''abc'') ''456'' = ''https://abcnew.newkso.ru/abc/456/mono.m3u8''"
  by (simp add: clean_m3u8_url_def)

theorem destination_url_template_witness:
  "''xyz'' \<noteq> ''top1/cdn''
   \<and> clean_m3u8_url (PStr ''xyz'') ''7'' = ''https://xyznew.newkso.ru/xyz/7/mono.m3u8''"
  using destination_url_template [THEN conjunct2, THEN conjunct1, rule_format, of "''xyz''" "''7''"]
  by simp

text \<open>
  The three branches of the join amount to one rule: the host loses one final slash if it
  has one, the script loses one leading slash if it has one, and one slash is put between.
\<close>

lemma join_auth_one_slash:
  "join_auth h p = (if endswith h ''/'' then butlast h else h) @ ''/'' @ (if startswith p ''/'' then tl p else p)"
  by (cases p; cases h rule: rev_cases) (auto simp: join_auth_def endswith_def startswith_def)

lemmas quote_defs = quote_plus_def quote_def quote_byte_def utf8_encode_def utf8_encode_char_def
  always_safe_def hex_upper_def code_def

text \<open>
  C2. Joining \<^verbatim>\<open>auth_host\<close> and \<^verbatim>\<open>auth_php\<close> gives neither a double nor a missing slash
  in the two cases of the specification: for the host \<^verbatim>\<open>https://x.test/\<close> with the script
  \<^verbatim>\<open>/auth.php\<close>, and for the host \<^verbatim>\<open>https://x.test\<close> with the script \<^verbatim>\<open>auth.php\<close>,
  the auth URL is \<^verbatim>\<open>https://x.test/auth.php?\<close> followed by the parameters
  \<^verbatim>\<open>channel_id\<close>, \<^verbatim>\<open>ts\<close>, \<^verbatim>\<open>rnd\<close> and the percent-encoded \<^verbatim>\<open>sig\<close>. The last
  conjunct shows the encoding on a signature with \<^verbatim>\<open>+\<close>, \<^verbatim>\<open>/\<close>, \<^verbatim>\<open>=\<close> and a space.
\<close>

theorem auth_url_join:
  "auth_url ck ts rnd (PStr sg) (PStr ''https://x.test/'') (PStr ''/auth.php'')
     = Inr (''https://x.test/auth.php?channel_id='' @ ck @ ''&ts='' @ py_str ts @ ''&rnd='' @ py_str rnd
              @ ''&sig='' @ quote_plus sg, PStr ''/auth.php'')
   \<and> auth_url ck ts rnd (PStr sg) (PStr ''https://x.test'') (PStr ''auth.php'')
     = Inr (''https://x.test/auth.php?channel_id='' @ ck @ ''&ts='' @ py_str ts @ ''&rnd='' @ py_str rnd
              @ ''&sig='' @ quote_plus sg, PStr ''auth.php'')
   \<and> quote_plus ''a+/= b'' = ''a%2B%2F%3D+b''"
  by (simp add: auth_url_def join_auth_def normalize_auth_php_def endswith_def startswith_def
        lstrip_chars_def strip_def is_space_def quote_defs)

section \<open>Results about the Request Executor\<close>

lemma get_session_emit_get [simp]:
  "get_session (emit e (get_session st)) = emit e (get_session st)"
  by (simp add: get_session_def emit_def)

lemma get_session_idem [simp]: "get_session (get_session st) = get_session st"
  by (simp add: get_session_def emit_def)

lemma session_open_get_session [simp]: "session_open (get_session st)"
  by (simp add: get_session_def emit_def)

lemma session_open_emit [simp]: "session_open (emit e st) = session_open st"
  by (simp add: emit_def)

lemma get_session_open [simp]: "session_open st \<Longrightarrow> get_session st = st"
  by (simp add: get_session_def)

lemma trace_emit [simp]: "trace (emit e st) = trace st @ [e]"
  by (simp add: emit_def)

lemma robust_loop_success:
  "attempt < retries \<Longrightarrow> attempt_outcome env (trace (get_session st)) url h = Inr resp \<Longrightarrow>
   robust_loop env url h retries d attempt st = (Inr (Some resp), emit (EvGet url h) (get_session st))"
  by (subst robust_loop.simps) (simp add: Let_def)

lemma robust_loop_other_again:
  "Suc attempt < retries \<Longrightarrow> attempt_outcome env (trace (get_session st)) url h = Inl e \<Longrightarrow>
   \<not> is_transport (cls e) \<Longrightarrow>
   robust_loop env url h retries d attempt st
     = robust_loop env url h retries d (Suc attempt) (emit (EvSleep d) (emit (EvGet url h) (get_session st)))"
  by (subst robust_loop.simps) (auto simp add: Let_def)

lemma robust_loop_other_last:
  "Suc attempt = retries \<Longrightarrow> attempt_outcome env (trace (get_session st)) url h = Inl e \<Longrightarrow>
   \<not> is_transport (cls e) \<Longrightarrow>
   robust_loop env url h retries d attempt st
     = (Inl (Exn ExtractorError (''Errore finale per '' @ url @ '': '' @ str e)), emit (EvGet url h) (get_session st))"
  by (subst robust_loop.simps) (auto simp add: Let_def)

lemma robust_loop_transport_again:
  "Suc attempt < retries \<Longrightarrow> attempt_outcome env (trace (get_session st)) url h = Inl e \<Longrightarrow>
   is_transport (cls e) \<Longrightarrow>
   robust_loop env url h retries d attempt st
     = robust_loop env url h retries d (Suc attempt)
         (emit (EvSleep (d * 2 ^ attempt)) (emit (EvGet url h) (get_session st)))"
  by (subst robust_loop.simps) (auto simp add: Let_def)

lemma robust_loop_transport_last:
  "Suc attempt = retries \<Longrightarrow> attempt_outcome env (trace (get_session st)) url h = Inl e \<Longrightarrow>
   is_transport (cls e) \<Longrightarrow>
   robust_loop env url h retries d attempt st
     = (Inl (Exn ExtractorError (''Tutti i '' @ str_nat retries @ '' tentativi falliti per '' @ url @ '': '' @ str e)),
        close_session (emit (EvGet url h) (get_session st)))"
  by (subst robust_loop.simps) (auto simp add: Let_def)

text \<open>
  C9, as the code has it. With the default \<^verbatim>\<open>retries=3\<close>, a request whose three attempts
  all fail with exceptions outside the transport classes is attempted three times, that is
  retried twice, each time after the fixed delay \<^verbatim>\<open>initial_delay\<close>, and the last
  exception is then surfaced in an \<^verbatim>\<open>ExtractorError\<close>; a request whose three attempts
  all fail with transport-class exceptions is retried after the delays
  \<^verbatim>\<open>initial_delay * 2^0\<close> and \<^verbatim>\<open>initial_delay * 2^1\<close>, then the session is closed and
  the last exception is surfaced in an \<^verbatim>\<open>ExtractorError\<close>. The exceptions may differ
  from attempt to attempt; a status of 400 or more counts as an exception outside the
  transport classes.
\<close>

theorem executor_retries:
  fixes env st url hdrs d
  defines "h \<equiv> get_headers_for_url env st url hdrs"
  defines "s0 \<equiv> get_session st"
  defines "t1 \<equiv> trace s0 @ [EvGet url h, EvSleep d]"
  defines "t2 \<equiv> t1 @ [EvGet url h, EvSleep d]"
  defines "u1 \<equiv> trace s0 @ [EvGet url h, EvSleep (d * 2 ^ 0)]"
  defines "u2 \<equiv> u1 @ [EvGet url h, EvSleep (d * 2 ^ 1)]"
  shows
  "(attempt_outcome env (trace s0) url h = Inl e0 \<and> \<not> is_transport (cls e0)
     \<and> attempt_outcome env t1 url h = Inl e1 \<and> \<not> is_transport (cls e1)
     \<and> attempt_outcome env t2 url h = Inl e2 \<and> \<not> is_transport (cls e2)
    \<longrightarrow> make_robust_request env st url hdrs 3 d
          = (Inl (Exn ExtractorError (''Errore finale per '' @ url @ '': '' @ str e2)),
             s0\<lparr>trace := t2 @ [EvGet url h]\<rparr>))
   \<and> (attempt_outcome env (trace s0) url h = Inl e0 \<and> is_transport (cls e0)
     \<and> attempt_outcome env u1 url h = Inl e1 \<and> is_transport (cls e1)
     \<and> attempt_outcome env u2 url h = Inl e2 \<and> is_transport (cls e2)
    \<longrightarrow> make_robust_request env st url hdrs 3 d
          = (Inl (Exn ExtractorError (''Tutti i 3 tentativi falliti per '' @ url @ '': '' @ str e2)),
             s0\<lparr>session_open := False, trace := u2 @ [EvGet url h, EvCloseSession]\<rparr>))"
proof (intro conjI impI)
  assume a: "attempt_outcome env (trace s0) url h = Inl e0 \<and> \<not> is_transport (cls e0)
     \<and> attempt_outcome env t1 url h = Inl e1 \<and> \<not> is_transport (cls e1)
     \<and> attempt_outcome env t2 url h = Inl e2 \<and> \<not> is_transport (cls e2)"
  let ?s1 = "emit (EvSleep d) (emit (EvGet url h) s0)"
  let ?s2 = "emit (EvSleep d) (emit (EvGet url h) ?s1)"
  have g1: "session_open s0"
    by (simp add: s0_def)
  have "make_robust_request env st url hdrs 3 d = robust_loop env url h 3 d 0 st"
    by (simp add: make_robust_request_def h_def)
  also have "\<dots> = robust_loop env url h 3 d (Suc 0) ?s1"
    using a by (simp add: robust_loop_other_again [where e = e0] s0_def)
  also have "\<dots> = robust_loop env url h 3 d (Suc (Suc 0)) ?s2"
    using a robust_loop_other_again [of "Suc 0" 3 env ?s1 url h e1 d] by (simp add: g1 t1_def t2_def u1_def u2_def)
  also have "\<dots> = (Inl (Exn ExtractorError (''Errore finale per '' @ url @ '': '' @ str e2)),
                    emit (EvGet url h) ?s2)"
    using a robust_loop_other_last [of "Suc (Suc 0)" 3 env ?s2 url h e2 d] by (simp add: g1 t1_def t2_def u1_def u2_def)
  also have "emit (EvGet url h) ?s2 = s0\<lparr>trace := t2 @ [EvGet url h]\<rparr>"
    by (simp add: emit_def t2_def t1_def)
  finally show "make_robust_request env st url hdrs 3 d
          = (Inl (Exn ExtractorError (''Errore finale per '' @ url @ '': '' @ str e2)),
             s0\<lparr>trace := t2 @ [EvGet url h]\<rparr>)" .
next
  assume a: "attempt_outcome env (trace s0) url h = Inl e0 \<and> is_transport (cls e0)
     \<and> attempt_outcome env u1 url h = Inl e1 \<and> is_transport (cls e1)
     \<and> attempt_outcome env u2 url h = Inl e2 \<and> is_transport (cls e2)"
  let ?s1 = "emit (EvSleep d) (emit (EvGet url h) s0)"
  let ?s2 = "emit (EvSleep (d * 2)) (emit (EvGet url h) ?s1)"
  have g1: "session_open s0"
    by (simp add: s0_def)
  have "make_robust_request env st url hdrs 3 d = robust_loop env url h 3 d 0 st"
    by (simp add: make_robust_request_def h_def)
  also have "\<dots> = robust_loop env url h 3 d (Suc 0) ?s1"
    using a robust_loop_transport_again [of 0 3 env st url h e0 d] by (simp add: s0_def)
  also have "\<dots> = robust_loop env url h 3 d (Suc (Suc 0)) ?s2"
    using a robust_loop_transport_again [of "Suc 0" 3 env ?s1 url h e1 d] by (simp add: g1 t1_def t2_def u1_def u2_def)
  also have "\<dots> = (Inl (Exn ExtractorError (''Tutti i '' @ str_nat 3 @ '' tentativi falliti per '' @ url @ '': '' @ str e2)),
                    close_session (emit (EvGet url h) ?s2))"
    using a robust_loop_transport_last [of "Suc (Suc 0)" 3 env ?s2 url h e2 d] by (simp add: g1 t1_def t2_def u1_def u2_def)
  also have "close_session (emit (EvGet url h) ?s2) = s0\<lparr>session_open := False, trace := u2 @ [EvGet url h, EvCloseSession]\<rparr>"
    using g1 by (simp add: emit_def u2_def u1_def close_session_def)
  also have "str_nat 3 = ''3''" by simp
  finally show "make_robust_request env st url hdrs 3 d
          = (Inl (Exn ExtractorError (''Tutti i 3 tentativi falliti per '' @ url @ '': '' @ str e2)),
             s0\<lparr>session_open := False, trace := u2 @ [EvGet url h, EvCloseSession]\<rparr>)" by simp
qed


text \<open>The theorem at two surroundings: one always raises \<^verbatim>\<open>ValueError\<close>, one always times out.\<close>

theorem executor_retries_witness:
  "make_robust_request env_boom st_init ''u'' [] 3 2
     = (Inl (Exn ExtractorError ''Errore finale per u: boom''),
        st_init\<lparr>session_open := True,
                trace := [EvNewSession, EvGet ''u'' [], EvSleep 2, EvGet ''u'' [], EvSleep 2, EvGet ''u'' []]\<rparr>)
   \<and> make_robust_request env_slow st_init ''u'' [] 3 2
     = (Inl (Exn ExtractorError ''Tutti i 3 tentativi falliti per u: slow''),
        st_init\<lparr>session_open := False,
                trace := [EvNewSession, EvGet ''u'' [], EvSleep 2, EvGet ''u'' [], EvSleep 4, EvGet ''u'' [],
                          EvCloseSession]\<rparr>)"
  using executor_retries [where env = env_boom and st = st_init and url = "''u''" and hdrs = "[]" and d = 2
          and ?e0.0 = "Exn ValueError ''boom''" and ?e1.0 = "Exn ValueError ''boom''"
          and ?e2.0 = "Exn ValueError ''boom''", THEN conjunct1]
        executor_retries [where env = env_slow and st = st_init and url = "''u''" and hdrs = "[]" and d = 2
          and ?e0.0 = "Exn TimeoutError ''slow''" and ?e1.0 = "Exn TimeoutError ''slow''"
          and ?e2.0 = "Exn TimeoutError ''slow''", THEN conjunct2]
  by (simp add: env_boom_def env_slow_def st_init_def attempt_outcome_def get_headers_for_url_def
        get_session_def emit_def is_transport_def startswith_def)

text \<open>
  C9 as stated says that an exception outside the transport classes is retried exactly
  once. With \<^verbatim>\<open>retries=3\<close> and \<^verbatim>\<open>initial_delay=2\<close>, a request that always raises
  \<^verbatim>\<open>ValueError\<close> is attempted three times, with two sleeps of two seconds, before the
  error is surfaced.
\<close>

theorem non_transport_retried_once_counterexample:
  "attempts_made (trace (snd (make_robust_request env_boom st_init ''u'' [] 3 2))) = 3
   \<and> sleeps (trace (snd (make_robust_request env_boom st_init ''u'' [] 3 2))) = [2, 2]
   \<and> fst (make_robust_request env_boom st_init ''u'' [] 3 2)
       = Inl (Exn ExtractorError ''Errore finale per u: boom'')"
  by (simp add: make_robust_request_def robust_loop.simps env_boom_def st_init_def attempt_outcome_def
        get_headers_for_url_def get_session_def emit_def is_transport_def attempts_made_def startswith_def)

section \<open>Results about the pipeline steps and the endpoint fallback\<close>

lemma bind_io_Inl: "f st = (Inl e, st') \<Longrightarrow> bind_io f g st = (Inl e, st')"
  by (simp add: bind_io_def)

lemma bind_io_Inr: "f st = (Inr x, st') \<Longrightarrow> bind_io f g st = g x st'"
  by (simp add: bind_io_def)

lemma bind_io_ret [simp]: "bind_io (ret_io x) g = g x"
  by (rule ext) (simp add: bind_io_def ret_io_def)

lemma bind_io_raise [simp]: "bind_io (raise_io e) g = raise_io e"
  by (rule ext) (simp add: bind_io_def raise_io_def)

lemma bind_io_lift_Inr [simp]: "bind_io (lift_io (Inr x)) g = g x"
  by (rule ext) (simp add: bind_io_def lift_io_def)

lemma bind_io_lift_Inl [simp]: "bind_io (lift_io (Inl e)) g = raise_io e"
  by (rule ext) (simp add: bind_io_def lift_io_def raise_io_def)

lemma grows_refl [simp]: "grows st st"
  by (simp add: grows_def)

lemma grows_trans: "grows a b \<Longrightarrow> grows b c \<Longrightarrow> grows a c"
  by (auto simp: grows_def)

lemma grows_emit: "is_net e \<Longrightarrow> grows st (emit e st)"
  by (simp add: grows_def emit_def)

lemma grows_get_session: "grows st (get_session st)"
  by (simp add: get_session_def grows_emit) (simp add: grows_def emit_def)

lemma grows_close_session: "grows st (close_session st)"
  by (simp add: close_session_def grows_def emit_def)

lemma net_onlyI: "(\<And>st. grows st (snd (f st))) \<Longrightarrow> net_only f"
  by (simp add: net_only_def)

lemma net_onlyD: "net_only f \<Longrightarrow> f st = (r, st') \<Longrightarrow> grows st st'"
  by (auto simp: net_only_def dest: spec [where x = st])

lemma net_only_ret [simp]: "net_only (ret_io x)"
  by (simp add: net_only_def ret_io_def)

lemma net_only_raise [simp]: "net_only (raise_io e)"
  by (simp add: net_only_def raise_io_def)

lemma net_only_lift [simp]: "net_only (lift_io r)"
  by (simp add: net_only_def lift_io_def)

lemma net_only_bind: "net_only f \<Longrightarrow> (\<And>x. net_only (g x)) \<Longrightarrow> net_only (bind_io f g)"
proof (rule net_onlyI)
  fix st
  assume f: "net_only f" and g: "\<And>x. net_only (g x)"
  obtain r st' where fs: "f st = (r, st')" by (cases "f st")
  have a: "grows st st'" using f fs by (rule net_onlyD)
  show "grows st (snd (bind_io f g st))"
  proof (cases r)
    case (Inl e)
    then show ?thesis using a fs by (simp add: bind_io_def)
  next
    case (Inr x)
    obtain r2 st2 where gs: "g x st' = (r2, st2)" by (cases "g x st'")
    have "grows st' st2" using g gs by (rule net_onlyD)
    with a have "grows st st2" by (rule grows_trans)
    then show ?thesis using Inr fs gs by (simp add: bind_io_def)
  qed
qed

lemma net_only_catch: "net_only f \<Longrightarrow> (\<And>e. net_only (h e)) \<Longrightarrow> net_only (catch_io f h)"
proof (rule net_onlyI)
  fix st
  assume f: "net_only f" and h: "\<And>e. net_only (h e)"
  obtain r st' where fs: "f st = (r, st')" by (cases "f st")
  have a: "grows st st'" using f fs by (rule net_onlyD)
  show "grows st (snd (catch_io f h st))"
  proof (cases r)
    case (Inr x)
    then show ?thesis using a fs by (simp add: catch_io_def)
  next
    case (Inl e)
    obtain r2 st2 where gs: "h e st' = (r2, st2)" by (cases "h e st'")
    have "grows st' st2" using h gs by (rule net_onlyD)
    with a have "grows st st2" by (rule grows_trans)
    then show ?thesis using Inl fs gs by (simp add: catch_io_def)
  qed
qed

lemma grows_robust_loop: "grows st (snd (robust_loop env url h retries d attempt st))"
proof (induction env url h retries d attempt st rule: robust_loop.induct)
  case (1 env url h retries d attempt st)
  let ?s1 = "get_session st"
  let ?s2 = "emit (EvGet url h) ?s1"
  have s2: "grows st ?s2"
    by (rule grows_trans [OF grows_get_session]) (simp add: grows_emit)
  show ?case
  proof (cases "attempt < retries")
    case False
    then show ?thesis by (subst robust_loop.simps) simp
  next
    case lt: True
    show ?thesis
    proof (cases "attempt_outcome env (trace ?s1) url h")
      case (Inr resp)
      then show ?thesis using lt s2 by (subst robust_loop.simps) (simp add: Let_def)
    next
      case (Inl e)
      show ?thesis
      proof (cases "is_transport (cls e)")
        case tr: True
        let ?s3 = "if attempt = retries - 1 then close_session ?s2 else ?s2"
        have s3: "grows st ?s3"
          using s2 by (auto intro: grows_trans grows_close_session)
        show ?thesis
        proof (cases "attempt < retries - 1")
          case True
          let ?s4 = "emit (EvSleep (d * 2 ^ attempt)) ?s3"
          have s4: "grows st ?s4"
            by (rule grows_trans [OF s3]) (simp add: grows_emit)
          have "grows ?s4 (snd (robust_loop env url h retries d (Suc attempt) ?s4))"
            using "1.IH"(1) [OF lt refl refl Inl tr refl True] .
          with s4 have "grows st (snd (robust_loop env url h retries d (Suc attempt) ?s4))"
            by (rule grows_trans)
          then show ?thesis using lt Inl tr True
            by (subst robust_loop.simps) (simp add: Let_def)
        next
          case False
          then show ?thesis using lt Inl tr s3
            by (subst robust_loop.simps) (simp add: Let_def)
        qed
      next
        case nt: False
        show ?thesis
        proof (cases "attempt = retries - 1")
          case True
          then show ?thesis using lt Inl nt s2
            by (subst robust_loop.simps) (simp add: Let_def)
        next
          case False
          let ?s4 = "emit (EvSleep d) ?s2"
          have s4: "grows st ?s4"
            by (rule grows_trans [OF s2]) (simp add: grows_emit)
          have "grows ?s4 (snd (robust_loop env url h retries d (Suc attempt) ?s4))"
            using "1.IH"(2) [OF lt refl refl Inl nt False] .
          with s4 have "grows st (snd (robust_loop env url h retries d (Suc attempt) ?s4))"
            by (rule grows_trans)
          then show ?thesis using lt Inl nt False
            by (subst robust_loop.simps) (simp add: Let_def)
        qed
      qed
    qed
  qed
qed

lemma net_only_request [simp]: "net_only (request env url hdrs)"
  by (simp add: net_only_def request_def make_robust_request_def grows_robust_loop)

lemma net_only_text_of [simp]: "net_only (text_of r)"
  by (simp add: text_of_def split: option.splits)

lemma net_only_request_text [simp]: "net_only (request_text env url hdrs)"
  by (simp add: request_text_def net_only_bind)

lemma net_only_json_of [simp]: "net_only (json_of r)"
  by (simp add: json_of_def split: option.splits)

lemma grows_player_loop: "grows st (snd (player_loop env baseurl links d st))"
proof (induction links arbitrary: d st)
  case Nil
  then show ?case by (simp add: ret_io_def)
next
  case (Cons link0 links)
  let ?link = "absolute_link baseurl link0"
  let ?hdrs = "link_headers env (d_headers d) ?link"
  obtain r st' where rt: "request_text env ?link ?hdrs st = (r, st')"
    by (cases "request_text env ?link ?hdrs st")
  have a: "grows st st'"
    using net_only_request_text rt by (rule net_onlyD)
  show ?case
  proof (cases r)
    case (Inl e)
    have "grows st' (snd (player_loop env baseurl links (d\<lparr>d_headers := ?hdrs, d_last_error := Some e\<rparr>) st'))"
      by (rule Cons.IH)
    with a show ?thesis using rt Inl by (auto simp: Let_def intro: grows_trans)
  next
    case (Inr content2)
    show ?thesis
    proof (cases "re_findall iframe_pattern content2")
      case Nil
      have "grows st' (snd (player_loop env baseurl links (d\<lparr>d_headers := ?hdrs\<rparr>) st'))"
        by (rule Cons.IH)
      with a show ?thesis using rt Inr Nil by (auto simp: Let_def intro: grows_trans)
    next
      case (Cons u us)
      with a show ?thesis using rt Inr by (simp add: Let_def)
    qed
  qed
qed

lemma net_only_player_loop [simp]: "net_only (player_loop env baseurl links d)"
  by (simp add: net_only_def grows_player_loop)

lemma net_only_anchor_fallback [simp]: "net_only (anchor_fallback env baseurl content1 d)"
  by (auto simp: anchor_fallback_def Let_def split: list.splits option.splits intro!: net_only_bind)

lemma net_only_set_context [simp]: "net_only (\<lambda>st. (Inr (), st\<lparr>iframe_context := c\<rparr>))"
  by (simp add: net_only_def grows_def)

lemma net_only_discover_iframe [simp]: "net_only (discover_iframe env baseurl endpoint channel_id)"
  by (auto simp: discover_iframe_def Let_def split: option.splits intro!: net_only_bind)

lemma net_only_server_resolution [simp]:
  "net_only (server_resolution env hdrs iframe_url channel_key f auth_php')"
  by (auto simp: server_resolution_def Let_def split: pyval.splits option.splits intro!: net_only_bind)

lemma net_only_auth_handshake [simp]: "net_only (auth_handshake env hdrs iframe_url channel_key f)"
  by (auto simp: auth_handshake_def Let_def split: prod.splits intro!: net_only_bind)

lemma net_only_resolve_stream [simp]: "net_only (resolve_stream env hdrs iframe_url iframe_content)"
  by (auto simp: resolve_stream_def split: prod.splits intro!: net_only_bind net_only_catch)

lemma net_only_try_endpoint [simp]: "net_only (try_endpoint env baseurl endpoint channel_id)"
  by (auto simp: try_endpoint_def split: prod.splits intro!: net_only_bind)

lemma net_only_get_daddylive_base_url [simp]: "net_only (get_daddylive_base_url env)"
proof (rule net_onlyI)
  fix st
  obtain r st' where rq: "request env ''https://daddylive.sx/'' [] st = (r, st')"
    by (cases "request env ''https://daddylive.sx/'' [] st")
  have "grows st st'" using net_only_request rq by (rule net_onlyD)
  then have "grows st (st'\<lparr>cached_base_url := Some ''https://daddylive.sx/''\<rparr>)"
    by (simp add: grows_def)
  then show "grows st (snd (get_daddylive_base_url env st))"
    using rq \<open>grows st st'\<close> by (auto simp: get_daddylive_base_url_def split: sum.splits)
qed

lemma tried_append [simp]: "tried (t @ u) = tried t @ tried u"
  by (induction t rule: tried.induct) simp_all

lemma probes_append [simp]: "probes (t @ u) = probes t @ probes u"
  by (induction t rule: probes.induct) simp_all

lemma attempts_made_append [simp]: "attempts_made (t @ u) = attempts_made t + attempts_made u"
  by (simp add: attempts_made_def)

lemma tried_net [simp]: "list_all is_net evs \<Longrightarrow> tried evs = []"
  by (induction evs rule: tried.induct) simp_all

lemma probes_net [simp]: "list_all is_net evs \<Longrightarrow> probes evs = []"
  by (induction evs rule: probes.induct) simp_all

lemma grows_tried: "grows st st' \<Longrightarrow> tried (trace st') = tried (trace st)"
  by (auto simp: grows_def)

lemma grows_probes: "grows st st' \<Longrightarrow> probes (trace st') = probes (trace st)"
  by (auto simp: grows_def)

lemma grows_cache: "grows st st' \<Longrightarrow> stream_data_cache st' = stream_data_cache st"
  by (simp add: grows_def)

lemma grows_file: "grows st st' \<Longrightarrow> cache_file st' = cache_file st"
  by (simp add: grows_def)

lemma map_of_dict_set [simp]: "map_of (dict_set d k v) k = Some v"
  by (induction d) auto

lemma map_of_dict_set_other: "k' \<noteq> k \<Longrightarrow> map_of (dict_set d k v) k' = map_of d k'"
  by (induction d) auto

lemma map_of_dict_del [simp]: "map_of (dict_del d k) k = None"
  by (induction d) (auto simp: dict_del_def)

lemma map_of_dict_del_other: "k' \<noteq> k \<Longrightarrow> map_of (dict_del d k) k' = map_of d k'"
  by (induction d) (auto simp: dict_del_def)

lemma try_endpoint_grows:
  "try_endpoint env baseurl endpoint channel_id st = (r, st') \<Longrightarrow> grows st st'"
  using net_only_try_endpoint by (rule net_onlyD)

text \<open>What a run of failing endpoints leaves behind.\<close>

lemma fails_through_frame:
  "fails_through env baseurl channel_id pre last_exc st = Some (last', st') \<Longrightarrow>
   tried (trace st') = tried (trace st) @ pre \<and> probes (trace st') = probes (trace st)
   \<and> stream_data_cache st' = stream_data_cache st \<and> cache_file st' = cache_file st"
proof (induction pre arbitrary: last_exc st)
  case Nil
  then show ?case by simp
next
  case (Cons ep pre)
  obtain r s1 where te: "try_endpoint env baseurl ep channel_id (emit (EvTry ep) st) = (r, s1)"
    by (cases "try_endpoint env baseurl ep channel_id (emit (EvTry ep) st)")
  from Cons.prems te obtain exc where r: "r = Inl exc"
    and ft: "fails_through env baseurl channel_id pre (Some exc) s1 = Some (last', st')"
    by (cases r) auto
  have g: "grows (emit (EvTry ep) st) s1" using te by (rule try_endpoint_grows)
  have s1: "tried (trace s1) = tried (trace st) @ [ep]" "probes (trace s1) = probes (trace st)"
    "stream_data_cache s1 = stream_data_cache st" "cache_file s1 = cache_file st"
    using grows_tried [OF g] grows_probes [OF g] grows_cache [OF g] grows_file [OF g]
    by (simp_all add: emit_def)
  from Cons.IH [OF ft] s1 show ?case by simp
qed

lemma endpoint_loop_after_failures:
  "fails_through env baseurl channel_id pre last_exc st = Some (last', st') \<Longrightarrow>
   endpoint_loop env baseurl channel_id (pre @ rest) last_exc st
     = endpoint_loop env baseurl channel_id rest last' st'"
proof (induction pre arbitrary: last_exc st)
  case Nil
  then show ?case by simp
next
  case (Cons ep pre)
  obtain r s1 where te: "try_endpoint env baseurl ep channel_id (emit (EvTry ep) st) = (r, s1)"
    by (cases "try_endpoint env baseurl ep channel_id (emit (EvTry ep) st)")
  from Cons.prems te obtain exc where r: "r = Inl exc"
    and ft: "fails_through env baseurl channel_id pre (Some exc) s1 = Some (last', st')"
    by (cases r) auto
  from Cons.IH [OF ft] te r show ?case by simp
qed

text \<open>The pipeline when the cache is not consulted or has no entry for the channel.\<close>

lemma extract_fresh:
  assumes "extract_channel_id url = Some cid" and "cid \<noteq> []"
    and "force \<or> map_of (stream_data_cache st) cid = None"
    and "get_daddylive_base_url env st = (Inr base, stb)"
  shows "extract_dlhd env url force st
           = catch_io (endpoint_loop env base cid endpoints None)
               (\<lambda>e. raise_io (Exn ExtractorError (''Estrazione DLHD completamente fallita: '' @ str e))) stb"
  using assms by (auto simp: extract_dlhd_def catch_io_def bind_io_def ret_io_def)

lemma base_url_never_fails: "\<exists>base stb. get_daddylive_base_url env st = (Inr base, stb)"
  by (auto simp: get_daddylive_base_url_def split: prod.splits sum.splits)

text \<open>
  C5. The endpoints are tried in the order \<^verbatim>\<open>stream/\<close>, \<^verbatim>\<open>cast/\<close>, \<^verbatim>\<open>player/\<close>,
  \<^verbatim>\<open>watch/\<close>. When the pipeline reaches the fallback (the cache is not consulted or has
  no entry) and the endpoints before \<open>ep\<close> fail one after the other and \<open>ep\<close> succeeds
  with \<open>r\<close>, then \<open>r\<close> is returned, it is stored in the cache under the channel ID, the
  cache is saved (and written when the file can be), and the endpoints tried are exactly
  those up to \<open>ep\<close>: none after it. With \<^verbatim>\<open>stream/\<close> and \<^verbatim>\<open>cast/\<close> failing and
  \<^verbatim>\<open>player/\<close> succeeding, \<^verbatim>\<open>watch/\<close> is not tried. When all four fail, the text of the
  last error is surfaced inside the \<^verbatim>\<open>ExtractorError\<close> of the whole request.
\<close>

theorem endpoint_fallback:
  assumes cid: "extract_channel_id url = Some cid" "cid \<noteq> []"
    and fresh: "force \<or> map_of (stream_data_cache st) cid = None"
    and base: "get_daddylive_base_url env st = (Inr base, stb)"
  shows
    "(endpoints = pre @ ep # post
        \<and> fails_through env base cid pre None stb = Some (le, st1)
        \<and> try_endpoint env base ep cid (emit (EvTry ep) st1) = (Inr r, st2)
      \<longrightarrow> extract_dlhd env url force st
            = (Inr r, save_cache env (st2\<lparr>stream_data_cache := dict_set (stream_data_cache st) cid r\<rparr>))
          \<and> map_of (stream_data_cache (snd (extract_dlhd env url force st))) cid = Some r
          \<and> tried (trace (snd (extract_dlhd env url force st))) = tried (trace st) @ pre @ [ep]
          \<and> (can_write env (trace st2) \<longrightarrow>
               cache_file (snd (extract_dlhd env url force st))
                 = Some (encode_cache (dict_set (stream_data_cache st) cid r))))
     \<and> (fails_through env base cid endpoints None stb = Some (Some e, st1)
      \<longrightarrow> extract_dlhd env url force st
            = (Inl (Exn ExtractorError
                 (''Estrazione DLHD completamente fallita: Tutti gli endpoint DLHD hanno fallito. Ultimo errore: ''
                    @ str e)), st1)
          \<and> tried (trace st1) = tried (trace st) @ endpoints)"
proof (intro conjI impI)
  have gb: "grows st stb" using net_only_get_daddylive_base_url base by (rule net_onlyD)
  note fr = extract_fresh [OF cid fresh base]
  {
    assume a: "endpoints = pre @ ep # post
        \<and> fails_through env base cid pre None stb = Some (le, st1)
        \<and> try_endpoint env base ep cid (emit (EvTry ep) st1) = (Inr r, st2)"
    then have ft: "fails_through env base cid pre None stb = Some (le, st1)"
      and te: "try_endpoint env base ep cid (emit (EvTry ep) st1) = (Inr r, st2)"
      and eps: "endpoints = pre @ ep # post" by simp_all
    note f1 = fails_through_frame [OF ft]
    have g2: "grows (emit (EvTry ep) st1) st2" using te by (rule try_endpoint_grows)
    have c2: "stream_data_cache st2 = stream_data_cache st"
      using grows_cache [OF g2] f1 grows_cache [OF gb] by (simp add: emit_def)
    have t2: "tried (trace st2) = tried (trace st) @ pre @ [ep]"
      using grows_tried [OF g2] f1 grows_tried [OF gb] by (simp add: emit_def)
    have "endpoint_loop env base cid endpoints None stb = endpoint_loop env base cid (ep # post) le st1"
      unfolding eps using ft by (rule endpoint_loop_after_failures)
    also have "\<dots> = (Inr r, save_cache env (st2\<lparr>stream_data_cache := dict_set (stream_data_cache st) cid r\<rparr>))"
      using te c2 by simp
    finally have el: "endpoint_loop env base cid endpoints None stb
        = (Inr r, save_cache env (st2\<lparr>stream_data_cache := dict_set (stream_data_cache st) cid r\<rparr>))" .
    show ex: "extract_dlhd env url force st
            = (Inr r, save_cache env (st2\<lparr>stream_data_cache := dict_set (stream_data_cache st) cid r\<rparr>))"
      by (simp add: fr catch_io_def el)
    show "map_of (stream_data_cache (snd (extract_dlhd env url force st))) cid = Some r"
      by (simp add: ex save_cache_def emit_def)
    show "tried (trace (snd (extract_dlhd env url force st))) = tried (trace st) @ pre @ [ep]"
      using t2 by (simp add: ex save_cache_def emit_def)
    {
      assume "can_write env (trace st2)"
      then show "cache_file (snd (extract_dlhd env url force st))
                 = Some (encode_cache (dict_set (stream_data_cache st) cid r))"
        by (simp add: ex save_cache_def emit_def)
    }
  }
  {
    assume ft: "fails_through env base cid endpoints None stb = Some (Some e, st1)"
    have "endpoint_loop env base cid (endpoints @ []) None stb = endpoint_loop env base cid [] (Some e) st1"
      using ft by (rule endpoint_loop_after_failures)
    then show "extract_dlhd env url force st
            = (Inl (Exn ExtractorError
                 (''Estrazione DLHD completamente fallita: Tutti gli endpoint DLHD hanno fallito. Ultimo errore: ''
                    @ str e)), st1)"
      by (simp add: fr catch_io_def raise_io_def)
    show "tried (trace st1) = tried (trace st) @ endpoints"
      using fails_through_frame [OF ft] grows_tried [OF gb] by simp
  }
qed

lemma option_collapse: "x \<noteq> None \<Longrightarrow> x = Some (fst (the x), snd (the x))"
  by (cases x) auto

lemma result_collapse: "fst p = r \<Longrightarrow> p = (r, snd p)"
  by (cases p) auto

text \<open>
  The theorem on the site of the examples, where \<^verbatim>\<open>stream/\<close> and \<^verbatim>\<open>cast/\<close> fail and
  \<^verbatim>\<open>player/\<close> succeeds.
\<close>

theorem endpoint_fallback_witness:
  "extract_dlhd env_site ''https://daddylive.sx/watch.php?id=5'' False st_init
     = (Inr site_result, snd (extract_dlhd env_site ''https://daddylive.sx/watch.php?id=5'' False st_init))
   \<and> map_of (stream_data_cache (snd (extract_dlhd env_site ''https://daddylive.sx/watch.php?id=5'' False st_init))) ''5''
       = Some site_result
   \<and> tried (trace (snd (extract_dlhd env_site ''https://daddylive.sx/watch.php?id=5'' False st_init)))
       = [''stream/'', ''cast/'', ''player/'']
   \<and> cache_file (snd (extract_dlhd env_site ''https://daddylive.sx/watch.php?id=5'' False st_init))
       = Some (encode_cache [(''5'', site_result)])"
proof -
  let ?url = "''https://daddylive.sx/watch.php?id=5''"
  let ?base = "''https://daddylive.sx/''"
  let ?ex = "extract_dlhd env_site ?url False st_init"
  let ?stb = "snd (get_daddylive_base_url env_site st_init)"
  let ?ft = "fails_through env_site ?base ''5'' [''stream/'', ''cast/''] None ?stb"
  let ?st1 = "snd (the ?ft)"
  let ?te = "try_endpoint env_site ?base ''player/'' ''5'' (emit (EvTry ''player/'') ?st1)"
  have h1: "extract_channel_id ?url = Some ''5''" by code_simp
  have h2: "''5'' \<noteq> []" by simp
  have h3: "False \<or> map_of (stream_data_cache st_init) ''5'' = None" by (simp add: st_init_def)
  have "fst (get_daddylive_base_url env_site st_init) = Inr ?base" by code_simp
  then have h4: "get_daddylive_base_url env_site st_init = (Inr ?base, ?stb)" by (rule result_collapse)
  have h5: "endpoints = [''stream/'', ''cast/''] @ ''player/'' # [''watch/'']" by (simp add: endpoints_def)
  have "?ft \<noteq> None" by code_simp
  then have h6: "?ft = Some (fst (the ?ft), ?st1)" by (rule option_collapse)
  have "fst ?te = Inr site_result" by code_simp
  then have h7: "?te = (Inr site_result, snd ?te)" by (rule result_collapse)
  have w: "can_write env_site (trace (snd ?te))" by (simp add: env_site_def)
  have ti: "tried (trace st_init) = []" by (simp add: st_init_def)
  have ci: "dict_set (stream_data_cache st_init) ''5'' site_result = [(''5'', site_result)]"
    by (simp add: st_init_def)
  note th = endpoint_fallback [OF h1 h2 h3 h4, where pre = "[''stream/'', ''cast/'']" and ep = "''player/''"
      and post = "[''watch/'']" and le = "fst (the ?ft)" and ?st1.0 = ?st1 and r = site_result and ?st2.0 = "snd ?te",
      THEN conjunct1, rule_format, OF conjI [OF h5 conjI [OF h6 h7]]]
  have "fst ?ex = Inr site_result"
    by (simp only: th [THEN conjunct1] fst_conv)
  then have c1: "?ex = (Inr site_result, snd ?ex)" by (rule result_collapse)
  have c2: "map_of (stream_data_cache (snd ?ex)) ''5'' = Some site_result"
    by (rule th [THEN conjunct2, THEN conjunct1])
  have c3: "tried (trace (snd ?ex)) = [''stream/'', ''cast/'', ''player/'']"
    using th [THEN conjunct2, THEN conjunct2, THEN conjunct1] by (simp only: ti append_Nil append_Cons)
  have c4: "cache_file (snd ?ex) = Some (encode_cache [(''5'', site_result)])"
    using th [THEN conjunct2, THEN conjunct2, THEN conjunct2, rule_format, OF w] by (simp only: ci)
  from c1 c2 c3 c4 show ?thesis by (intro conjI)
qed

section \<open>Results about the cache probe\<close>

lemma grows_tried_probe_save: "probes (trace (save_cache env st)) = probes (trace st)"
  by (simp add: save_cache_def emit_def)

lemma probes_invalidate [simp]: "probes (trace (invalidate env cid st)) = probes (trace st)"
  by (simp add: invalidate_def save_cache_def emit_def)

lemma cache_invalidate [simp]:
  "stream_data_cache (invalidate env cid st) = dict_del (stream_data_cache st) cid"
  by (simp add: invalidate_def save_cache_def emit_def)

lemma file_invalidate:
  "can_write env (trace st) \<Longrightarrow>
   cache_file (invalidate env cid st) = Some (encode_cache (dict_del (stream_data_cache st) cid))"
  by (simp add: invalidate_def save_cache_def emit_def)

lemma probes_endpoint_loop:
  "probes (trace (snd (endpoint_loop env baseurl cid eps last_exc st))) = probes (trace st)"
proof (induction eps arbitrary: last_exc st)
  case Nil
  then show ?case by (simp split: option.splits)
next
  case (Cons ep eps)
  obtain r s1 where te: "try_endpoint env baseurl ep cid (emit (EvTry ep) st) = (r, s1)"
    by (cases "try_endpoint env baseurl ep cid (emit (EvTry ep) st)")
  have g: "grows (emit (EvTry ep) st) s1" using te by (rule try_endpoint_grows)
  have p1: "probes (trace s1) = probes (trace st)"
    using grows_probes [OF g] by (simp add: emit_def)
  show ?case
  proof (cases r)
    case (Inl exc)
    with te Cons.IH [of "Some exc" s1] p1 show ?thesis by simp
  next
    case (Inr result)
    with te p1 show ?thesis by (simp add: save_cache_def emit_def)
  qed
qed

text \<open>A forced resolution makes no probe.\<close>

lemma probes_extract_forced:
  "probes (trace (snd (extract_dlhd env url True st))) = probes (trace st)"
proof (cases "extract_channel_id url")
  case None
  then show ?thesis by (simp add: extract_dlhd_def catch_io_def raise_io_def)
next
  case (Some cid)
  show ?thesis
  proof (cases "cid = []")
    case True
    with Some show ?thesis by (simp add: extract_dlhd_def catch_io_def raise_io_def)
  next
    case False
    obtain base stb where b: "get_daddylive_base_url env st = (Inr base, stb)"
      using base_url_never_fails by blast
    have gb: "grows st stb" using net_only_get_daddylive_base_url b by (rule net_onlyD)
    have "probes (trace (snd (endpoint_loop env base cid endpoints None stb))) = probes (trace st)"
      using probes_endpoint_loop [of env base cid endpoints None stb] grows_probes [OF gb] by simp
    then show ?thesis
      unfolding extract_fresh [OF Some False disjI1 [OF TrueI] b]
      by (cases "endpoint_loop env base cid endpoints None stb")
        (auto simp: catch_io_def raise_io_def split: sum.splits)
  qed
qed

text \<open>The pipeline when the cache has an entry for the channel and is consulted.\<close>

lemma extract_cached:
  assumes "extract_channel_id url = Some cid" and "cid \<noteq> []"
    and "map_of (stream_data_cache st) cid = Some cached_data"
  shows "extract_dlhd env url False st
           = catch_io
               (bind_io (cache_probe env cid cached_data)
                  (\<lambda>hit. case hit of
                           Some cached_data \<Rightarrow> ret_io cached_data
                         | None \<Rightarrow>
                             bind_io (get_daddylive_base_url env)
                               (\<lambda>baseurl. endpoint_loop env baseurl cid endpoints None)))
               (\<lambda>e. raise_io (Exn ExtractorError (''Estrazione DLHD completamente fallita: '' @ str e))) st"
  using assms by (simp add: extract_dlhd_def catch_io_def bind_io_def)

lemma extract_forced:
  assumes "extract_channel_id url = Some cid" and "cid \<noteq> []"
  shows "extract_dlhd env url True st
           = catch_io
               (bind_io (get_daddylive_base_url env)
                  (\<lambda>baseurl. endpoint_loop env baseurl cid endpoints None))
               (\<lambda>e. raise_io (Exn ExtractorError (''Estrazione DLHD completamente fallita: '' @ str e))) st"
  using assms by (simp add: extract_dlhd_def catch_io_def bind_io_def ret_io_def)

lemma extract_after_miss:
  assumes "extract_channel_id url = Some cid" and "cid \<noteq> []"
    and "map_of (stream_data_cache st) cid = Some cached_data"
    and "cache_probe env cid cached_data st = (Inr None, st')"
  shows "extract_dlhd env url False st = extract_dlhd env url True st'"
  unfolding extract_cached [OF assms(1-3)] extract_forced [OF assms(1,2)]
  using assms(4) by (simp add: catch_io_def bind_io_def)

text \<open>
  C6. With \<^verbatim>\<open>force_refresh\<close> false and a cache entry for the channel whose stored
  \<^verbatim>\<open>destination_url\<close> is not empty, exactly one probe is made, against the stored URL
  with the stored headers. When it answers 200, the cached entry is returned and the
  only events are the session and the probe. On every other outcome, a status other
  than 200 or an exception, the entry is deleted, the cache is saved (and written when
  the file can be), and the request goes on exactly as a forced resolution from that
  state does: the invalidation itself raises nothing.
\<close>

theorem cache_probe_outcomes:
  fixes env st url cid cd
  defines "stream_url \<equiv> dict_get cd ''destination_url''"
  defines "stream_headers \<equiv> (case map_of cd ''request_headers'' of None \<Rightarrow> PDict [] | Some h \<Rightarrow> h)"
  defines "stp \<equiv> emit (EvHead stream_url stream_headers) (get_session st)"
  assumes cid: "extract_channel_id url = Some cid" "cid \<noteq> []"
    and entry: "map_of (stream_data_cache st) cid = Some (PDict cd)"
    and url: "truthy (dict_get cd ''destination_url'')"
  shows
    "probes (trace stp) = probes (trace st) @ [(stream_url, stream_headers)]
     \<and> (http_head env (trace (get_session st)) stream_url stream_headers = Inr 200
          \<longrightarrow> extract_dlhd env url False st = (Inr (PDict cd), stp))
     \<and> (http_head env (trace (get_session st)) stream_url stream_headers \<noteq> Inr 200
          \<longrightarrow> extract_dlhd env url False st = extract_dlhd env url True (invalidate env cid stp)
              \<and> map_of (stream_data_cache (invalidate env cid stp)) cid = None
              \<and> (can_write env (trace stp) \<longrightarrow>
                   cache_file (invalidate env cid stp)
                     = Some (encode_cache (dict_del (stream_data_cache st) cid))))"
proof (intro conjI impI)
  have gs: "grows st (get_session st)" by (rule grows_get_session)
  show "probes (trace stp) = probes (trace st) @ [(stream_url, stream_headers)]"
    using grows_probes [OF gs] by (simp add: stp_def emit_def)
  have cs: "stream_data_cache stp = stream_data_cache st"
    using grows_cache [OF gs] by (simp add: stp_def emit_def)
  {
    assume ok: "http_head env (trace (get_session st)) stream_url stream_headers = Inr 200"
    have "cache_probe env cid (PDict cd) st = (Inr (Some (PDict cd)), stp)"
      using url ok by (simp add: cache_probe_def Let_def stream_url_def stream_headers_def stp_def)
    then show "extract_dlhd env url False st = (Inr (PDict cd), stp)"
      unfolding extract_cached [OF cid entry]
      by (simp add: catch_io_def bind_io_def ret_io_def)
  }
  {
    assume no: "http_head env (trace (get_session st)) stream_url stream_headers \<noteq> Inr 200"
    have "cache_probe env cid (PDict cd) st = (Inr None, invalidate env cid stp)"
      using url no
      by (auto simp: cache_probe_def Let_def stream_url_def stream_headers_def stp_def split: sum.splits)
    then show "extract_dlhd env url False st = extract_dlhd env url True (invalidate env cid stp)"
      by (rule extract_after_miss [OF cid entry])
    show "map_of (stream_data_cache (invalidate env cid stp)) cid = None" by simp
    {
      assume "can_write env (trace stp)"
      then show "cache_file (invalidate env cid stp) = Some (encode_cache (dict_del (stream_data_cache st) cid))"
        by (simp add: file_invalidate cs)
    }
  }
qed

text \<open>
  C10. With \<^verbatim>\<open>force_refresh\<close> false and a cache entry for the channel whose stored
  \<^verbatim>\<open>destination_url\<close> is missing or empty, the entry is deleted and the cache is saved
  (and written when the file can be), the request goes on as a forced resolution from
  that state does, and the whole request makes no probe.
\<close>

theorem no_probe_without_url:
  assumes cid: "extract_channel_id url = Some cid" "cid \<noteq> []"
    and entry: "map_of (stream_data_cache st) cid = Some (PDict cd)"
    and nourl: "\<not> truthy (dict_get cd ''destination_url'')"
  shows
    "extract_dlhd env url False st = extract_dlhd env url True (invalidate env cid st)
     \<and> probes (trace (snd (extract_dlhd env url False st))) = probes (trace st)
     \<and> map_of (stream_data_cache (invalidate env cid st)) cid = None
     \<and> (can_write env (trace st) \<longrightarrow>
          cache_file (invalidate env cid st) = Some (encode_cache (dict_del (stream_data_cache st) cid)))"
proof (intro conjI impI)
  have "cache_probe env cid (PDict cd) st = (Inr None, invalidate env cid st)"
    using nourl by (simp add: cache_probe_def Let_def)
  then show e: "extract_dlhd env url False st = extract_dlhd env url True (invalidate env cid st)"
    by (rule extract_after_miss [OF cid entry])
  show "probes (trace (snd (extract_dlhd env url False st))) = probes (trace st)"
    unfolding e by (simp add: probes_extract_forced)
  show "map_of (stream_data_cache (invalidate env cid st)) cid = None" by simp
  {
    assume "can_write env (trace st)"
    then show "cache_file (invalidate env cid st) = Some (encode_cache (dict_del (stream_data_cache st) cid))"
      by (rule file_invalidate)
  }
qed

lemma watch_url_channel: "extract_channel_id ''https://daddylive.sx/watch.php?id=5'' = Some ''5''"
  by code_simp

lemma encode_empty_cache: "encode_cache [] = ''e30=''"
  by code_simp

text \<open>The theorem on a cached entry, with a probe that answers 200 and one that answers 404.\<close>

theorem cache_probe_outcomes_witness:
  "extract_dlhd env_live ''https://daddylive.sx/watch.php?id=5'' False st_cached
     = (Inr site_result,
        st_cached\<lparr>session_open := True,
                  trace := [EvNewSession, EvHead (PStr ''https://abcnew.newkso.ru/abc/k/mono.m3u8'') site_headers]\<rparr>)
   \<and> extract_dlhd env_site ''https://daddylive.sx/watch.php?id=5'' False st_cached
     = extract_dlhd env_site ''https://daddylive.sx/watch.php?id=5'' True
         (st_cached\<lparr>session_open := True, stream_data_cache := [], cache_file := Some ''e30='',
                    trace := [EvNewSession, EvHead (PStr ''https://abcnew.newkso.ru/abc/k/mono.m3u8'') site_headers,
                              EvSave ''e30='']\<rparr>)"
proof -
  let ?url = "''https://daddylive.sx/watch.php?id=5''"
  let ?cd = "[(''destination_url'', PStr ''https://abcnew.newkso.ru/abc/k/mono.m3u8''),
            (''request_headers'', site_headers),
            (''mediaflow_endpoint'', PStr ''hls_manifest_proxy''),
            (''auth_data'',
               PDict [(''channel_key'', PStr ''k''), (''auth_ts'', PStr ''1''), (''auth_rnd'', PStr ''2''),
                      (''auth_sig'', PStr ''s+''), (''auth_host'', PStr ''https://a.test/''),
                      (''auth_php'', PStr ''/auth.php''), (''iframe_url'', PStr ''https://i.test/f'')])]"
  have sr: "site_result = PDict ?cd" by (simp add: site_result_def site_headers_def)
  have h2: "''5'' \<noteq> []" by simp
  have h3: "map_of (stream_data_cache st_cached) ''5'' = Some (PDict ?cd)"
    by (simp add: st_cached_def sr)
  have h4: "truthy (dict_get ?cd ''destination_url'')" by (simp add: dict_get_def)
  have live: "extract_dlhd env_live ?url False st_cached
     = (Inr site_result,
        st_cached\<lparr>session_open := True,
                  trace := [EvNewSession, EvHead (PStr ''https://abcnew.newkso.ru/abc/k/mono.m3u8'') site_headers]\<rparr>)"
    using cache_probe_outcomes [where env = env_live, OF watch_url_channel h2 h3 h4, THEN conjunct2, THEN conjunct1]
    by (simp add: env_live_def dict_get_def sr get_session_def emit_def st_cached_def st_init_def)
  have stale: "extract_dlhd env_site ?url False st_cached
     = extract_dlhd env_site ?url True
         (st_cached\<lparr>session_open := True, stream_data_cache := [], cache_file := Some ''e30='',
                    trace := [EvNewSession, EvHead (PStr ''https://abcnew.newkso.ru/abc/k/mono.m3u8'') site_headers,
                              EvSave ''e30='']\<rparr>)"
    using cache_probe_outcomes [where env = env_site, OF watch_url_channel h2 h3 h4, THEN conjunct2, THEN conjunct2]
    by (simp add: env_site_def dict_get_def get_session_def emit_def st_cached_def st_init_def
          invalidate_def save_cache_def dict_del_def encode_empty_cache)
  from live stale show ?thesis by (rule conjI)
qed

text \<open>The theorem on an entry whose \<^verbatim>\<open>destination_url\<close> is the empty text.\<close>

theorem no_probe_without_url_witness:
  "extract_dlhd env_site ''https://daddylive.sx/watch.php?id=5'' False st_nourl
     = extract_dlhd env_site ''https://daddylive.sx/watch.php?id=5'' True
         (st_nourl\<lparr>stream_data_cache := [], cache_file := Some ''e30='', trace := [EvSave ''e30='']\<rparr>)
   \<and> probes (trace (snd (extract_dlhd env_site ''https://daddylive.sx/watch.php?id=5'' False st_nourl))) = []"
proof -
  have h2: "''5'' \<noteq> []" by simp
  have h3: "map_of (stream_data_cache st_nourl) ''5'' = Some (PDict [(''destination_url'', PStr [])])"
    by (simp add: st_nourl_def)
  have h4: "\<not> truthy (dict_get [(''destination_url'', PStr [])] ''destination_url'')"
    by (simp add: dict_get_def)
  note th = no_probe_without_url [where env = env_site, OF watch_url_channel h2 h3 h4]
  have a: "extract_dlhd env_site ''https://daddylive.sx/watch.php?id=5'' False st_nourl
     = extract_dlhd env_site ''https://daddylive.sx/watch.php?id=5'' True
         (st_nourl\<lparr>stream_data_cache := [], cache_file := Some ''e30='', trace := [EvSave ''e30='']\<rparr>)"
    using th [THEN conjunct1]
    by (simp add: env_site_def emit_def st_nourl_def st_init_def invalidate_def save_cache_def dict_del_def
          encode_empty_cache)
  have b: "probes (trace (snd (extract_dlhd env_site ''https://daddylive.sx/watch.php?id=5'' False st_nourl))) = []"
    using th [THEN conjunct2, THEN conjunct1] by (simp add: st_nourl_def st_init_def)
  from a b show ?thesis by (rule conjI)
qed

section \<open>Results about channel ID extraction\<close>

lemma star_rests_split:
  "s' \<in> set (star_rests P s) \<Longrightarrow> \<exists>pre. s = pre @ s' \<and> (\<forall>c \<in> set pre. P c)"
proof (induction s)
  case Nil
  then show ?case by simp
next
  case (Cons a s)
  show ?case
  proof (cases "s' = a # s")
    case True
    then show ?thesis by simp
  next
    case False
    with Cons.prems have pa: "P a" and m: "s' \<in> set (star_rests P s)"
      by (auto split: if_splits)
    from Cons.IH [OF m] obtain pre where "s = pre @ s'" "\<forall>c \<in> set pre. P c" by blast
    with pa have "a # s = (a # pre) @ s' \<and> (\<forall>c \<in> set (a # pre). P c)" by simp
    then show ?thesis by blast
  qed
qed

lemma ms_plus_digit:
  assumes "st' \<in> set (ms ic (Plus Digit) st)"
  shows "numeric (take (length (fst st) - length (fst st')) (fst st))"
proof -
  from assms obtain a s where st: "fst st = a # s" and a: "in_cls Digit a"
    and m: "fst st' \<in> set (star_rests (in_cls Digit) s)"
    by (cases "fst st") (auto simp del: in_cls.simps split: if_splits)
  from star_rests_split [OF m] obtain pre where p: "s = pre @ fst st'" "\<forall>c \<in> set pre. in_cls Digit c"
    by blast
  have "take (length (fst st) - length (fst st')) (fst st) = a # pre"
    using st p by simp
  with a p show ?thesis by (auto simp: numeric_def)
qed

lemma ms_capture:
  "caps_digits r \<Longrightarrow> st' \<in> set (ms ic r st) \<Longrightarrow>
   snd st' = snd st \<or> (\<exists>g. snd st' = Some g \<and> numeric g)"
proof (induction r arbitrary: st st')
  case (Grp r)
  from Grp.prems(2) obtain st1 where s1: "st1 \<in> set (ms ic r st)"
    and s': "snd st' = Some (take (length (fst st) - length (fst st1)) (fst st))"
    by auto
  from Grp.prems(1) have "r = Plus Digit" by simp
  with s1 have "numeric (take (length (fst st) - length (fst st1)) (fst st))"
    by (simp only: ms_plus_digit)
  with s' show ?case by simp
next
  case (Seq a b)
  from Seq.prems obtain st1 where s1: "st1 \<in> set (ms ic a st)" and s2: "st' \<in> set (ms ic b st1)"
    by auto
  from Seq.IH(1) [OF _ s1] Seq.IH(2) [OF _ s2] Seq.prems(1) show ?case by auto
next
  case (Alt a b)
  from Alt.prems have ca: "caps_digits a" and cb: "caps_digits b" by simp_all
  from Alt.prems(2) consider "st' \<in> set (ms ic a st)" | "st' \<in> set (ms ic b st)" by auto
  then show ?case
  proof cases
    case 1
    from Alt.IH(1) [OF ca 1] show ?thesis .
  next
    case 2
    from Alt.IH(2) [OF cb 2] show ?thesis .
  qed
next
  case (Opt r)
  from Opt.prems have cr: "caps_digits r" by simp
  from Opt.prems(2) consider "st' \<in> set (ms ic r st)" | "st' = st" by auto
  then show ?case
  proof cases
    case 1
    from Opt.IH [OF cr 1] show ?thesis .
  next
    case 2
    then show ?thesis by simp
  qed
qed (auto split: if_splits list.splits)

lemma ms_binds:
  "binds r \<Longrightarrow> caps_digits r \<Longrightarrow> st' \<in> set (ms ic r st) \<Longrightarrow> \<exists>g. snd st' = Some g \<and> numeric g"
proof (induction r arbitrary: st st')
  case (Grp r)
  from Grp.prems(3) obtain st1 where s1: "st1 \<in> set (ms ic r st)"
    and s': "snd st' = Some (take (length (fst st) - length (fst st1)) (fst st))"
    by auto
  from Grp.prems(2) have "r = Plus Digit" by simp
  with s1 have "numeric (take (length (fst st) - length (fst st1)) (fst st))"
    by (simp only: ms_plus_digit)
  with s' show ?case by simp
next
  case (Seq a b)
  from Seq.prems obtain st1 where s1: "st1 \<in> set (ms ic a st)" and s2: "st' \<in> set (ms ic b st1)"
    by auto
  show ?case
  proof (cases "binds a")
    case True
    from Seq.IH(1) [OF True _ s1] Seq.prems obtain g where "snd st1 = Some g" "numeric g" by auto
    with ms_capture [OF _ s2] Seq.prems show ?thesis by auto
  next
    case False
    with Seq.prems have "binds b" by simp
    from Seq.IH(2) [OF this _ s2] Seq.prems show ?thesis by auto
  qed
next
  case (Alt a b)
  from Alt.prems have ba: "binds a" "caps_digits a" and bb: "binds b" "caps_digits b" by simp_all
  from Alt.prems(3) consider "st' \<in> set (ms ic a st)" | "st' \<in> set (ms ic b st)" by auto
  then show ?case
  proof cases
    case 1
    from Alt.IH(1) [OF ba 1] show ?thesis .
  next
    case 2
    from Alt.IH(2) [OF bb 2] show ?thesis .
  qed
qed auto

lemma match_at_numeric:
  "binds r \<Longrightarrow> caps_digits r \<Longrightarrow> match_at ic r s = Some m \<Longrightarrow> \<exists>g. snd m = Some g \<and> numeric g"
  using ms_binds [of r m ic "(s, None)"] by (auto simp: match_at_def split: list.splits)

lemma re_search_numeric:
  "binds r \<Longrightarrow> caps_digits r \<Longrightarrow> re_search ic r s = Some m \<Longrightarrow> \<exists>g. snd m = Some g \<and> numeric g"
  by (induction s) (auto dest: match_at_numeric split: option.splits)

lemma first_group_first:
  "i < length ps \<Longrightarrow> re_search True (ps ! i) s = Some m \<Longrightarrow>
   (\<forall>j < i. re_search True (ps ! j) s = None) \<Longrightarrow> first_group ps s = snd m"
proof (induction ps arbitrary: i)
  case Nil
  then show ?case by simp
next
  case (Cons p ps)
  show ?case
  proof (cases i)
    case 0
    with Cons.prems show ?thesis by simp
  next
    case (Suc k)
    with Cons.prems have p: "re_search True p s = None" by auto
    from Suc Cons.prems have "first_group ps s = snd m"
      by (intro Cons.IH [of k]) auto
    with p show ?thesis by simp
  qed
qed

lemma first_group_none:
  "(\<forall>p \<in> set ps. re_search True p s = None) \<Longrightarrow> first_group ps s = None"
  by (induction ps) auto

lemma channel_id_patterns_bind: "\<forall>p \<in> set channel_id_patterns. binds p \<and> caps_digits p"
  by (simp add: channel_id_patterns_def)

lemma landing_url_no_match: "\<forall>p \<in> set channel_id_patterns. re_search True p ''https://daddylive.sx/'' = None"
  by code_simp

lemma watch_url_third_pattern:
  "re_search True (channel_id_patterns ! 2) ''https://daddylive.sx/watch.php?id=5'' = Some ([], Some ''5'')
   \<and> (\<forall>j < 2. re_search True (channel_id_patterns ! j) ''https://daddylive.sx/watch.php?id=5'' = None)"
  by code_simp

lemma code_less_256 [simp]: "code c < 256"
  by (simp add: code_def)

lemma char_of_code [simp]: "char_of (code c) = c"
  by (simp add: code_def)

lemma code_char_of [simp]: "n < 256 \<Longrightarrow> code (char_of n) = n"
  by (simp add: code_def)

lemma code_inj: "code a = code b \<Longrightarrow> a = b"
  by (metis char_of_code)

lemma code_lower_char:
  "code (lower_char a) = (if 65 \<le> code a \<and> code a \<le> 90 then code a + 32 else code a)"
  by (simp add: lower_char_def)

lemma lower_same_letter: "(lower_char a = lower_char b) = same_letter a b"
proof -
  have "(lower_char a = lower_char b) = (code (lower_char a) = code (lower_char b))"
    using code_inj by auto
  also have "\<dots> = same_letter a b"
  proof -
    have e: "(a = b) = (code a = code b)" using code_inj by auto
    show ?thesis unfolding same_letter_def e code_lower_char by (simp; arith)
  qed
  finally show ?thesis .
qed

lemma lit_caseless: "lit_eq True s l = list_all2 same_letter s l"
proof -
  have "(map lower_char s = map lower_char l) = list_all2 (\<lambda>a b. lower_char a = lower_char b) s l"
    by (simp add: list_all2_map1 list_all2_map2 flip: list.rel_eq)
  then show ?thesis by (simp add: lit_eq_def lower_same_letter)
qed

lemma lit_starts:
  "(length l \<le> length t \<and> lit_eq True (take (length l) t) l) = starts_caseless t l"
  by (simp add: starts_caseless_def lit_caseless)

lemma starts_caseless_append:
  "starts_caseless t (a @ b) = (starts_caseless t a \<and> starts_caseless (drop (length a) t) b)"
proof (cases "length a + length b \<le> length t")
  case True
  have t: "take (length a + length b) t = take (length a) t @ take (length b) (drop (length a) t)"
    by (simp add: take_add)
  have "list_all2 same_letter (take (length a) t @ take (length b) (drop (length a) t)) (a @ b)
        = (list_all2 same_letter (take (length a) t) a \<and> list_all2 same_letter (take (length b) (drop (length a) t)) b)"
    using True by (intro list_all2_append) simp
  with True t show ?thesis by (auto simp: starts_caseless_def)
next
  case False
  then show ?thesis by (auto simp: starts_caseless_def)
qed

lemma starts_caseless_lower:
  "starts_caseless t p \<Longrightarrow> map lower_char (take (length p) t) = map lower_char p"
  using lit_caseless [of "take (length p) t" p] by (simp add: starts_caseless_def lit_eq_def)

lemma starts_caseless_two:
  assumes "starts_caseless t p" and "starts_caseless t q" and "length p \<le> length q"
  shows "map lower_char p = take (length p) (map lower_char q)"
proof -
  have "take (length p) (map lower_char q) = take (length p) (map lower_char (take (length q) t))"
    using starts_caseless_lower [OF assms(2)] by simp
  also have "\<dots> = map lower_char (take (length p) t)"
    using assms(3) by (simp add: take_map min_def)
  also have "\<dots> = map lower_char p" by (rule starts_caseless_lower [OF assms(1)])
  finally show ?thesis by simp
qed

text \<open>The matcher on a literal, on a choice and on the greedy group of digits.\<close>

lemma ms_lit_seq:
  "ms True (Seq (Lit l) K) (t, c) = (if starts_caseless t l then ms True K (drop (length l) t, c) else [])"
  using lit_starts [of l t] by auto

lemma ms_lit:
  "ms True (Lit l) (t, c) = (if starts_caseless t l then [(drop (length l) t, c)] else [])"
  using lit_starts [of l t] by auto

lemma ms_lit_alt:
  "ms True (Seq (Lit l) (Seq (Alt a b) K)) st
     = ms True (Seq (Lit l) (Seq a K)) st @ ms True (Seq (Lit l) (Seq b K)) st"
  by simp

lemma ms_alt_seq: "ms True (Seq (Alt a b) K) st = ms True (Seq a K) st @ ms True (Seq b K) st"
  by simp

lemma ms_lit_lit: "ms True (Seq (Lit a) (Seq (Lit b) K)) (t, c) = ms True (Seq (Lit (a @ b)) K) (t, c)"
  unfolding ms_lit_seq starts_caseless_append by (simp add: add.commute)

lemma star_rests_greedy:
  "\<exists>xs. star_rests P s = dropWhile P s # xs \<and> (\<forall>x \<in> set xs. x \<noteq> [] \<and> P (hd x))"
proof (induction s)
  case Nil
  then show ?case by simp
next
  case (Cons a s)
  then obtain xs where x: "star_rests P s = dropWhile P s # xs" "\<forall>x \<in> set xs. x \<noteq> [] \<and> P (hd x)"
    by blast
  show ?case
  proof (cases "P a")
    case True
    with x have "star_rests P (a # s) = dropWhile P (a # s) # (xs @ [a # s])
        \<and> (\<forall>x \<in> set (xs @ [a # s]). x \<noteq> [] \<and> P (hd x))" by auto
    then show ?thesis by blast
  next
    case False
    then show ?thesis by simp
  qed
qed

lemma in_cls_decimal: "in_cls Digit = decimal"
  by (rule ext) (simp add: decimal_def)

lemma take_while_length: "take (length u - length (dropWhile P u)) u = takeWhile P u"
proof -
  have "length u = length (takeWhile P u) + length (dropWhile P u)"
    by (metis length_append takeWhile_dropWhile_id)
  then have "length u - length (dropWhile P u) = length (takeWhile P u)" by simp
  then show ?thesis by (simp add: takeWhile_eq_take [symmetric])
qed

lemma ms_digits_none: "takeWhile decimal u = [] \<Longrightarrow> ms ic (Grp (Plus Digit)) (u, c) = []"
  by (cases u) (auto simp: in_cls_decimal simp del: in_cls.simps split: if_splits)

lemma ms_digits_some:
  assumes "takeWhile decimal u \<noteq> []"
  shows "\<exists>xs. ms ic (Grp (Plus Digit)) (u, c) = (dropWhile decimal u, Some (takeWhile decimal u)) # xs
           \<and> (\<forall>x \<in> set xs. fst x \<noteq> [] \<and> decimal (hd (fst x)))"
proof -
  from assms obtain a s where u: "u = a # s" and a: "decimal a"
    by (cases u) (auto split: if_splits)
  from star_rests_greedy [of decimal s] obtain ys where
    y: "star_rests decimal s = dropWhile decimal s # ys" "\<forall>x \<in> set ys. x \<noteq> [] \<and> decimal (hd x)" by blast
  have d: "dropWhile decimal u = dropWhile decimal s" using u a by simp
  let ?f = "\<lambda>s'. (s', Some (take (length u - length s') u))"
  have "ms ic (Grp (Plus Digit)) (u, c) = map ?f (star_rests decimal s)"
    using u a by (simp add: in_cls_decimal comp_def del: in_cls.simps)
  also have "\<dots> = ?f (dropWhile decimal u) # map ?f ys" using y d by simp
  also have "?f (dropWhile decimal u) = (dropWhile decimal u, Some (takeWhile decimal u))"
    by (simp add: take_while_length)
  finally have "ms ic (Grp (Plus Digit)) (u, c) = (dropWhile decimal u, Some (takeWhile decimal u)) # map ?f ys" .
  moreover have "\<forall>x \<in> set (map ?f ys). fst x \<noteq> [] \<and> decimal (hd (fst x))" using y by auto
  ultimately show ?thesis by blast
qed

lemma concat_all_empty: "(\<forall>x \<in> set xs. f x = []) \<Longrightarrow> concat (map f xs) = []"
  by (induction xs) auto

lemma ms_group_then:
  assumes r: "\<And>d w c. decimal d \<Longrightarrow> ms ic K (d # w, c) = []"
  shows "ms ic (Seq (Grp (Plus Digit)) K) (u, c)
           = (if takeWhile decimal u = [] then []
              else ms ic K (dropWhile decimal u, Some (takeWhile decimal u)))"
proof (cases "takeWhile decimal u = []")
  case True
  then show ?thesis using ms_digits_none [OF True, of ic c] by simp
next
  case False
  from ms_digits_some [OF False, of ic c] obtain xs where
    x: "ms ic (Grp (Plus Digit)) (u, c) = (dropWhile decimal u, Some (takeWhile decimal u)) # xs"
       "\<forall>x \<in> set xs. fst x \<noteq> [] \<and> decimal (hd (fst x))" by blast
  have "\<forall>x \<in> set xs. ms ic K x = []"
  proof
    fix x assume "x \<in> set xs"
    with x(2) have "fst x \<noteq> []" "decimal (hd (fst x))" by auto
    then obtain d w where "fst x = d # w" "decimal d" by (cases "fst x") auto
    with r [of d w "snd x"] show "ms ic K x = []" by (cases x) simp
  qed
  then have "concat (map (ms ic K) xs) = []" by (rule concat_all_empty)
  with x(1) False show ?thesis by (simp del: ms.simps(8) add: ms.simps(7))
qed

lemma no_digit_letter: "decimal d \<Longrightarrow> \<not> same_letter d CHR ''.'' \<and> \<not> same_letter d CHR ''/''"
  by (auto simp: decimal_def same_letter_def code_def)

lemma lit_rejects_digit:
  "decimal d \<Longrightarrow> sfx \<noteq> [] \<Longrightarrow> hd sfx = CHR ''.'' \<or> hd sfx = CHR ''/'' \<Longrightarrow> \<not> starts_caseless (d # w) sfx"
  using no_digit_letter [of d] by (cases sfx) (auto simp: starts_caseless_def)

lemma tail_rejects_digit:
  assumes "sfx \<noteq> []" and "hd sfx = CHR ''.'' \<or> hd sfx = CHR ''/''" and "decimal d"
  shows "ms True (Lit sfx) (d # w, c) = []" and "ms True (Seq (Lit sfx) Eos) (d # w, c) = []"
  using lit_rejects_digit [OF assms(3,1,2), of w] by (simp_all only: ms_lit ms_lit_seq if_False)

text \<open>A pattern of one lead, the group and a tail; with the end of the text; with no tail.\<close>

lemma cand_tail:
  assumes "sfx \<noteq> []" and "hd sfx = CHR ''.'' \<or> hd sfx = CHR ''/''"
    and "tail sh = sfx" and "\<not> at_end sh"
  shows "ms True (Seq (Lit p) (Seq (Grp (Plus Digit)) (Lit sfx))) (t, None)
           = (case group_after sh p t of None \<Rightarrow> []
              | Some g \<Rightarrow> [(drop (length sfx) (dropWhile decimal (drop (length p) t)), Some g)])"
proof -
  have g: "\<And>u c. ms True (Seq (Grp (Plus Digit)) (Lit sfx)) (u, c)
           = (if takeWhile decimal u = [] then []
              else ms True (Lit sfx) (dropWhile decimal u, Some (takeWhile decimal u)))"
    by (rule ms_group_then) (rule tail_rejects_digit(1) [OF assms(1,2)])
  show ?thesis using assms(3,4)
    by (simp add: g ms_lit ms_lit_seq group_after_def Let_def del: ms.simps)
qed

lemma cand_end:
  assumes "sfx \<noteq> []" and "hd sfx = CHR ''.'' \<or> hd sfx = CHR ''/''"
    and "tail sh = sfx" and "at_end sh"
  shows "ms True (Seq (Lit p) (Seq (Grp (Plus Digit)) (Seq (Lit sfx) Eos))) (t, None)
           = (case group_after sh p t of None \<Rightarrow> []
              | Some g \<Rightarrow> [(drop (length sfx) (dropWhile decimal (drop (length p) t)), Some g)])"
proof -
  have g: "\<And>u c. ms True (Seq (Grp (Plus Digit)) (Seq (Lit sfx) Eos)) (u, c)
           = (if takeWhile decimal u = [] then []
              else ms True (Seq (Lit sfx) Eos) (dropWhile decimal u, Some (takeWhile decimal u)))"
    by (rule ms_group_then) (rule tail_rejects_digit(2) [OF assms(1,2)])
  have e: "\<And>st. ms True Eos st = (if fst st = [] \<or> fst st = [CHR 0x0A] then [st] else [])" by simp
  show ?thesis using assms(3,4)
    by (simp add: g e ms_lit_seq group_after_def Let_def del: ms.simps)
qed

lemma cand_last:
  assumes "tail sh = []" and "\<not> at_end sh"
  shows "case group_after sh p t of
           None \<Rightarrow> ms True (Seq (Lit p) (Grp (Plus Digit))) (t, None) = []
         | Some g \<Rightarrow> (\<exists>r xs. ms True (Seq (Lit p) (Grp (Plus Digit))) (t, None) = (r, Some g) # xs)"
proof (cases "starts_caseless t p")
  case False
  then show ?thesis by (simp add: group_after_def ms_lit_seq del: ms.simps)
next
  case True
  show ?thesis
  proof (cases "takeWhile decimal (drop (length p) t) = []")
    case e: True
    with True assms show ?thesis
      using ms_digits_none [OF e, of True None]
      by (simp add: group_after_def ms_lit_seq Let_def del: ms.simps)
  next
    case n: False
    from ms_digits_some [OF n, of True None] obtain xs where
      "ms True (Grp (Plus Digit)) (drop (length p) t, None)
         = (dropWhile decimal (drop (length p) t), Some (takeWhile decimal (drop (length p) t))) # xs"
      by blast
    with True n assms show ?thesis
      by (simp add: group_after_def ms_lit_seq Let_def starts_caseless_def del: ms.simps)
  qed
qed

lemma group_after_starts: "group_after sh p t = Some g \<Longrightarrow> starts_caseless t p"
  by (simp add: group_after_def split: if_splits)

lemma group_after_numeric: "group_after sh p t = Some g \<Longrightarrow> numeric g"
proof -
  assume "group_after sh p t = Some g"
  then have g: "g = takeWhile decimal (drop (length p) t)" "g \<noteq> []"
    by (auto simp: group_after_def Let_def split: if_splits)
  have "\<forall>c \<in> set (takeWhile decimal (drop (length p) t)). decimal c"
    by (meson set_takeWhileD)
  with g show ?thesis by (simp add: numeric_def decimal_def)
qed

lemma starts_caseless_common:
  assumes "starts_caseless t p" and "starts_caseless t q"
  shows "take (min (length p) (length q)) (map lower_char p) = take (min (length p) (length q)) (map lower_char q)"
proof (cases "length p \<le> length q")
  case True
  with starts_caseless_two [OF assms True] show ?thesis by (simp add: min_def)
next
  case False
  then have "length q \<le> length p" by simp
  with starts_caseless_two [OF assms(2,1) this] show ?thesis by (simp add: min_def)
qed

lemma leads_exclusive:
  assumes "i < length id_shapes" and "p \<in> set (leads (id_shapes ! i))" and "q \<in> set (leads (id_shapes ! i))"
    and "starts_caseless t p" and "starts_caseless t q"
  shows "p = q"
proof -
  have i: "i = 0 \<or> i = 1 \<or> i = 2 \<or> i = 3 \<or> i = 4"
    using assms(1) by (simp add: id_shapes_def) arith
  from starts_caseless_common [OF assms(4,5)] assms(2,3) i show ?thesis
    by (auto simp: id_shapes_def lower_char_def code_def)
qed

lemma pattern_0: "ms True (channel_id_patterns ! 0) (t, None) = cands (id_shapes ! 0) t"
  using cand_end [of "''/mono.m3u8''" "id_shapes ! 0" "''/premium''" t]
  by (simp add: channel_id_patterns_def id_shapes_def cands_def del: ms.simps cong: option.case_cong)

lemma pattern_1: "ms True (channel_id_patterns ! 1) (t, None) = cands (id_shapes ! 1) t"
  using cand_tail [of "''.php''" "id_shapes ! 1" "''/watch/stream-''" t]
    cand_tail [of "''.php''" "id_shapes ! 1" "''/stream/stream-''" t]
    cand_tail [of "''.php''" "id_shapes ! 1" "''/cast/stream-''" t]
    cand_tail [of "''.php''" "id_shapes ! 1" "''/player/stream-''" t]
  by (simp add: channel_id_patterns_def id_shapes_def cands_def ms_lit_alt ms_lit_lit del: ms.simps cong: option.case_cong)

lemma pattern_3: "ms True (channel_id_patterns ! 3) (t, None) = cands (id_shapes ! 3) t"
  using cand_tail [of "''.php''" "id_shapes ! 3" "''%2Fstream-''" t]
    cand_tail [of "''.php''" "id_shapes ! 3" "''/stream-''" t]
  by (simp add: channel_id_patterns_def id_shapes_def cands_def ms_alt_seq ms_lit_lit del: ms.simps cong: option.case_cong)

lemma pattern_4: "ms True (channel_id_patterns ! 4) (t, None) = cands (id_shapes ! 4) t"
  using cand_tail [of "''.php''" "id_shapes ! 4" "''stream-''" t]
  by (simp add: channel_id_patterns_def id_shapes_def cands_def del: ms.simps cong: option.case_cong)

lemma pattern_2:
  "case group_after (id_shapes ! 2) ''watch.php?id='' t of
     None \<Rightarrow> ms True (channel_id_patterns ! 2) (t, None) = []
   | Some g \<Rightarrow> (\<exists>r xs. ms True (channel_id_patterns ! 2) (t, None) = (r, Some g) # xs)"
  using cand_last [of "id_shapes ! 2" "''watch.php?id=''" t]
  by (simp add: channel_id_patterns_def id_shapes_def del: ms.simps cong: option.case_cong)

lemma cands_none: "\<forall>p \<in> set (leads sh). group_after sh p t = None \<Longrightarrow> cands sh t = []"
  unfolding cands_def by (rule concat_all_empty) simp

lemma cands_some:
  assumes "p \<in> set (leads sh)" and "group_after sh p t = Some g"
    and "\<forall>q \<in> set (leads sh). q \<noteq> p \<longrightarrow> group_after sh q t = None"
  shows "\<exists>r xs. cands sh t = (r, Some g) # xs"
proof -
  let ?f = "\<lambda>p. case group_after sh p t of None \<Rightarrow> []
                       | Some g \<Rightarrow> [(drop (length (tail sh)) (dropWhile decimal (drop (length p) t)), Some g)]"
  have "p \<in> set L \<Longrightarrow> \<forall>q \<in> set L. q \<noteq> p \<longrightarrow> group_after sh q t = None
        \<Longrightarrow> \<exists>r xs. concat (map ?f L) = (r, Some g) # xs" for L
  proof (induction L)
    case Nil
    then show ?case by simp
  next
    case (Cons a L)
    show ?case
    proof (cases "a = p")
      case True
      with assms(2) show ?thesis by simp
    next
      case False
      with Cons.prems have "group_after sh a t = None" and "p \<in> set L"
        and "\<forall>q \<in> set L. q \<noteq> p \<longrightarrow> group_after sh q t = None" by auto
      with Cons.IH show ?thesis by simp
    qed
  qed
  from this [OF assms(1,3)] show ?thesis by (simp add: cands_def)
qed

lemma others_none:
  assumes "i < length id_shapes" and "p \<in> set (leads (id_shapes ! i))"
    and "group_after (id_shapes ! i) p t = Some g"
  shows "\<forall>q \<in> set (leads (id_shapes ! i)). q \<noteq> p \<longrightarrow> group_after (id_shapes ! i) q t = None"
proof (intro ballI impI)
  fix q assume q: "q \<in> set (leads (id_shapes ! i))" "q \<noteq> p"
  show "group_after (id_shapes ! i) q t = None"
  proof (rule ccontr)
    assume "group_after (id_shapes ! i) q t \<noteq> None"
    then obtain g' where "group_after (id_shapes ! i) q t = Some g'" by auto
    from leads_exclusive [OF assms(1,2) q(1) group_after_starts [OF assms(3)] group_after_starts [OF this]] q(2)
    show False by simp
  qed
qed

lemma five_shapes: "i < length id_shapes \<Longrightarrow> i = 0 \<or> i = 1 \<or> i = 2 \<or> i = 3 \<or> i = 4"
  by (simp add: id_shapes_def) arith

lemma match_begins:
  assumes "i < length id_shapes" and "begins (id_shapes ! i) t g"
  shows "\<exists>r. match_at True (channel_id_patterns ! i) t = Some (r, Some g)"
proof -
  from assms(2) obtain p where p: "p \<in> set (leads (id_shapes ! i))" "group_after (id_shapes ! i) p t = Some g"
    by (auto simp: begins_def)
  from cands_some [OF p others_none [OF assms(1) p]]
  obtain r xs where c: "cands (id_shapes ! i) t = (r, Some g) # xs" by blast
  from five_shapes [OF assms(1)] consider "i = 0" | "i = 1" | "i = 2" | "i = 3" | "i = 4" by blast
  then show ?thesis
  proof cases
    case 1
    with c pattern_0 [of t] show ?thesis by (simp add: match_at_def)
  next
    case 2
    with c pattern_1 [of t] show ?thesis by (simp add: match_at_def)
  next
    case 3
    with p have "group_after (id_shapes ! 2) ''watch.php?id='' t = Some g" by (simp add: id_shapes_def)
    with pattern_2 [of t] obtain r xs where "ms True (channel_id_patterns ! 2) (t, None) = (r, Some g) # xs"
      by auto
    with 3 show ?thesis by (simp add: match_at_def)
  next
    case 4
    with c pattern_3 [of t] show ?thesis by (simp add: match_at_def)
  next
    case 5
    with c pattern_4 [of t] show ?thesis by (simp add: match_at_def)
  qed
qed

lemma match_absent:
  assumes "i < length id_shapes" and "\<forall>p \<in> set (leads (id_shapes ! i)). group_after (id_shapes ! i) p t = None"
  shows "match_at True (channel_id_patterns ! i) t = None"
proof -
  note c = cands_none [OF assms(2)]
  from five_shapes [OF assms(1)] consider "i = 0" | "i = 1" | "i = 2" | "i = 3" | "i = 4" by blast
  then show ?thesis
  proof cases
    case 1
    with c pattern_0 [of t] show ?thesis by (simp add: match_at_def)
  next
    case 2
    with c pattern_1 [of t] show ?thesis by (simp add: match_at_def)
  next
    case 3
    with assms(2) have "group_after (id_shapes ! 2) ''watch.php?id='' t = None" by (simp add: id_shapes_def)
    with pattern_2 [of t] 3 show ?thesis by (simp add: match_at_def)
  next
    case 4
    with c pattern_3 [of t] show ?thesis by (simp add: match_at_def)
  next
    case 5
    with c pattern_4 [of t] show ?thesis by (simp add: match_at_def)
  qed
qed

text \<open>The search, position by position.\<close>

lemma re_search_at:
  "k \<le> length s \<Longrightarrow> match_at ic r (drop k s) = Some m \<Longrightarrow> (\<forall>j < k. match_at ic r (drop j s) = None)
   \<Longrightarrow> re_search ic r s = Some m"
proof (induction s arbitrary: k)
  case Nil
  then show ?case by simp
next
  case (Cons a s)
  show ?case
  proof (cases k)
    case 0
    with Cons.prems show ?thesis by simp
  next
    case (Suc n)
    with Cons.prems have z: "match_at ic r (a # s) = None" by force
    have "re_search ic r s = Some m"
    proof (rule Cons.IH [of n])
      show "n \<le> length s" using Suc Cons.prems by simp
      show "match_at ic r (drop n s) = Some m" using Suc Cons.prems by simp
      show "\<forall>j < n. match_at ic r (drop j s) = None"
      proof (intro allI impI)
        fix j assume "j < n"
        then have "Suc j < k" using Suc by simp
        with Cons.prems(3) have "match_at ic r (drop (Suc j) (a # s)) = None" by blast
        then show "match_at ic r (drop j s) = None" by simp
      qed
    qed
    with z show ?thesis by simp
  qed
qed

lemma re_search_nowhere:
  "(\<forall>k \<le> length s. match_at ic r (drop k s) = None) \<Longrightarrow> re_search ic r s = None"
proof (induction s)
  case Nil
  then show ?case by simp
next
  case (Cons a s)
  from Cons.prems have z: "match_at ic r (a # s) = None" by force
  have "\<forall>k \<le> length s. match_at ic r (drop k s) = None"
  proof (intro allI impI)
    fix k assume "k \<le> length s"
    then have "Suc k \<le> length (a # s)" by simp
    with Cons.prems have "match_at ic r (drop (Suc k) (a # s)) = None" by blast
    then show "match_at ic r (drop k s) = None" by simp
  qed
  with Cons.IH z show ?case by simp
qed

lemma search_first_occurrence:
  assumes "i < length id_shapes" and "first_occurrence (id_shapes ! i) url g"
  shows "\<exists>r. re_search True (channel_id_patterns ! i) url = Some (r, Some g)"
proof -
  from assms(2) obtain k where k0: "k \<in> set [0..<Suc (length url)]"
    and k2: "begins (id_shapes ! i) (drop k url) g"
    and k3: "\<forall>j \<in> set [0..<k]. \<not> occurs_at (id_shapes ! i) url j"
    unfolding first_occurrence_def by blast
  from k0 k3 have k1: "k \<le> length url" and k4: "\<forall>j < k. \<not> occurs_at (id_shapes ! i) url j"
    by auto
  note k = k1 k2 k4
  from match_begins [OF assms(1) k(2)] obtain r where
    m: "match_at True (channel_id_patterns ! i) (drop k url) = Some (r, Some g)" by blast
  have "\<forall>j < k. match_at True (channel_id_patterns ! i) (drop j url) = None"
  proof (intro allI impI)
    fix j assume "j < k"
    with k(3) have "\<forall>p \<in> set (leads (id_shapes ! i)). group_after (id_shapes ! i) p (drop j url) = None"
      by (auto simp: occurs_at_def)
    then show "match_at True (channel_id_patterns ! i) (drop j url) = None"
      by (rule match_absent [OF assms(1)])
  qed
  from re_search_at [OF k(1) m this] show ?thesis by blast
qed

lemma search_no_occurrence:
  assumes "i < length id_shapes" and "\<not> occurs (id_shapes ! i) url"
  shows "re_search True (channel_id_patterns ! i) url = None"
proof (rule re_search_nowhere, intro allI impI)
  fix k assume "k \<le> length url"
  with assms(2) have "\<forall>p \<in> set (leads (id_shapes ! i)). group_after (id_shapes ! i) p (drop k url) = None"
    by (auto simp: occurs_def occurs_at_def)
  then show "match_at True (channel_id_patterns ! i) (drop k url) = None"
    by (rule match_absent [OF assms(1)])
qed

lemma shapes_patterns: "length id_shapes = length channel_id_patterns"
  by (simp add: id_shapes_def channel_id_patterns_def)

text \<open>
  C7. For every URL: when a pattern of the ordered list occurs in it and none before it
  does, channel ID extraction returns the group of the leftmost occurrence of that
  pattern, all the digits that follow the lead, a non-empty text of digits; when no
  pattern occurs, extraction returns nothing and the whole request fails with the
  \<^verbatim>\<open>ExtractorError\<close> of line 507, wrapped by line 566, the state untouched: no request
  is made and no channel ID is produced. The occurrences are those of the shapes, which
  are written without the matcher; the last two parts say the same of the matcher itself.
\<close>

theorem channel_id_extraction:
  "(\<forall>i g. i < length id_shapes \<and> first_occurrence (id_shapes ! i) url g
           \<and> (\<forall>j < i. \<not> occurs (id_shapes ! j) url)
      \<longrightarrow> extract_channel_id url = Some g \<and> numeric g)
   \<and> ((\<forall>i < length id_shapes. \<not> occurs (id_shapes ! i) url)
      \<longrightarrow> extract_channel_id url = None
          \<and> extract_dlhd env url force st
              = (Inl (Exn ExtractorError
                   (''Estrazione DLHD completamente fallita: Impossibile estrarre channel ID da '' @ url)), st))
   \<and> (\<forall>i m. i < length channel_id_patterns \<and> re_search True (channel_id_patterns ! i) url = Some m
           \<and> (\<forall>j < i. re_search True (channel_id_patterns ! j) url = None)
      \<longrightarrow> (\<exists>g. extract_channel_id url = Some g \<and> snd m = Some g \<and> numeric g))
   \<and> ((\<forall>p \<in> set channel_id_patterns. re_search True p url = None)
      \<longrightarrow> extract_channel_id url = None
          \<and> extract_dlhd env url force st
              = (Inl (Exn ExtractorError
                   (''Estrazione DLHD completamente fallita: Impossibile estrarre channel ID da '' @ url)), st))"
proof -
  have fails: "extract_channel_id url = None \<Longrightarrow> extract_dlhd env url force st
              = (Inl (Exn ExtractorError
                   (''Estrazione DLHD completamente fallita: Impossibile estrarre channel ID da '' @ url)), st)"
    by (simp add: extract_dlhd_def catch_io_def raise_io_def)
  have none: "(\<forall>p \<in> set channel_id_patterns. re_search True p url = None) \<Longrightarrow> extract_channel_id url = None"
    unfolding extract_channel_id_def by (rule first_group_none)
  have a: "extract_channel_id url = Some g \<and> numeric g"
    if h: "i < length id_shapes \<and> first_occurrence (id_shapes ! i) url g
           \<and> (\<forall>j < i. \<not> occurs (id_shapes ! j) url)" for i g
  proof -
    from h have i: "i < length id_shapes" and f: "first_occurrence (id_shapes ! i) url g"
      and n: "\<forall>j < i. \<not> occurs (id_shapes ! j) url" by simp_all
    from search_first_occurrence [OF i f] obtain r where
      r: "re_search True (channel_id_patterns ! i) url = Some (r, Some g)" by blast
    have e: "\<forall>j < i. re_search True (channel_id_patterns ! j) url = None"
      using n i by (auto intro: search_no_occurrence)
    have "first_group channel_id_patterns url = snd (r, Some g)"
      using i r e by (intro first_group_first) (simp_all add: shapes_patterns)
    then have x: "extract_channel_id url = Some g" by (simp add: extract_channel_id_def)
    from f obtain k p where "group_after (id_shapes ! i) p (drop k url) = Some g"
      unfolding first_occurrence_def begins_def by blast
    from group_after_numeric [OF this] x show ?thesis by simp
  qed
  have b: "extract_channel_id url = None"
    if h: "\<forall>i < length id_shapes. \<not> occurs (id_shapes ! i) url"
  proof (rule none, rule ballI)
    fix p assume "p \<in> set channel_id_patterns"
    then obtain i where "i < length channel_id_patterns" "p = channel_id_patterns ! i"
      by (auto simp: in_set_conv_nth)
    with h show "re_search True p url = None"
      by (simp add: search_no_occurrence shapes_patterns)
  qed
  have c: "\<exists>g. extract_channel_id url = Some g \<and> snd m = Some g \<and> numeric g"
    if h: "i < length channel_id_patterns \<and> re_search True (channel_id_patterns ! i) url = Some m
           \<and> (\<forall>j < i. re_search True (channel_id_patterns ! j) url = None)" for i m
  proof -
    from h have fg: "extract_channel_id url = snd m"
      unfolding extract_channel_id_def by (intro first_group_first) auto
    from h channel_id_patterns_bind have "binds (channel_id_patterns ! i) \<and> caps_digits (channel_id_patterns ! i)"
      by (meson nth_mem)
    with h re_search_numeric obtain g where "snd m = Some g" "numeric g" by blast
    with fg show ?thesis by simp
  qed
  from a b c none fails show ?thesis by blast
qed

lemma below_two: "P 0 \<Longrightarrow> P (Suc 0) \<Longrightarrow> \<forall>j < (2::nat). P j"
  by (auto simp: less_Suc_eq numeral_2_eq_2)

lemma below_one: "P 0 \<Longrightarrow> \<forall>j < (1::nat). P j"
  by simp

lemma watch_123_shape:
  "first_occurrence (id_shapes ! 2) ''https://daddylive.sx/watch.php?id=123'' ''123''
   \<and> \<not> occurs (id_shapes ! 0) ''https://daddylive.sx/watch.php?id=123''
   \<and> \<not> occurs (id_shapes ! Suc 0) ''https://daddylive.sx/watch.php?id=123''"
  by code_simp

lemma upper_case_shape:
  "first_occurrence (id_shapes ! 2) ''HTTPS://DADDYLIVE.SX/WATCH.PHP?ID=12'' ''12''
   \<and> \<not> occurs (id_shapes ! 0) ''HTTPS://DADDYLIVE.SX/WATCH.PHP?ID=12''
   \<and> \<not> occurs (id_shapes ! Suc 0) ''HTTPS://DADDYLIVE.SX/WATCH.PHP?ID=12''"
  by code_simp

lemma stream_4711_shape:
  "first_occurrence (id_shapes ! 1) ''https://daddylive.sx/stream/stream-4711.php'' ''4711''
   \<and> \<not> occurs (id_shapes ! 0) ''https://daddylive.sx/stream/stream-4711.php''"
  by code_simp

lemma landing_no_shape: "\<forall>i < length id_shapes. \<not> occurs (id_shapes ! i) ''https://daddylive.sx/''"
proof -
  have "list_all (\<lambda>i. \<not> occurs (id_shapes ! i) ''https://daddylive.sx/'') [0..<length id_shapes]"
    by code_simp
  then show ?thesis by (simp add: list_all_iff)
qed

lemma two_newlines_no_shape:
  "\<forall>i < length id_shapes. \<not> occurs (id_shapes ! i) (''https://x.test/premium7/mono.m3u8'' @ [CHR 0x0A, CHR 0x0A])"
proof -
  have "list_all (\<lambda>i. \<not> occurs (id_shapes ! i) (''https://x.test/premium7/mono.m3u8'' @ [CHR 0x0A, CHR 0x0A]))
          [0..<length id_shapes]"
    by code_simp
  then show ?thesis by (simp add: list_all_iff)
qed

text \<open>
  The theorem on a watch URL with three digits, on the same kind of URL in upper case, on
  a stream URL, which the second pattern is the first to match, on a manifest URL followed
  by two newlines and on the landing URL, which no pattern matches.
\<close>

theorem channel_id_extraction_witness:
  "extract_channel_id ''https://daddylive.sx/watch.php?id=123'' = Some ''123''
   \<and> extract_channel_id ''HTTPS://DADDYLIVE.SX/WATCH.PHP?ID=12'' = Some ''12''
   \<and> extract_channel_id ''https://daddylive.sx/stream/stream-4711.php'' = Some ''4711''
   \<and> extract_channel_id ''https://daddylive.sx/watch.php?id=5'' = Some ''5''
   \<and> extract_channel_id (''https://x.test/premium7/mono.m3u8'' @ [CHR 0x0A, CHR 0x0A]) = None
   \<and> extract_channel_id ''https://daddylive.sx/'' = None
   \<and> extract_dlhd env_site ''https://daddylive.sx/'' False st_init
       = (Inl (Exn ExtractorError
            ''Estrazione DLHD completamente fallita: Impossibile estrarre channel ID da https://daddylive.sx/''),
          st_init)"
proof -
  have i1: "(1::nat) < length id_shapes" and i2: "(2::nat) < length id_shapes"
    by (simp_all add: id_shapes_def)
  have l: "(2::nat) < length channel_id_patterns" by (simp add: channel_id_patterns_def)
  note w = watch_123_shape
  from channel_id_extraction [where url = "''https://daddylive.sx/watch.php?id=123''", THEN conjunct1,
      rule_format, of 2 "''123''",
      OF conjI [OF i2 conjI [OF w [THEN conjunct1]
        below_two [of "\<lambda>j. \<not> occurs (id_shapes ! j) ''https://daddylive.sx/watch.php?id=123''",
          OF w [THEN conjunct2, THEN conjunct1] w [THEN conjunct2, THEN conjunct2]]]]]
  have a: "extract_channel_id ''https://daddylive.sx/watch.php?id=123'' = Some ''123''" by simp
  note u = upper_case_shape
  from channel_id_extraction [where url = "''HTTPS://DADDYLIVE.SX/WATCH.PHP?ID=12''", THEN conjunct1,
      rule_format, of 2 "''12''",
      OF conjI [OF i2 conjI [OF u [THEN conjunct1]
        below_two [of "\<lambda>j. \<not> occurs (id_shapes ! j) ''HTTPS://DADDYLIVE.SX/WATCH.PHP?ID=12''",
          OF u [THEN conjunct2, THEN conjunct1] u [THEN conjunct2, THEN conjunct2]]]]]
  have b: "extract_channel_id ''HTTPS://DADDYLIVE.SX/WATCH.PHP?ID=12'' = Some ''12''" by simp
  note s = stream_4711_shape
  from channel_id_extraction [where url = "''https://daddylive.sx/stream/stream-4711.php''", THEN conjunct1,
      rule_format, of 1 "''4711''",
      OF conjI [OF i1 conjI [OF s [THEN conjunct1]
        below_one [of "\<lambda>j. \<not> occurs (id_shapes ! j) ''https://daddylive.sx/stream/stream-4711.php''",
          OF s [THEN conjunct2]]]]]
  have c: "extract_channel_id ''https://daddylive.sx/stream/stream-4711.php'' = Some ''4711''" by simp
  from channel_id_extraction [where url = "''https://daddylive.sx/watch.php?id=5''",
      THEN conjunct2, THEN conjunct2, THEN conjunct1, rule_format,
      of 2 "([], Some ''5'')", OF conjI [OF l watch_url_third_pattern]]
  have d: "extract_channel_id ''https://daddylive.sx/watch.php?id=5'' = Some ''5''" by auto
  from channel_id_extraction [where url = "''https://x.test/premium7/mono.m3u8'' @ [CHR 0x0A, CHR 0x0A]",
      THEN conjunct2, THEN conjunct1, THEN mp, OF two_newlines_no_shape]
  have e: "extract_channel_id (''https://x.test/premium7/mono.m3u8'' @ [CHR 0x0A, CHR 0x0A]) = None" by simp
  from channel_id_extraction [where url = "''https://daddylive.sx/''" and env = env_site and force = False
      and st = st_init, THEN conjunct2, THEN conjunct1, THEN mp, OF landing_no_shape]
  have f: "extract_channel_id ''https://daddylive.sx/'' = None
   \<and> extract_dlhd env_site ''https://daddylive.sx/'' False st_init
       = (Inl (Exn ExtractorError
            ''Estrazione DLHD completamente fallita: Impossibile estrarre channel ID da https://daddylive.sx/''),
          st_init)"
    by simp
  from channel_id_extraction [where url = "''https://daddylive.sx/''" and env = env_site and force = False
      and st = st_init, THEN conjunct2, THEN conjunct2, THEN conjunct2, THEN mp, OF landing_url_no_match]
  have g: "extract_channel_id ''https://daddylive.sx/'' = None" by simp
  from a b c d e f g show ?thesis by simp
qed

section \<open>Results about the Parameter Decoder\<close>


lemma site_page_xjz:
  "extract_xjz_format site_page
     = Some [(''b_host'', PStr ''https://a.test/''), (''b_script'', PStr ''a.php''), (''b_ts'', PStr ''1''),
             (''b_rnd'', PStr ''2''), (''b_sig'', PStr ''s+'')]"
  by code_simp

lemma page_partial_xjz: "extract_xjz_format page_partial = Some [(''b_host'', PStr ''h'')]"
  by code_simp

lemma page_bundle_results:
  "extract_xjz_format page_bundle = None \<and> extract_bundle_format page_bundle = Some [(''b_ts'', PStr ''7'')]"
  by code_simp




section \<open>Results about missing parameters and the handshake\<close>

lemma grows_trace: "grows st st' \<Longrightarrow> \<exists>evs. trace st' = trace st @ evs"
  by (auto simp: grows_def)

lemma robust_loop_first_get:
  assumes "0 < retries"
  shows "\<exists>evs. trace (snd (robust_loop env url h retries d 0 st)) = trace (get_session st) @ EvGet url h # evs"
proof -
  let ?s2 = "emit (EvGet url h) (get_session st)"
  have base: "trace ?s2 = trace (get_session st) @ [EvGet url h]" by simp
  have ext: "\<exists>evs. trace s' = trace (get_session st) @ EvGet url h # evs" if "grows ?s2 s'" for s'
    using grows_trace [OF that] by auto
  have c: "grows ?s2 (close_session ?s2)" by (rule grows_close_session)
  show ?thesis
  proof (cases "attempt_outcome env (trace (get_session st)) url h")
    case (Inr resp)
    with assms show ?thesis by (subst robust_loop.simps) (simp add: Let_def)
  next
    case (Inl e)
    let ?s3 = "if 0 = retries - 1 then close_session ?s2 else ?s2"
    have g3: "grows ?s2 ?s3" using c by simp
    show ?thesis
    proof (cases "is_transport (cls e)")
      case True
      show ?thesis
      proof (cases "0 < retries - 1")
        case lt: True
        let ?s4 = "emit (EvSleep (d * 2 ^ 0)) ?s3"
        have "grows ?s2 ?s4" by (rule grows_trans [OF g3]) (simp add: grows_emit)
        then have "grows ?s2 (snd (robust_loop env url h retries d (Suc 0) ?s4))"
          by (rule grows_trans) (rule grows_robust_loop)
        from ext [OF this] show ?thesis using assms Inl True lt
          by (subst robust_loop.simps) (simp add: Let_def)
      next
        case False
        from ext [OF g3] show ?thesis using assms Inl True False
          by (subst robust_loop.simps) (simp add: Let_def)
      qed
    next
      case nt: False
      show ?thesis
      proof (cases "0 = retries - 1")
        case True
        from ext [OF grows_refl] show ?thesis using assms Inl nt True
          by (subst robust_loop.simps) (simp add: Let_def)
      next
        case False
        let ?s4 = "emit (EvSleep d) ?s2"
        have "grows ?s2 ?s4" by (simp add: grows_emit)
        then have "grows ?s2 (snd (robust_loop env url h retries d (Suc 0) ?s4))"
          by (rule grows_trans) (rule grows_robust_loop)
        from ext [OF this] show ?thesis using assms Inl nt False
          by (subst robust_loop.simps) (simp add: Let_def)
      qed
    qed
  qed
qed

lemma request_first_get:
  "\<exists>evs. trace (snd (request env url hdrs st))
           = trace (get_session st) @ EvGet url (get_headers_for_url env st url hdrs) # evs"
  unfolding request_def make_robust_request_def by (rule robust_loop_first_get) simp

lemma bind_io_first:
  assumes "\<exists>evs. trace (snd (f st)) = t @ e # evs" and "\<And>x. net_only (g x)"
  shows "\<exists>evs. trace (snd (bind_io f g st)) = t @ e # evs"
proof -
  obtain r st' where fs: "f st = (r, st')" by (cases "f st")
  from assms(1) fs obtain evs where t: "trace st' = t @ e # evs" by auto
  show ?thesis
  proof (cases r)
    case (Inl x)
    with fs t show ?thesis by (simp add: bind_io_def)
  next
    case (Inr x)
    obtain r2 st2 where gs: "g x st' = (r2, st2)" by (cases "g x st'")
    have "grows st' st2" using assms(2) gs by (rule net_onlyD)
    from grows_trace [OF this] t Inr fs gs show ?thesis by (auto simp: bind_io_def)
  qed
qed

lemma catch_raise_trace:
  "trace (snd (catch_io f (\<lambda>e. raise_io (h e)) st)) = trace (snd (f st))"
  by (cases "f st") (auto simp: catch_io_def raise_io_def split: sum.splits)

lemma missing_params_names:
  "(''channel_key'' \<in> set (missing_params ck f) \<longleftrightarrow> ck = None \<or> ck = Some [])
   \<and> (''auth_ts'' \<in> set (missing_params ck f) \<longleftrightarrow> \<not> truthy (auth_ts f))
   \<and> (''auth_rnd'' \<in> set (missing_params ck f) \<longleftrightarrow> \<not> truthy (auth_rnd f))
   \<and> (''auth_sig'' \<in> set (missing_params ck f) \<longleftrightarrow> \<not> truthy (auth_sig f))
   \<and> (''auth_host'' \<in> set (missing_params ck f) \<longleftrightarrow> \<not> truthy (auth_host f))
   \<and> (''auth_php'' \<in> set (missing_params ck f) \<longleftrightarrow> \<not> truthy (auth_php f))
   \<and> set (missing_params ck f)
       \<subseteq> {''channel_key'', ''auth_ts'', ''auth_rnd'', ''auth_sig'', ''auth_host'', ''auth_php''}"
  by (auto simp: missing_params_def)

lemma missing_params_empty:
  "missing_params ck f = []
   \<longleftrightarrow> (\<exists>k. ck = Some k \<and> k \<noteq> []) \<and> truthy (auth_ts f) \<and> truthy (auth_rnd f) \<and> truthy (auth_sig f)
        \<and> truthy (auth_host f) \<and> truthy (auth_php f)"
  by (cases ck) (auto simp: missing_params_def)

lemma auth_url_texts:
  "sg \<noteq> [] \<Longrightarrow> h \<noteq> [] \<Longrightarrow> p \<noteq> [] \<Longrightarrow>
   \<exists>p'. normalize_auth_php (PStr p) = Inr (PStr p')
        \<and> auth_url k ts rnd (PStr sg) (PStr h) (PStr p)
            = Inr (join_auth h p' @ ''?channel_id='' @ k @ ''&ts='' @ py_str ts @ ''&rnd='' @ py_str rnd
                     @ ''&sig='' @ quote_plus sg, PStr p')"
  by (auto simp: auth_url_def normalize_auth_php_def Let_def)

lemma resolve_stream_missing:
  assumes "decode_parameters js = Inl e"
  shows "resolve_stream env hdrs iframe_url js st
           = (Inl (Exn ExtractorError (''Fallimento estrazione parametri: '' @ str e)), st)"
  using assms by (simp add: resolve_stream_def catch_io_def raise_io_def)

lemma resolve_stream_first_get:
  assumes "decode_parameters js = Inr (k, f)"
    and "auth_url k (auth_ts f) (auth_rnd f) (auth_sig f) (auth_host f) (auth_php f) = Inr (url, p')"
  shows "\<exists>evs. trace (snd (resolve_stream env hdrs iframe_url js st))
           = trace (get_session st)
             @ EvGet url (get_headers_for_url env st url
                            (dict_set (dict_set hdrs ''Referer'' iframe_url) ''Origin''
                               (''https://'' @ netloc env iframe_url))) # evs"
proof -
  let ?hs = "dict_set (dict_set hdrs ''Referer'' iframe_url) ''Origin'' (''https://'' @ netloc env iframe_url)"
  have "resolve_stream env hdrs iframe_url js
          = catch_io (bind_io (request env url ?hs)
                        (\<lambda>_. server_resolution env hdrs iframe_url k f p'))
              (\<lambda>param_error. raise_io (Exn ExtractorError (''Fallimento estrazione parametri: '' @ str param_error)))"
    using assms by (simp add: resolve_stream_def auth_handshake_def Let_def)
  moreover have "\<exists>evs. trace (snd (bind_io (request env url ?hs)
                        (\<lambda>_. server_resolution env hdrs iframe_url k f p') st))
           = trace (get_session st) @ EvGet url (get_headers_for_url env st url ?hs) # evs"
    by (rule bind_io_first [OF request_first_get]) (rule net_only_server_resolution)
  ultimately show ?thesis by (simp only: catch_raise_trace)
qed

text \<open>
  C4, as the code has it. The error names exactly the fields that are absent after the
  decoder has run, which is after the first strategy whose result is not empty, or after
  all three when no result is; it is raised if and only if some field is absent then,
  and no request is made. When the six fields are non-empty texts no such error is
  raised and the handshake proceeds: the first thing that follows is the request of the
  auth URL.
\<close>

theorem missing_parameters:
  fixes js :: string
  defines "ck \<equiv> extract_channel_key js"
  defines "f \<equiv> fst (decode_auth_fields js)"
  defines "missing \<equiv> missing_params ck f"
  shows
    "((''channel_key'' \<in> set missing \<longleftrightarrow> ck = None \<or> ck = Some [])
      \<and> (''auth_ts'' \<in> set missing \<longleftrightarrow> \<not> truthy (auth_ts f))
      \<and> (''auth_rnd'' \<in> set missing \<longleftrightarrow> \<not> truthy (auth_rnd f))
      \<and> (''auth_sig'' \<in> set missing \<longleftrightarrow> \<not> truthy (auth_sig f))
      \<and> (''auth_host'' \<in> set missing \<longleftrightarrow> \<not> truthy (auth_host f))
      \<and> (''auth_php'' \<in> set missing \<longleftrightarrow> \<not> truthy (auth_php f))
      \<and> set missing \<subseteq> {''channel_key'', ''auth_ts'', ''auth_rnd'', ''auth_sig'', ''auth_host'', ''auth_php''})
     \<and> (missing \<noteq> []
          \<longrightarrow> decode_parameters js
                = Inl (Exn ExtractorError (''Parametri mancanti: '' @ join_str '', '' missing))
              \<and> resolve_stream env hdrs iframe_url js st
                = (Inl (Exn ExtractorError
                     (''Fallimento estrazione parametri: Parametri mancanti: '' @ join_str '', '' missing)), st))
     \<and> (missing = [] \<longrightarrow> decode_parameters js = Inr (the ck, f))
     \<and> (missing = [] \<and> auth_sig f = PStr sg \<and> auth_host f = PStr h \<and> auth_php f = PStr p
          \<longrightarrow> (\<exists>url p' evs.
                 auth_url (the ck) (auth_ts f) (auth_rnd f) (auth_sig f) (auth_host f) (auth_php f)
                   = Inr (url, PStr p')
                 \<and> trace (snd (resolve_stream env hdrs iframe_url js st))
                     = trace (get_session st)
                       @ EvGet url (get_headers_for_url env st url
                                      (dict_set (dict_set hdrs ''Referer'' iframe_url) ''Origin''
                                         (''https://'' @ netloc env iframe_url))) # evs))"
proof (intro conjI impI)
  show "''channel_key'' \<in> set missing \<longleftrightarrow> ck = None \<or> ck = Some []"
    and "''auth_ts'' \<in> set missing \<longleftrightarrow> \<not> truthy (auth_ts f)"
    and "''auth_rnd'' \<in> set missing \<longleftrightarrow> \<not> truthy (auth_rnd f)"
    and "''auth_sig'' \<in> set missing \<longleftrightarrow> \<not> truthy (auth_sig f)"
    and "''auth_host'' \<in> set missing \<longleftrightarrow> \<not> truthy (auth_host f)"
    and "''auth_php'' \<in> set missing \<longleftrightarrow> \<not> truthy (auth_php f)"
    and "set missing \<subseteq> {''channel_key'', ''auth_ts'', ''auth_rnd'', ''auth_sig'', ''auth_host'', ''auth_php''}"
    using missing_params_names [of ck f] unfolding missing_def by simp_all
next
  assume m: "missing \<noteq> []"
  then show d: "decode_parameters js = Inl (Exn ExtractorError (''Parametri mancanti: '' @ join_str '', '' missing))"
    by (simp add: decode_parameters_def Let_def missing_def ck_def f_def)
  show "resolve_stream env hdrs iframe_url js st
          = (Inl (Exn ExtractorError
               (''Fallimento estrazione parametri: Parametri mancanti: '' @ join_str '', '' missing)), st)"
    using resolve_stream_missing [OF d] by simp
next
  assume "missing = []"
  then show "decode_parameters js = Inr (the ck, f)"
    by (simp add: decode_parameters_def Let_def missing_def ck_def f_def)
next
  assume a: "missing = [] \<and> auth_sig f = PStr sg \<and> auth_host f = PStr h \<and> auth_php f = PStr p"
  then have d: "decode_parameters js = Inr (the ck, f)"
    by (simp add: decode_parameters_def Let_def missing_def ck_def f_def)
  from a have m0: "missing_params ck f = []" unfolding missing_def by simp
  have t: "truthy (auth_sig f) \<and> truthy (auth_host f) \<and> truthy (auth_php f)"
    using m0 by (simp only: missing_params_empty)
  have ne: "sg \<noteq> []" "h \<noteq> []" "p \<noteq> []"
    using t a by auto
  from auth_url_texts [OF ne, of "the ck" "auth_ts f" "auth_rnd f"] a
  obtain url p' where
    u: "auth_url (the ck) (auth_ts f) (auth_rnd f) (auth_sig f) (auth_host f) (auth_php f) = Inr (url, PStr p')"
    by auto
  from resolve_stream_first_get [OF d u] u
  show "\<exists>url p' evs.
          auth_url (the ck) (auth_ts f) (auth_rnd f) (auth_sig f) (auth_host f) (auth_php f) = Inr (url, PStr p')
          \<and> trace (snd (resolve_stream env hdrs iframe_url js st))
              = trace (get_session st)
                @ EvGet url (get_headers_for_url env st url
                               (dict_set (dict_set hdrs ''Referer'' iframe_url) ''Origin''
                                  (''https://'' @ netloc env iframe_url))) # evs"
    by blast
qed

lemma page_bundle_key: "extract_channel_key page_bundle = None"
  by code_simp

lemma site_page_key: "extract_channel_key site_page = Some ''k''"
  by code_simp

lemma page_partial_key: "extract_channel_key page_partial = Some ''k''"
  by code_simp

lemma page_partial_legacy:
  "legacy_fields page_partial
     = \<lparr>auth_host = PStr ''https://a.test'', auth_php = PStr ''auth.php'', auth_ts = PStr ''1'',
        auth_rnd = PStr ''2'', auth_sig = PStr ''s''\<rparr>"
  by code_simp

lemma page_bundle_fields:
  "decode_auth_fields page_bundle
     = (\<lparr>auth_host = PNone, auth_php = PNone, auth_ts = PStr ''7'', auth_rnd = PNone, auth_sig = PNone\<rparr>,
        [XJZ, BUNDLE])"
  by (simp add: decode_auth_fields_def Let_def page_bundle_results nonempty_dict_def bundle_fields_def dict_get_def)

lemma site_page_fields:
  "decode_auth_fields site_page
     = (\<lparr>auth_host = PStr ''https://a.test/'', auth_php = PStr ''a.php'', auth_ts = PStr ''1'',
         auth_rnd = PStr ''2'', auth_sig = PStr ''s+''\<rparr>, [XJZ])"
  by (simp add: decode_auth_fields_def Let_def site_page_xjz nonempty_dict_def bundle_fields_def dict_get_def)

lemma page_partial_fields:
  "decode_auth_fields page_partial
     = (\<lparr>auth_host = PStr ''h'', auth_php = PNone, auth_ts = PNone, auth_rnd = PNone, auth_sig = PNone\<rparr>, [XJZ])"
  by (simp add: decode_auth_fields_def Let_def page_partial_xjz nonempty_dict_def bundle_fields_def dict_get_def)

lemma site_auth_url:
  "auth_url ''k'' (PStr ''1'') (PStr ''2'') (PStr ''s+'') (PStr ''https://a.test/'') (PStr ''a.php'')
     = Inr (''https://a.test/auth.php?channel_id=k&ts=1&rnd=2&sig=s%2B'', PStr ''/auth.php'')"
  by (simp add: auth_url_def join_auth_def normalize_auth_php_def endswith_def startswith_def
        lstrip_chars_def strip_def is_space_def quote_defs)

lemma take_prefix_event: "t = pre @ e # evs \<Longrightarrow> take (Suc (length pre)) t = pre @ [e]"
  by simp

text \<open>
  The theorem on the page with a BUNDLE bundle that has only \<^verbatim>\<open>b_ts\<close>, and on the page
  of the site, where the first request after decoding is the one of the auth URL.
\<close>

theorem missing_parameters_witness:
  "decode_parameters page_bundle
     = Inl (Exn ExtractorError ''Parametri mancanti: channel_key, auth_rnd, auth_sig, auth_host, auth_php'')
   \<and> resolve_stream env_site [] ''https://i.test/f'' page_bundle st_init
     = (Inl (Exn ExtractorError
          ''Fallimento estrazione parametri: Parametri mancanti: channel_key, auth_rnd, auth_sig, auth_host, auth_php''),
        st_init)
   \<and> decode_parameters site_page
     = Inr (''k'', \<lparr>auth_host = PStr ''https://a.test/'', auth_php = PStr ''a.php'', auth_ts = PStr ''1'',
                    auth_rnd = PStr ''2'', auth_sig = PStr ''s+''\<rparr>)
   \<and> take 2 (trace (snd (resolve_stream env_site [] ''https://i.test/f'' site_page st_init)))
     = [EvNewSession,
        EvGet ''https://a.test/auth.php?channel_id=k&ts=1&rnd=2&sig=s%2B''
          [(''Referer'', ''https://i.test/f''), (''Origin'', ''https://i.test'')]]"
proof -
  have mb: "missing_params (extract_channel_key page_bundle) (fst (decode_auth_fields page_bundle))
              = [''channel_key'', ''auth_rnd'', ''auth_sig'', ''auth_host'', ''auth_php'']"
    by (simp add: page_bundle_key page_bundle_fields missing_params_def)
  have ms: "missing_params (extract_channel_key site_page) (fst (decode_auth_fields site_page)) = []"
    by (simp add: site_page_key site_page_fields missing_params_def)
  note b = missing_parameters [where js = page_bundle and env = env_site and hdrs = "[]"
             and iframe_url = "''https://i.test/f''" and st = st_init,
             THEN conjunct2, THEN conjunct1, rule_format]
  have c1: "decode_parameters page_bundle
     = Inl (Exn ExtractorError ''Parametri mancanti: channel_key, auth_rnd, auth_sig, auth_host, auth_php'')"
    and c2: "resolve_stream env_site [] ''https://i.test/f'' page_bundle st_init
     = (Inl (Exn ExtractorError
          ''Fallimento estrazione parametri: Parametri mancanti: channel_key, auth_rnd, auth_sig, auth_host, auth_php''),
        st_init)"
    using b by (simp_all add: mb)
  have c3: "decode_parameters site_page
     = Inr (''k'', \<lparr>auth_host = PStr ''https://a.test/'', auth_php = PStr ''a.php'', auth_ts = PStr ''1'',
                    auth_rnd = PStr ''2'', auth_sig = PStr ''s+''\<rparr>)"
    using missing_parameters [where js = site_page, THEN conjunct2, THEN conjunct2, THEN conjunct1, rule_format, OF ms]
    by (simp add: site_page_key site_page_fields)
  let ?u = "''https://a.test/auth.php?channel_id=k&ts=1&rnd=2&sig=s%2B''"
  let ?hs = "[(''Referer'', ''https://i.test/f''), (''Origin'', ''https://i.test'')]"
  have f: "fst (decode_auth_fields site_page)
             = \<lparr>auth_host = PStr ''https://a.test/'', auth_php = PStr ''a.php'', auth_ts = PStr ''1'',
                auth_rnd = PStr ''2'', auth_sig = PStr ''s+''\<rparr>"
    by (simp add: site_page_fields)
  have hyp: "missing_params (extract_channel_key site_page) (fst (decode_auth_fields site_page)) = []
             \<and> auth_sig (fst (decode_auth_fields site_page)) = PStr ''s+''
             \<and> auth_host (fst (decode_auth_fields site_page)) = PStr ''https://a.test/''
             \<and> auth_php (fst (decode_auth_fields site_page)) = PStr ''a.php''"
    using ms by (simp add: f)
  have gs: "trace (get_session st_init) = [EvNewSession]"
    by (simp add: get_session_def emit_def st_init_def)
  have hs: "dict_set (dict_set [] ''Referer'' ''https://i.test/f'') ''Origin''
              (''https://'' @ netloc env_site ''https://i.test/f'') = ?hs"
    by (simp add: env_site_def startswith_def)
  have gh: "get_headers_for_url env_site st_init ?u ?hs = ?hs"
    by (simp add: get_headers_for_url_def env_site_def startswith_def)
  from missing_parameters [where js = site_page and env = env_site and hdrs = "[]"
         and iframe_url = "''https://i.test/f''" and st = st_init and sg = "''s+''" and h = "''https://a.test/''"
         and p = "''a.php''", THEN conjunct2, THEN conjunct2, THEN conjunct2, rule_format, OF hyp]
  obtain url p' evs where
    u: "auth_url (the (extract_channel_key site_page)) (auth_ts (fst (decode_auth_fields site_page)))
          (auth_rnd (fst (decode_auth_fields site_page))) (auth_sig (fst (decode_auth_fields site_page)))
          (auth_host (fst (decode_auth_fields site_page))) (auth_php (fst (decode_auth_fields site_page)))
        = Inr (url, PStr p')"
    and t: "trace (snd (resolve_stream env_site [] ''https://i.test/f'' site_page st_init))
        = trace (get_session st_init)
          @ EvGet url (get_headers_for_url env_site st_init url
                         (dict_set (dict_set [] ''Referer'' ''https://i.test/f'') ''Origin''
                            (''https://'' @ netloc env_site ''https://i.test/f''))) # evs"
    by blast
  from u have "url = ?u" by (simp add: f site_page_key site_auth_url)
  with t have "trace (snd (resolve_stream env_site [] ''https://i.test/f'' site_page st_init))
       = [EvNewSession] @ EvGet ?u ?hs # evs"
    by (simp only: gs hs gh)
  from take_prefix_event [OF this]
  have c4: "take 2 (trace (snd (resolve_stream env_site [] ''https://i.test/f'' site_page st_init)))
     = [EvNewSession,
        EvGet ''https://a.test/auth.php?channel_id=k&ts=1&rnd=2&sig=s%2B''
          [(''Referer'', ''https://i.test/f''), (''Origin'', ''https://i.test'')]]"
    by (simp add: numeral_2_eq_2)
  from c1 c2 c3 c4 show ?thesis by (intro conjI)
qed

text \<open>
  C4 as stated says that the error is raised only if a field is still unset after all
  three strategies have been attempted. On the page whose XJZ bundle has only
  \<^verbatim>\<open>b_host\<close> and whose legacy variables give all five fields, the error is raised after
  the XJZ strategy alone; the legacy strategy is not run, and with its fields nothing
  would be missing.
\<close>

theorem missing_after_all_strategies_counterexample:
  "decode_parameters page_partial
     = Inl (Exn ExtractorError ''Parametri mancanti: auth_ts, auth_rnd, auth_sig, auth_php'')
   \<and> snd (decode_auth_fields page_partial) = [XJZ]
   \<and> missing_params (extract_channel_key page_partial) (legacy_fields page_partial) = []"
  by (simp add: decode_parameters_def Let_def page_partial_key page_partial_fields page_partial_legacy
        missing_params_def)

end
